(* ===== verification/Prelude.thy ===== *)
theory Prelude
  imports Main "HOL-Library.AList" "HOL-Library.Multiset"
begin

text \<open>
  Shared vocabulary of the development: the collections of rewrite rules, plain JavaScript
  objects used as dictionaries (\<open>Record<K, V>\<close>, modelled as association lists with pairwise
  different keys, so that both lookup and enumeration compute), grouping of rows by a key, and
  the stable \<open>Array.prototype.sort\<close> with a comparator.
\<close>

named_theorems store_defs "definitions of the store operations"
named_theorems row_defs "definitions of the row mappers"
named_theorems sync_defs "definitions of the synchronisation passes"

type_synonym identity = string
type_synonym u64 = int
type_synonym ('k, 'v) rec = "('k \<times> 'v) list"

section \<open>Dictionaries\<close>

text \<open>
  \<open>r[k]\<close> is \<^const>\<open>map_of\<close>, \<open>{...r, [k]: v}\<close> is \<open>rec_set k v r\<close>, \<open>delete r[k]\<close> is
  \<open>rec_del k r\<close>, and \<open>r[k] ?? d\<close> is \<open>rec_or r k d\<close>.  JavaScript enumerates integer-like keys
  in ascending order; the model enumerates in insertion order.
\<close>

abbreviation rec_set :: "'k \<Rightarrow> 'v \<Rightarrow> ('k, 'v) rec \<Rightarrow> ('k, 'v) rec" where
  "rec_set k v r \<equiv> AList.update k v r"

abbreviation rec_del :: "'k \<Rightarrow> ('k, 'v) rec \<Rightarrow> ('k, 'v) rec" where
  "rec_del k r \<equiv> AList.delete k r"

abbreviation rec_keys :: "('k, 'v) rec \<Rightarrow> 'k list" where
  "rec_keys r \<equiv> map fst r"

definition rec_or :: "('k, 'v) rec \<Rightarrow> 'k \<Rightarrow> 'v \<Rightarrow> 'v" where
  "rec_or r k d = (case map_of r k of None \<Rightarrow> d | Some v \<Rightarrow> v)"

definition rec_ok :: "('k, 'v) rec \<Rightarrow> bool" where
  "rec_ok r \<longleftrightarrow> distinct (rec_keys r)"

lemma rec_ok_Nil [simp, intro]: "rec_ok []"
  by (simp add: rec_ok_def)

lemma rec_ok_set [simp, intro]: "rec_ok r \<Longrightarrow> rec_ok (rec_set k v r)"
  by (simp add: rec_ok_def distinct_update)

lemma rec_ok_del [simp, intro]: "rec_ok r \<Longrightarrow> rec_ok (rec_del k r)"
  by (simp add: rec_ok_def distinct_delete)

lemma rec_get_set [simp]: "map_of (rec_set k v r) k' = (if k' = k then Some v else map_of r k')"
  by (simp add: update_conv')

lemma rec_or_set [simp]: "rec_or (rec_set k v r) k' d = (if k' = k then v else rec_or r k' d)"
  by (simp add: rec_or_def)

lemma rec_or_Nil [simp]: "rec_or [] k d = d"
  by (simp add: rec_or_def)

lemma rec_or_Cons [simp]: "rec_or ((k, v) # r) k' d = (if k' = k then v else rec_or r k' d)"
  by (simp add: rec_or_def)

lemma rec_get_del [simp]: "map_of (rec_del k r) k' = (if k' = k then None else map_of r k')"
  by (simp add: delete_conv')

lemma rec_or_del [simp]: "rec_or (rec_del k r) k' d = (if k' = k then d else rec_or r k' d)"
  by (simp add: rec_or_def)

lemma rec_or_not_key: "k \<notin> set (rec_keys r) \<Longrightarrow> rec_or r k d = d"
  by (force simp: rec_or_def split: option.split dest: map_of_SomeD)

lemma rec_keys_set [simp]: "fst ` set (rec_set k v r) = insert k (fst ` set r)"
  by (simp add: dom_update)

lemma rec_get_iff: "rec_ok r \<Longrightarrow> map_of r k = Some v \<longleftrightarrow> (k, v) \<in> set r"
  by (simp add: rec_ok_def map_of_eq_Some_iff)

section \<open>Grouping rows by a key\<close>

text \<open>
  The loop \<open>for (const row of rows) { const g = grouped.get(key) ?? []; g.push(row);
  grouped.set(key, g) }\<close> that every synchronisation pass starts with.
\<close>

definition push_row :: "('r \<Rightarrow> 'k) \<Rightarrow> ('k, 'r list) rec \<Rightarrow> 'r \<Rightarrow> ('k, 'r list) rec" where
  "push_row key g row = rec_set (key row) (rec_or g (key row) [] @ [row]) g"

definition group_rows :: "('r \<Rightarrow> 'k) \<Rightarrow> 'r list \<Rightarrow> ('k, 'r list) rec" where
  "group_rows key rows = foldl (push_row key) [] rows"

lemma foldl_push_row_or:
  "rec_or (foldl (push_row key) g rows) k [] = rec_or g k [] @ filter (\<lambda>r. key r = k) rows"
  by (induction rows arbitrary: g) (auto simp: push_row_def)

lemma group_rows_or [simp]: "rec_or (group_rows key rows) k [] = filter (\<lambda>r. key r = k) rows"
  by (simp add: group_rows_def foldl_push_row_or)

lemma foldl_push_row_keys:
  "fst ` set (foldl (push_row key) g rows) = fst ` set g \<union> key ` set rows"
  by (induction rows arbitrary: g) (auto simp: push_row_def)

lemma group_rows_keys [simp]: "fst ` set (group_rows key rows) = key ` set rows"
  using foldl_push_row_keys[of key "[]" rows] by (simp add: group_rows_def)

lemma rec_ok_foldl_push: "rec_ok g \<Longrightarrow> rec_ok (foldl (push_row key) g rows)"
  by (induction rows arbitrary: g) (auto simp: push_row_def)

lemma rec_ok_group_rows [simp, intro]: "rec_ok (group_rows key rows)"
  by (simp add: group_rows_def rec_ok_foldl_push)

lemma group_rows_Some:
  "(k, rs) \<in> set (group_rows key rows) \<Longrightarrow> rs = filter (\<lambda>r. key r = k) rows"
  using group_rows_or[of key rows k] rec_get_iff[OF rec_ok_group_rows, of key rows k rs]
  by (simp add: rec_or_def)

section \<open>Searching and comparing lists\<close>

text \<open>\<open>xs.findIndex(p)\<close>, with \<open>None\<close> for -1.\<close>

fun find_index :: "('a \<Rightarrow> bool) \<Rightarrow> 'a list \<Rightarrow> nat option" where
  "find_index p [] = None"
| "find_index p (x # xs) = (if p x then Some 0 else map_option Suc (find_index p xs))"

lemma find_index_None: "find_index p xs = None \<longleftrightarrow> (\<forall>x \<in> set xs. \<not> p x)"
  by (induction xs) auto

lemma find_index_Some: "find_index p xs = Some i \<Longrightarrow> i < length xs \<and> p (xs ! i)"
  by (induction xs arbitrary: i) (auto split: if_splits)

text \<open>
  Replacing, in a list whose keys are pairwise different, the row a key search found.
\<close>

lemma replace_at_key:
  assumes "find_index (\<lambda>y. f y = f x) xs = Some i" and "distinct (map f xs)"
  shows "xs[i := x] = map (\<lambda>y. if f y = f x then x else y) xs"
  using assms
proof (induction xs arbitrary: i)
  case (Cons y ys)
  show ?case
  proof (cases "f y = f x")
    case True
    then have "f z \<noteq> f x" if "z \<in> set ys" for z
      using Cons.prems(2) that by (metis distinct.simps(2) image_eqI list.set_map list.simps(9))
    with True Cons.prems show ?thesis by (auto intro: map_idI[symmetric])
  next
    case False
    with Cons show ?thesis by (auto split: if_splits)
  qed
qed simp

lemma map_key_replace [simp]: "map f (map (\<lambda>y. if f y = f x then x else y) xs) = map f xs"
  by (induction xs) auto

text \<open>
  The loop that compares two arrays row by row: same length, and no row differs.  (The shortcut
  \<open>a === b\<close> of the source answers true, as the loop does on one and the same array.)
\<close>

fun rows_equal :: "('a \<Rightarrow> 'a \<Rightarrow> bool) \<Rightarrow> 'a list \<Rightarrow> 'a list \<Rightarrow> bool" where
  "rows_equal eq [] [] = True"
| "rows_equal eq (x # xs) (y # ys) = (eq x y \<and> rows_equal eq xs ys)"
| "rows_equal eq _ _ = False"

lemma rows_equal_eq [simp]: "rows_equal (\<lambda>x y. x = y) xs ys \<longleftrightarrow> xs = ys"
  by (induction "\<lambda>x y :: 'a. x = y" xs ys rule: rows_equal.induct) auto

lemma rows_equal_map:
  "(\<And>x y. eq x y \<Longrightarrow> f x = f y) \<Longrightarrow> rows_equal eq xs ys \<Longrightarrow> map f xs = map f ys"
  by (induction eq xs ys rule: rows_equal.induct) auto

lemma rows_equal_refl: "(\<And>x. eq x x) \<Longrightarrow> rows_equal eq xs xs"
  by (induction xs) auto

section \<open>Stable sorting with a comparator\<close>

text \<open>
  \<open>xs.sort(cmp)\<close>: ECMAScript prescribes a stable sort; for a consistent comparator the result is
  determined, and this insertion sort computes it.
\<close>

fun js_insert :: "('a \<Rightarrow> 'a \<Rightarrow> int) \<Rightarrow> 'a \<Rightarrow> 'a list \<Rightarrow> 'a list" where
  "js_insert cmp x [] = [x]"
| "js_insert cmp x (y # ys) = (if cmp x y \<le> 0 then x # y # ys else y # js_insert cmp x ys)"

definition js_sort :: "('a \<Rightarrow> 'a \<Rightarrow> int) \<Rightarrow> 'a list \<Rightarrow> 'a list" where
  "js_sort cmp xs = foldr (js_insert cmp) xs []"

lemma mset_js_insert [simp]: "mset (js_insert cmp x ys) = add_mset x (mset ys)"
  by (induction ys) auto

lemma mset_js_sort [simp]: "mset (js_sort cmp xs) = mset xs"
  by (induction xs) (auto simp: js_sort_def)

lemma set_js_sort [simp]: "set (js_sort cmp xs) = set xs"
  by (metis mset_js_sort set_mset_mset)

lemma length_js_sort [simp]: "length (js_sort cmp xs) = length xs"
  by (metis mset_js_sort size_mset)

lemma js_sort_Nil [simp]: "js_sort cmp [] = []"
  by (simp add: js_sort_def)

lemma js_sort_Cons: "js_sort cmp (x # xs) = js_insert cmp x (js_sort cmp xs)"
  by (simp add: js_sort_def)

lemma distinct_map_js_sort [simp]: "distinct (map f (js_sort cmp xs)) = distinct (map f xs)"
proof -
  have "mset (map f (js_sort cmp xs)) = mset (map f xs)"
    by simp
  then show ?thesis by (rule mset_eq_imp_distinct_iff)
qed

text \<open>The contract a comparator must satisfy, and what sorting then promises.\<close>

locale consistent_comparator =
  fixes cmp :: "'a \<Rightarrow> 'a \<Rightarrow> int"
  assumes cmp_flip: "cmp x y \<le> 0 \<longleftrightarrow> 0 \<le> cmp y x"
    and cmp_trans: "cmp x y \<le> 0 \<Longrightarrow> cmp y z \<le> 0 \<Longrightarrow> cmp x z \<le> 0"
begin

lemma cmp_refl [simp]: "cmp x x \<le> 0" "0 \<le> cmp x x"
  using cmp_flip[of x x] by linarith+

lemma cmp_total: "\<not> cmp x y \<le> 0 \<Longrightarrow> cmp y x \<le> 0"
  using cmp_flip[of y x] by linarith

abbreviation ascending :: "'a list \<Rightarrow> bool" where
  "ascending xs \<equiv> sorted_wrt (\<lambda>x y. cmp x y \<le> 0) xs"

lemma ascending_insert: "ascending ys \<Longrightarrow> ascending (js_insert cmp x ys)"
proof (induction ys)
  case Nil
  then show ?case by simp
next
  case (Cons y ys)
  have sets: "set (js_insert cmp x ys) = insert x (set ys)"
    by (metis mset_js_insert set_mset_add_mset_insert set_mset_mset)
  show ?case
  proof (cases "cmp x y \<le> 0")
    case True
    with Cons.prems show ?thesis by (auto intro: cmp_trans)
  next
    case False
    with Cons show ?thesis by (auto simp: sets intro: cmp_total)
  qed
qed

lemma ascending_js_sort: "ascending (js_sort cmp xs)"
  by (induction xs) (auto simp: js_sort_Cons ascending_insert)

lemma js_insert_below: "(\<And>y. y \<in> set ys \<Longrightarrow> cmp x y \<le> 0) \<Longrightarrow> js_insert cmp x ys = x # ys"
  by (cases ys) auto

lemma js_sort_ascending_id: "ascending xs \<Longrightarrow> js_sort cmp xs = xs"
  by (induction xs) (auto simp: js_sort_Cons js_insert_below)

lemma js_sort_idem [simp]: "js_sort cmp (js_sort cmp xs) = js_sort cmp xs"
  by (rule js_sort_ascending_id[OF ascending_js_sort])

lemma filter_insert_tied:
  "cmp x a = 0 \<Longrightarrow> filter (\<lambda>y. cmp y a = 0) (js_insert cmp x ys)
     = x # filter (\<lambda>y. cmp y a = 0) ys"
proof (induction ys)
  case (Cons y ys)
  have "cmp y a \<noteq> 0" if "\<not> cmp x y \<le> 0"
  proof
    assume "cmp y a = 0"
    then have "cmp a y \<le> 0" using cmp_flip[of a y] by simp
    moreover from Cons.prems have "cmp x a \<le> 0" by simp
    ultimately show False using cmp_trans that by blast
  qed
  with Cons show ?case by auto
qed simp

lemma filter_insert_other:
  "cmp x a \<noteq> 0 \<Longrightarrow> filter (\<lambda>y. cmp y a = 0) (js_insert cmp x ys) = filter (\<lambda>y. cmp y a = 0) ys"
  by (induction ys) auto

lemma js_sort_stable: "filter (\<lambda>y. cmp y a = 0) (js_sort cmp xs) = filter (\<lambda>y. cmp y a = 0) xs"
  by (induction xs) (auto simp: js_sort_Cons filter_insert_tied filter_insert_other)

end

lemma map_of_filter_value:
  "rec_ok r \<Longrightarrow> map_of (filter (\<lambda>(k, v). P v) r) k
     = (case map_of r k of Some v \<Rightarrow> if P v then Some v else None | None \<Rightarrow> None)"
proof (induction r)
  case (Cons a r)
  then have r: "rec_ok r" "fst a \<notin> fst ` set r" by (auto simp: rec_ok_def)
  then have "map_of (filter (\<lambda>(k, v). P v) r) (fst a) = None" "map_of r (fst a) = None"
    by (auto simp: map_of_eq_None_iff)
  with Cons.IH[OF r(1)] show ?case by (cases a) (auto split: option.splits)
qed simp

end
