(* ===== verification/RowStore.thy ===== *)
theory RowStore
  imports Prelude
begin

text \<open>
  The interface between the synchronisation passes and the stores that keep rows per key: what a
  store must promise about writing the rows of one key, and what a pass that regroups the whole
  cache then achieves.
\<close>

text \<open>
  The body of a pass: keys of the store that no longer occur are written empty, then every group
  is arranged and written.
\<close>

definition replace_all :: "('k \<Rightarrow> 'r list \<Rightarrow> 's \<Rightarrow> 's) \<Rightarrow> ('s \<Rightarrow> 'k list) \<Rightarrow> ('r list \<Rightarrow> 'r list)
    \<Rightarrow> ('r \<Rightarrow> 'k) \<Rightarrow> 'r list \<Rightarrow> 's \<Rightarrow> 's" where
  "replace_all put keys arrange key rows s = (let grouped = group_rows key rows;
     s = foldl (\<lambda>s k. if k \<in> set (rec_keys grouped) then s else put k [] s) s (keys s)
   in foldl (\<lambda>s (k, rs). put k (arrange rs) s) s grouped)"

text \<open>What no write changes, a pass does not change.\<close>

lemma replace_all_keeps:
  assumes "\<And>k rs s. f (put k rs s) = f s"
  shows "f (replace_all put keys arrange key rows s) = f s"
proof -
  have blank: "f (foldl (\<lambda>s k. if k \<in> G then s else put k [] s) s ks) = f s" for G ks s
    by (induction ks arbitrary: s) (auto simp: assms)
  have written: "f (foldl (\<lambda>s (k, rs). put k (arrange rs) s) s g) = f s" for g s
    by (induction g arbitrary: s) (auto simp: assms)
  show ?thesis unfolding replace_all_def Let_def written blank ..
qed

text \<open>
  \<open>view\<close> is what a reader of the store can tell about a key, \<open>expect\<close> what it should see after
  these rows have been written; \<open>ok\<close> is an invariant of the store.
\<close>

locale row_store =
  fixes view :: "'s \<Rightarrow> 'k \<Rightarrow> 'v" and expect :: "'s \<Rightarrow> 'k \<Rightarrow> 'r list \<Rightarrow> 'v"
    and put :: "'k \<Rightarrow> 'r list \<Rightarrow> 's \<Rightarrow> 's" and keys :: "'s \<Rightarrow> 'k list" and ok :: "'s \<Rightarrow> bool"
  assumes put_view: "view (put k rs s) k' = (if k' = k then expect s k rs else view s k')"
    and put_expect: "expect (put k rs s) = expect s"
    and put_ok: "ok s \<Longrightarrow> ok (put k rs s)"
    and absent: "ok s \<Longrightarrow> k \<notin> set (keys s) \<Longrightarrow> view s k = expect s k []"
begin

lemma blank_view:
  "view (foldl (\<lambda>s k. if k \<in> G then s else put k [] s) s ks) k
     = (if k \<in> set ks \<and> k \<notin> G then expect s k [] else view s k)
   \<and> expect (foldl (\<lambda>s k. if k \<in> G then s else put k [] s) s ks) = expect s"
  by (induction ks arbitrary: s) (auto simp: put_view put_expect)

lemma write_view:
  "distinct (map fst g) \<Longrightarrow>
   view (foldl (\<lambda>s (k, rs). put k (arrange rs) s) s g) k
     = (case map_of g k of None \<Rightarrow> view s k | Some rs \<Rightarrow> expect s k (arrange rs))
   \<and> expect (foldl (\<lambda>s (k, rs). put k (arrange rs) s) s g) = expect s"
proof (induction g arbitrary: s)
  case (Cons a g)
  obtain k' rs where a: "a = (k', rs)" by (cases a)
  with Cons.prems have "map_of g k' = None" by (simp add: map_of_eq_None_iff)
  with a Cons show ?case by (auto simp: put_view put_expect split: option.splits)
qed simp

lemma write_ok: "ok s \<Longrightarrow> ok (foldl (\<lambda>s (k, rs). put k (arrange rs) s) s g)"
  by (induction g arbitrary: s) (auto simp: put_ok)

lemma blank_ok: "ok s \<Longrightarrow> ok (foldl (\<lambda>s k. if k \<in> G then s else put k [] s) s ks)"
  by (induction ks arbitrary: s) (auto simp: put_ok)

lemma replace_all_ok: "ok s \<Longrightarrow> ok (replace_all put keys arrange key rows s)"
  by (simp add: replace_all_def Let_def write_ok blank_ok)

lemma replace_all_view:
  assumes "ok s" and "arrange [] = []"
  shows "view (replace_all put keys arrange key rows s) k
    = expect s k (arrange (filter (\<lambda>r. key r = k) rows))"
proof -
  have d: "distinct (map fst (group_rows key rows))"
    using rec_ok_group_rows[of key rows] by (simp add: rec_ok_def)
  have g: "map_of (group_rows key rows) k
      = (if k \<in> key ` set rows then Some (filter (\<lambda>r. key r = k) rows) else None)"
    using group_rows_or[of key rows k] map_of_eq_None_iff[of "group_rows key rows" k]
    by (auto simp: rec_or_def split: option.splits)
  have e: "filter (\<lambda>r. key r = k) rows = []" if "k \<notin> key ` set rows"
    using that by (auto simp: filter_empty_conv)
  show ?thesis
    using assms absent[OF assms(1), of k]
    unfolding replace_all_def Let_def write_view[OF d, THEN conjunct1]
    by (auto simp: g blank_view e)
qed

lemma replace_all_expect: "expect (replace_all put keys arrange key rows s) = expect s"
proof -
  have d: "distinct (map fst (group_rows key rows))"
    using rec_ok_group_rows[of key rows] by (simp add: rec_ok_def)
  show ?thesis
    unfolding replace_all_def Let_def write_view[OF d, THEN conjunct2] by (simp add: blank_view)
qed

text \<open>A second pass over the same cache changes nothing that can be seen.\<close>

lemma replace_all_again:
  assumes "ok s" and "arrange [] = []"
  shows "view (replace_all put keys arrange key rows (replace_all put keys arrange key rows s))
    = view (replace_all put keys arrange key rows s)"
  using assms by (simp add: replace_all_view replace_all_ok replace_all_expect fun_eq_iff)

end

end
