(* ===== verification/JsLib.thy ===== *)
theory JsLib
  imports Prelude "HOL-Library.List_Lexorder" "HOL-Library.Char_ord"
begin

text \<open>
  The part of the JavaScript standard library the program uses: string operations (a
  character is a UTF-16 code unit below 256, the Latin-1 range), decimal printing of numbers,
  \<open>Number(bigint)\<close> with its rounding to 53 bits, and the ISO date functions
  \<open>Date.prototype.toISOString\<close> and \<open>Date.parse\<close>.
\<close>

section \<open>Strings\<close>

definition js_space :: "char \<Rightarrow> bool" where
  "js_space c \<longleftrightarrow> (let n = of_char c :: nat in (9 \<le> n \<and> n \<le> 13) \<or> n = 32 \<or> n = 160)"

definition js_trim :: "string \<Rightarrow> string" where
  "js_trim s = rev (dropWhile js_space (rev (dropWhile js_space s)))"

definition js_lower_char :: "char \<Rightarrow> char" where
  "js_lower_char c = (let n = of_char c :: nat in
     if (65 \<le> n \<and> n \<le> 90) \<or> (192 \<le> n \<and> n \<le> 222 \<and> n \<noteq> 215) then char_of (n + 32) else c)"

definition js_lower :: "string \<Rightarrow> string" where
  "js_lower s = map js_lower_char s"

lemma of_char_lower: "(of_char (js_lower_char c) :: nat) =
    (let n = of_char c in
     if (65 \<le> n \<and> n \<le> 90) \<or> (192 \<le> n \<and> n \<le> 222 \<and> n \<noteq> 215) then n + 32 else n)"
  by (auto simp: js_lower_char_def Let_def of_char_of)

lemma js_lower_char_idem [simp]: "js_lower_char (js_lower_char c) = js_lower_char c"
proof -
  have "(of_char (js_lower_char (js_lower_char c)) :: nat) = of_char (js_lower_char c)"
    by (subst of_char_lower) (auto simp: of_char_lower Let_def)
  then show ?thesis by (metis char_of_char)
qed

lemma js_space_lower [simp]: "js_space (js_lower_char c) = js_space c"
  by (auto simp: js_space_def of_char_lower Let_def)

lemma js_lower_idem [simp]: "js_lower (js_lower s) = js_lower s"
  by (simp add: js_lower_def)

lemma js_trim_lower: "js_trim (js_lower s) = js_lower (js_trim s)"
  by (simp add: js_trim_def js_lower_def dropWhile_map comp_def rev_map)

lemma js_trim_idem [simp]: "js_trim (js_trim s) = js_trim s"
proof -
  let ?t = "dropWhile js_space s"
  let ?u = "rev (dropWhile js_space (rev ?t))"
  have "dropWhile js_space ?u = ?u"
  proof (cases ?u)
    case (Cons a as)
    have "prefix_ok": "\<exists>zs. ?t = ?u @ zs"
      by (metis rev_append rev_rev_ident takeWhile_dropWhile_id)
    then obtain zs where "?t = a # as @ zs" using Cons by auto
    then have "\<not> js_space a" by (metis hd_dropWhile list.distinct(1) list.sel(1))
    with Cons show ?thesis by (metis dropWhile.simps(2))
  qed (metis dropWhile.simps(1))
  then show ?thesis by (simp add: js_trim_def)
qed

definition code_unit_compare :: "string \<Rightarrow> string \<Rightarrow> int" where
  "code_unit_compare a b = (if a < b then -1 else if a = b then 0 else 1)"

text \<open>
  \<open>String.prototype.localeCompare\<close> depends on the locale data of the engine, so it is an
  argument \<open>lc\<close> of the definitions that use it.  What ECMAScript promises is that it is a
  consistent comparator; comparison by code units is one such collation.
\<close>

interpretation code_unit: consistent_comparator code_unit_compare
  by unfold_locales (auto simp: code_unit_compare_def split: if_splits)

lemma code_unit_compare_le [simp]: "code_unit_compare a b \<le> 0 \<longleftrightarrow> a \<le> b"
  by (auto simp: code_unit_compare_def)

definition starts_with :: "string \<Rightarrow> string \<Rightarrow> bool" where
  "starts_with p s \<longleftrightarrow> take (length p) s = p"

fun js_includes :: "string \<Rightarrow> string \<Rightarrow> bool" where
  "js_includes needle [] = (needle = [])"
| "js_includes needle (c # cs) = (starts_with needle (c # cs) \<or> js_includes needle cs)"

section \<open>Numbers\<close>

definition digit_char :: "nat \<Rightarrow> char" where
  "digit_char n = char_of (48 + n)"

definition digit_val :: "char \<Rightarrow> nat option" where
  "digit_val c = (let n = of_char c :: nat in if 48 \<le> n \<and> n \<le> 57 then Some (n - 48) else None)"

lemma digit_val_char [simp]: "n < 10 \<Longrightarrow> digit_val (digit_char n) = Some n"
  by (simp add: digit_val_def digit_char_def of_char_of)

fun show_nat :: "nat \<Rightarrow> string" where
  "show_nat n = (if n < 10 then [digit_char n] else show_nat (n div 10) @ [digit_char (n mod 10)])"

declare show_nat.simps [simp del]

definition show_int :: "int \<Rightarrow> string" where
  "show_int i = (if i < 0 then CHR ''-'' # show_nat (nat (- i)) else show_nat (nat i))"

fun read_digits :: "nat \<Rightarrow> string \<Rightarrow> nat option" where
  "read_digits acc [] = Some acc"
| "read_digits acc (c # cs) =
     (case digit_val c of None \<Rightarrow> None | Some d \<Rightarrow> read_digits (10 * acc + d) cs)"

lemma read_digits_snoc:
  "read_digits acc (s @ [c]) = (case read_digits acc s of None \<Rightarrow> None
     | Some n \<Rightarrow> map_option (\<lambda>d. 10 * n + d) (digit_val c))"
  by (induction s arbitrary: acc) (auto split: option.splits)

lemma read_show_nat [simp]: "read_digits 0 (show_nat n) = Some n"
proof (induction n rule: show_nat.induct)
  case (1 n)
  then show ?case
    by (subst show_nat.simps) (auto simp: read_digits_snoc)
qed

lemma show_nat_inject [simp]: "show_nat m = show_nat n \<longleftrightarrow> m = n"
  by (metis option.inject read_show_nat)

lemma show_nat_no_minus: "show_nat n \<noteq> CHR ''-'' # s"
proof
  assume "show_nat n = CHR ''-'' # s"
  then have "read_digits 0 (CHR ''-'' # s) = Some n" by (metis read_show_nat)
  then show False by (simp add: digit_val_def)
qed

lemma show_int_inject [simp]: "show_int i = show_int j \<longleftrightarrow> i = j"
  by (auto simp: show_int_def show_nat_no_minus show_nat_no_minus[symmetric])

text \<open>\<open>Number(b)\<close> of a bigint: exact up to \<open>2\<^sup>53\<close>, above that rounded to 53 bits, ties to even.\<close>

definition round_bits :: "nat \<Rightarrow> int \<Rightarrow> int" where
  "round_bits k n = (let q = n div 2 ^ k; r = n mod 2 ^ k in
     (if 2 ^ k < 2 * r \<or> (2 * r = 2 ^ k \<and> odd q) then q + 1 else q) * 2 ^ k)"

function excess_bits :: "int \<Rightarrow> nat" where
  "excess_bits n = (if n < 2 ^ 53 then 0 else Suc (excess_bits (n div 2)))"
  by pat_completeness auto
termination
  by (relation "measure nat") auto

declare excess_bits.simps [simp del]

definition number_of_bigint :: "int \<Rightarrow> int" where
  "number_of_bigint n = (if n < 2 ^ 53 then n else round_bits (excess_bits n) n)"

lemma number_of_bigint_exact [simp]: "n \<le> 2 ^ 53 \<Longrightarrow> number_of_bigint n = n"
  by (cases "n = 2 ^ 53") (auto simp: number_of_bigint_def excess_bits.simps round_bits_def)

section \<open>Dates\<close>

text \<open>
  Days are counted from 1970-01-01 in the proleptic Gregorian calendar; the year is taken to
  start on the first of March, so that the leap day is the last day of its year.
\<close>

definition days_from_civil :: "int \<Rightarrow> int \<Rightarrow> int \<Rightarrow> int" where
  "days_from_civil y m d = (let y' = (if m \<le> 2 then y - 1 else y); era = y' div 400; yoe = y' mod 400;
     mp = (if m > 2 then m - 3 else m + 9); doy = (153 * mp + 2) div 5 + d - 1;
     doe = yoe * 365 + yoe div 4 - yoe div 100 + doy
   in era * 146097 + doe - 719468)"

definition civil_from_days :: "int \<Rightarrow> int \<times> int \<times> int" where
  "civil_from_days n = (let z = n + 719468; era = z div 146097; doe = z mod 146097;
     c = min 3 (doe div 36524); r = doe - 36524 * c; q = r div 1461; s = r - 1461 * q;
     a = min 3 (s div 365); yoe = 100 * c + 4 * q + a; doy = s - 365 * a;
     mp = (5 * doy + 2) div 153; d = doy - (153 * mp + 2) div 5 + 1;
     m = (if mp < 10 then mp + 3 else mp - 9)
   in (yoe + era * 400 + (if m \<le> 2 then 1 else 0), m, d))"

definition pad :: "nat \<Rightarrow> int \<Rightarrow> string" where
  "pad k n = (let s = show_nat (nat n) in replicate (k - length s) (CHR ''0'') @ s)"

text \<open>\<open>new Date(ms).toISOString()\<close>; a year outside 0..9999 is printed with a sign and six digits.\<close>

definition iso_year :: "int \<Rightarrow> string" where
  "iso_year y = (if 0 \<le> y \<and> y \<le> 9999 then pad 4 y
     else if y < 0 then CHR ''-'' # pad 6 (- y) else CHR ''+'' # pad 6 y)"

definition to_iso_string :: "int \<Rightarrow> string" where
  "to_iso_string ms = (let t = ms mod 86400000; (y, m, d) = civil_from_days (ms div 86400000) in
     iso_year y @ ''-'' @ pad 2 m @ ''-'' @ pad 2 d @ ''T'' @ pad 2 (t div 3600000) @ '':'' @
     pad 2 (t div 60000 mod 60) @ '':'' @ pad 2 (t div 1000 mod 60) @ ''.'' @ pad 3 (t mod 1000) @ ''Z'')"

text \<open>
  \<open>Date.parse(s)\<close> on the format \<open>toISOString\<close> prints (four-digit years); \<open>None\<close> is \<open>NaN\<close>.
  Every timestamp of the stores has this format: it was printed by \<open>toIsoString\<close>.
\<close>

definition date_parse :: "string \<Rightarrow> int option" where
  "date_parse s =
    (if length s = 24 \<and> s ! 4 = CHR ''-'' \<and> s ! 7 = CHR ''-'' \<and> s ! 10 = CHR ''T''
        \<and> s ! 13 = CHR '':'' \<and> s ! 16 = CHR '':'' \<and> s ! 19 = CHR ''.'' \<and> s ! 23 = CHR ''Z''
     then (case (read_digits 0 (take 4 s), read_digits 0 (take 2 (drop 5 s)),
                 read_digits 0 (take 2 (drop 8 s)), read_digits 0 (take 2 (drop 11 s)),
                 read_digits 0 (take 2 (drop 14 s)), read_digits 0 (take 2 (drop 17 s)),
                 read_digits 0 (take 3 (drop 20 s))) of
           (Some y, Some mo, Some d, Some h, Some mi, Some sec, Some ms) \<Rightarrow>
             if 1 \<le> mo \<and> mo \<le> 12 \<and> 1 \<le> d \<and> d \<le> 31 \<and> h \<le> 23 \<and> mi \<le> 59 \<and> sec \<le> 59
             then Some (days_from_civil (int y) (int mo) (int d) * 86400000
                        + int h * 3600000 + int mi * 60000 + int sec * 1000 + int ms)
             else None
         | _ \<Rightarrow> None)
     else None)"

definition date_is_nan :: "string \<Rightarrow> bool" where
  "date_is_nan s \<longleftrightarrow> date_parse s = None"

text \<open>Comparisons between two parsed dates: with \<open>NaN\<close> on either side they are false.\<close>

definition date_less :: "int option \<Rightarrow> int option \<Rightarrow> bool" where
  "date_less a b = (case (a, b) of (Some x, Some y) \<Rightarrow> x < y | _ \<Rightarrow> False)"

definition date_geq :: "int option \<Rightarrow> int option \<Rightarrow> bool" where
  "date_geq a b = (case (a, b) of (Some x, Some y) \<Rightarrow> x \<ge> y | _ \<Rightarrow> False)"

section \<open>Printing a date and parsing it back\<close>

lemma civil_parts:
  fixes doe :: int
  assumes "0 \<le> doe" "doe < 146097"
  defines "c \<equiv> min 3 (doe div 36524)"
  defines "r \<equiv> doe - 36524 * c"
  defines "q \<equiv> r div 1461"
  defines "s \<equiv> r - 1461 * q"
  defines "a \<equiv> min 3 (s div 365)"
  shows "0 \<le> c \<and> c \<le> 3 \<and> 0 \<le> q \<and> q \<le> 24 \<and> 0 \<le> a \<and> a \<le> 3 \<and> 0 \<le> s - 365 * a \<and> s - 365 * a \<le> 365
    \<and> (s - 365 * a = 365 \<longrightarrow> a = 3)"
proof -
  have c: "0 \<le> c" "c \<le> 3" "0 \<le> r" "r \<le> 36524" using assms(1,2) unfolding c_def r_def by linarith+
  have q: "0 \<le> q" "q \<le> 24" "0 \<le> s" "s \<le> 1460" using c unfolding q_def s_def by linarith+
  have a: "0 \<le> a" "a \<le> 3" "0 \<le> s - 365 * a" "s - 365 * a \<le> 365" "s - 365 * a = 365 \<longrightarrow> a = 3" using q unfolding a_def by linarith+
  from c q a show ?thesis by simp
qed

lemma month_parts:
  fixes doy :: int
  assumes "0 \<le> doy" "doy \<le> 365"
  defines "mp \<equiv> (5 * doy + 2) div 153"
  defines "d \<equiv> doy - (153 * mp + 2) div 5 + 1"
  shows "0 \<le> mp \<and> mp \<le> 11 \<and> 1 \<le> d \<and> d \<le> 31"
proof -
  have "0 \<le> mp" "mp \<le> 11" "153 * mp \<le> 5 * doy + 2" "5 * doy + 2 < 153 * mp + 153"
    using assms(1,2) unfolding mp_def by linarith+
  then show ?thesis unfolding d_def by linarith
qed

lemma civil_roundtrip:
  "civil_from_days n = (y, m, d) \<Longrightarrow>
     days_from_civil y m d = n \<and> 1 \<le> m \<and> m \<le> 12 \<and> 1 \<le> d \<and> d \<le> 31"
proof -
  assume ymd: "civil_from_days n = (y, m, d)"
  define z where "z = n + 719468"
  define era where "era = z div 146097"
  define doe where "doe = z mod 146097"
  define c where "c = min 3 (doe div 36524)"
  define r where "r = doe - 36524 * c"
  define q where "q = r div 1461"
  define s where "s = r - 1461 * q"
  define a where "a = min 3 (s div 365)"
  define yoe where "yoe = 100 * c + 4 * q + a"
  define doy where "doy = s - 365 * a"
  define mp where "mp = (5 * doy + 2) div 153"
  have doe: "0 \<le> doe" "doe < 146097" by (simp_all add: doe_def)
  have b: "0 \<le> c" "c \<le> 3" "0 \<le> q" "q \<le> 24" "0 \<le> a" "a \<le> 3" "0 \<le> doy" "doy \<le> 365"
    using civil_parts[OF doe, folded c_def, folded r_def, folded q_def, folded s_def, folded a_def, folded doy_def]
    by blast+
  have mp: "0 \<le> mp" "mp \<le> 11" "1 \<le> doy - (153 * mp + 2) div 5 + 1" "doy - (153 * mp + 2) div 5 + 1 \<le> 31"
    using month_parts[OF b(7,8), folded mp_def] by blast+
  define mm where "mm = (if mp < 10 then mp + 3 else mp - 9)"
  have "civil_from_days n = (yoe + era * 400 + (if mm \<le> 2 then 1 else 0), mm, doy - (153 * mp + 2) div 5 + 1)"
    by (simp only: civil_from_days_def Let_def z_def era_def doe_def c_def r_def q_def s_def a_def
        yoe_def doy_def mp_def mm_def)
  with ymd have md: "m = (if mp < 10 then mp + 3 else mp - 9)" "d = doy - (153 * mp + 2) div 5 + 1"
    and y: "y = yoe + era * 400 + (if m \<le> 2 then 1 else 0)"
    by (auto simp: mm_def)
  have y': "(if m \<le> 2 then y - 1 else y) = yoe + era * 400" using y by auto
  have yb: "0 \<le> yoe" "yoe < 400" "yoe div 4 = 25 * c + q" "yoe div 100 = c"
    using b unfolding yoe_def by linarith+
  have mp': "(if m > 2 then m - 3 else m + 9) = mp" using md mp by auto
  have "yoe * 365 + yoe div 4 - yoe div 100 + doy = doe"
    unfolding yb(3,4) unfolding yoe_def doy_def s_def r_def by simp
  moreover have "(yoe + era * 400) div 400 = era" "(yoe + era * 400) mod 400 = yoe" using yb by auto
  moreover have "era * 146097 + doe = z" by (simp add: era_def doe_def)
  moreover have "(153 * mp + 2) div 5 + d - 1 = doy" using md by simp
  ultimately have "days_from_civil y m d = n"
    unfolding days_from_civil_def Let_def y' mp' by (simp add: z_def)
  moreover have "1 \<le> m" "m \<le> 12" "1 \<le> d" "d \<le> 31" using md mp by auto
  ultimately show ?thesis by simp
qed

lemma show_nat_step: "10 \<le> n \<Longrightarrow> length (show_nat n) = Suc (length (show_nat (n div 10)))"
  by (subst show_nat.simps) simp

lemma show_nat_length:
  "n < 10 \<Longrightarrow> length (show_nat n) = 1"
  "10 \<le> n \<Longrightarrow> n < 100 \<Longrightarrow> length (show_nat n) = 2"
  "100 \<le> n \<Longrightarrow> n < 1000 \<Longrightarrow> length (show_nat n) = 3"
  "1000 \<le> n \<Longrightarrow> n < 10000 \<Longrightarrow> length (show_nat n) = 4"
proof -
  have 1: "length (show_nat k) = 1" if "k < 10" for k using that by (simp add: show_nat.simps)
  have 2: "length (show_nat k) = 2" if "10 \<le> k" "k < 100" for k
    using that 1[of "k div 10"] by (simp add: show_nat_step)
  have 3: "length (show_nat k) = 3" if "100 \<le> k" "k < 1000" for k
    using that 2[of "k div 10"] by (simp add: show_nat_step)
  have 4: "length (show_nat k) = 4" if "1000 \<le> k" "k < 10000" for k
    using that 3[of "k div 10"] by (simp add: show_nat_step)
  show "n < 10 \<Longrightarrow> length (show_nat n) = 1"
    "10 \<le> n \<Longrightarrow> n < 100 \<Longrightarrow> length (show_nat n) = 2"
    "100 \<le> n \<Longrightarrow> n < 1000 \<Longrightarrow> length (show_nat n) = 3"
    "1000 \<le> n \<Longrightarrow> n < 10000 \<Longrightarrow> length (show_nat n) = 4"
    using 1 2 3 4 by blast+
qed

lemma read_digits_zeros [simp]: "read_digits 0 (replicate k (CHR ''0'') @ s) = read_digits 0 s"
  by (induction k) (auto simp: digit_val_def)

lemma pad_read [simp]: "read_digits 0 (pad k n) = Some (nat n)"
  by (simp add: pad_def Let_def)

lemma pad_length [simp]: "0 \<le> n \<Longrightarrow> n < 100 \<Longrightarrow> length (pad 2 n) = 2"
  "0 \<le> n \<Longrightarrow> n < 1000 \<Longrightarrow> length (pad 3 n) = 3"
  "0 \<le> n \<Longrightarrow> n < 10000 \<Longrightarrow> length (pad 4 n) = 4"
  by (cases "nat n < 10"; cases "nat n < 100"; cases "nat n < 1000"; simp add: pad_def Let_def show_nat_length)+

lemma list_nth_sep: "length a = k \<Longrightarrow> (a @ c # b) ! k = c"
  by (metis nth_append_length)

lemma iso_layout:
  assumes "length ys = 4" "length mo = 2" "length d = 2" "length h = 2" "length mi = 2" "length sec = 2" "length ms = 3"
  defines "s \<equiv> ys @ ''-'' @ mo @ ''-'' @ d @ ''T'' @ h @ '':'' @ mi @ '':'' @ sec @ ''.'' @ ms @ ''Z''"
  shows "length s = 24 \<and> s ! 4 = CHR ''-'' \<and> s ! 7 = CHR ''-'' \<and> s ! 10 = CHR ''T''
        \<and> s ! 13 = CHR '':'' \<and> s ! 16 = CHR '':'' \<and> s ! 19 = CHR ''.'' \<and> s ! 23 = CHR ''Z''"
   "take 4 s = ys" "take 2 (drop 5 s) = mo" "take 2 (drop 8 s) = d" "take 2 (drop 11 s) = h"
   "take 2 (drop 14 s) = mi" "take 2 (drop 17 s) = sec" "take 3 (drop 20 s) = ms"
  using assms(1-7) unfolding s_def by (simp_all add: nth_append)

lemma time_of_day_sum:
  fixes t :: int
  shows "t div 3600000 * 3600000 + (t div 60000 mod 60) * 60000 + (t div 1000 mod 60) * 1000 + t mod 1000 = t"
proof -
  define u where "u = t div 1000"
  define v where "v = u div 60"
  have d: "t div 60000 = v" "t div 3600000 = v div 60"
    by (simp_all add: u_def v_def flip: zdiv_zmult2_eq)
  have "60 * (v div 60) + v mod 60 = v" "60 * v + u mod 60 = u" "1000 * u + t mod 1000 = t"
    by (simp_all add: u_def v_def)
  then show ?thesis unfolding d u_def[symmetric] by linarith
qed

lemma date_parse_iso:
  assumes y: "civil_from_days (ms div 86400000) = (y, m, d)" "0 \<le> y" "y \<le> 9999"
  shows "date_parse (to_iso_string ms) = Some ms"
proof -
  define t where "t = ms mod 86400000"
  have t: "0 \<le> t" "t < 86400000" by (simp_all add: t_def)
  have r: "days_from_civil y m d = ms div 86400000" "1 \<le> m" "m \<le> 12" "1 \<le> d" "d \<le> 31"
    using civil_roundtrip[OF y(1)] by auto
  have h: "0 \<le> t div 3600000" "t div 3600000 \<le> 23" using t by auto
  have lens: "length (iso_year y) = 4" "length (pad 2 m) = 2" "length (pad 2 d) = 2" "length (pad 2 (t div 3600000)) = 2"
    "length (pad 2 (t div 60000 mod 60)) = 2" "length (pad 2 (t div 1000 mod 60)) = 2" "length (pad 3 (t mod 1000)) = 3"
    using r h y t by (auto simp: iso_year_def)
  have iso: "to_iso_string ms = iso_year y @ ''-'' @ pad 2 m @ ''-'' @ pad 2 d @ ''T'' @ pad 2 (t div 3600000) @ '':'' @
     pad 2 (t div 60000 mod 60) @ '':'' @ pad 2 (t div 1000 mod 60) @ ''.'' @ pad 3 (t mod 1000) @ ''Z''"
    by (simp add: to_iso_string_def y t_def Let_def)
  note L = iso_layout[OF lens, folded iso]
  have "t div 3600000 * 3600000 + (t div 60000 mod 60) * 60000 + (t div 1000 mod 60) * 1000 + t mod 1000 = t"
    by (rule time_of_day_sum)
  moreover have "ms div 86400000 * 86400000 + t = ms" by (simp add: t_def)
  ultimately have sum: "ms div 86400000 * 86400000 + t div 3600000 * 3600000 + (t div 60000 mod 60) * 60000 + (t div 1000 mod 60) * 1000 + t mod 1000 = ms"
    by linarith
  have iy: "read_digits 0 (iso_year y) = Some (nat y)" using y by (simp add: iso_year_def)
  have ok: "1 \<le> nat m \<and> nat m \<le> 12 \<and> 1 \<le> nat d \<and> nat d \<le> 31 \<and> nat (t div 3600000) \<le> 23
      \<and> nat (t div 60000 mod 60) \<le> 59 \<and> nat (t div 1000 mod 60) \<le> 59"
    using r h pos_mod_bound[of 60 "t div 60000"] pos_mod_bound[of 60 "t div 1000"]
    by (auto simp: nat_le_iff Suc_le_eq)
  have "date_parse (to_iso_string ms) =
      Some (days_from_civil (int (nat y)) (int (nat m)) (int (nat d)) * 86400000
        + int (nat (t div 3600000)) * 3600000 + int (nat (t div 60000 mod 60)) * 60000
        + int (nat (t div 1000 mod 60)) * 1000 + int (nat (t mod 1000)))"
    by (simp only: date_parse_def L iy pad_read ok if_True option.case prod.case simp_thms)
  also have "\<dots> = Some (days_from_civil y m d * 86400000 + t div 3600000 * 3600000
        + (t div 60000 mod 60) * 60000 + (t div 1000 mod 60) * 1000 + t mod 1000)"
    using r h y by simp
  also have "\<dots> = Some ms" by (simp only: r(1) sum)
  finally show ?thesis .
qed

end
