(* ===== verification/Domain.thy ===== *)
theory Domain
  imports JsLib
begin

text \<open>
  The domain types of \<open>src/types/domain.ts\<close>: one record per interface, one datatype per union
  of string literals.  Identifiers are JavaScript numbers that hold integers, timestamps are ISO
  strings, \<open>T | null\<close> is \<open>T option\<close>.
\<close>

datatype role = Member | Moderator | Owner
datatype channel_kind = Text | Voice | Announcement
datatype friend_status = FriendPending | FriendAccepted
datatype server_invite_policy = ModeratorsOnly | Everyone
datatype join_request_status = JrPending | JrDeclined
datatype dm_invite_status = InvPending | InvAccepted | InvDeclined

record user =
  u_identity :: identity
  u_username :: string
  u_displayName :: string
  u_avatarUrl :: "string option"
  u_createdAt :: string
  u_isAdmin :: bool

record server =
  sv_id :: u64
  sv_name :: string
  sv_ownerIdentity :: identity
  sv_invitePolicy :: server_invite_policy
  sv_iconUrl :: "string option"
  sv_createdAt :: string
  sv_isDiscoverable :: bool
  sv_description :: "string option"
  sv_tags :: "string list"

record join_request =
  jr_serverId :: u64
  jr_userIdentity :: identity
  jr_createdAt :: string
  jr_declined :: bool

record join_request_with_user = join_request +
  jr_user :: "user option"

record discover_server =
  ds_id :: u64
  ds_name :: string
  ds_ownerIdentity :: identity
  ds_invitePolicy :: server_invite_policy
  ds_iconUrl :: "string option"
  ds_description :: "string option"
  ds_tags :: "string list"
  ds_memberCount :: int

record server_member =
  mb_serverId :: u64
  mb_userIdentity :: identity
  mb_role :: role
  mb_joinedAt :: string
  mb_timeoutUntil :: "string option"

record server_member_with_user = server_member +
  mb_user :: "user option"

record ban =
  bn_serverId :: u64
  bn_userIdentity :: identity
  bn_bannedBy :: identity
  bn_reason :: "string option"
  bn_bannedAt :: string

record invite =
  iv_token :: string
  iv_serverId :: u64
  iv_createdBy :: identity
  iv_expiresAt :: string
  iv_maxUses :: "int option"
  iv_useCount :: int
  iv_allowedUsernames :: "string list"

record dm_server_invite =
  di_id :: u64
  di_serverId :: u64
  di_inviteToken :: string
  di_senderIdentity :: identity
  di_recipientIdentity :: identity
  di_status :: dm_invite_status
  di_createdAt :: string

record channel =
  ch_id :: u64
  ch_serverId :: u64
  ch_name :: string
  ch_kind :: channel_kind
  ch_position :: int
  ch_section :: "string option"
  ch_moderatorOnly :: bool

record message =
  msg_id :: u64
  msg_channelId :: u64
  msg_senderIdentity :: identity
  msg_content :: string
  msg_sentAt :: string
  msg_editedAt :: "string option"
  msg_deleted :: bool

record pinned_message =
  pn_pinId :: u64
  pn_channelId :: u64
  pn_messageId :: u64
  pn_pinnedBy :: identity
  pn_pinnedAt :: string

record voice_participant =
  vp_channelId :: u64
  vp_userIdentity :: identity
  vp_joinedAt :: string
  vp_muted :: bool
  vp_deafened :: bool
  vp_sharingScreen :: bool
  vp_sharingCamera :: bool

record friend =
  fr_userA :: identity
  fr_userB :: identity
  fr_status :: friend_status
  fr_requestedBy :: identity
  fr_updatedAt :: string

record user_block =
  bl_blocker :: identity
  bl_blocked :: identity
  bl_createdAt :: string

record direct_message =
  dm_id :: u64
  dm_senderIdentity :: identity
  dm_recipientIdentity :: identity
  dm_content :: string
  dm_sentAt :: string
  dm_editedAt :: "string option"
  dm_deletedBySender :: bool
  dm_deletedByRecipient :: bool

record dm_voice_participant =
  dv_roomKey :: string
  dv_userIdentity :: identity
  dv_userA :: identity
  dv_userB :: identity
  dv_joinedAt :: string
  dv_muted :: bool
  dv_deafened :: bool
  dv_sharingScreen :: bool
  dv_sharingCamera :: bool

record presence_state =
  pr_identity :: identity
  pr_online :: bool
  pr_lastInteractionAt :: string
  pr_updatedAt :: string

record typing_state =
  ty_typingKey :: string
  ty_scopeKey :: string
  ty_userIdentity :: identity
  ty_updatedAt :: string

record read_state =
  rd_readKey :: string
  rd_scopeKey :: string
  rd_userIdentity :: identity
  rd_lastReadAt :: string
  rd_updatedAt :: string

end
