(* ===== verification/Mappers.thy ===== *)
theory Mappers
  imports Domain
begin

text \<open>
  \<open>src/lib/spacetimedb/mappers.ts\<close>: from the rows the SpacetimeDB SDK delivers to the domain
  types.  A row field has the type the generated bindings give it; where a coercion helper of the
  source looks at the run-time kind of a value, the field is a datatype with one constructor per
  kind the helper distinguishes.
\<close>

section \<open>Field values\<close>

text \<open>
  An SDK identity object is what its \<open>toHexString\<close> returns, an SDK timestamp what
  \<open>toDate().getTime()\<close> returns.
\<close>

datatype ident_val = IdentObject string | IdentText string
datatype num_val = NumValue int | BigIntValue int
datatype time_val = TimeText string | TimeStamp int | DateObject int
datatype 'e tag_val = TaggedObject 'e | TagText 'e

fun toIdentityString :: "ident_val \<Rightarrow> identity" where
  "toIdentityString (IdentObject h) = h"
| "toIdentityString (IdentText s) = s"

fun toU64Number :: "num_val \<Rightarrow> u64" where
  "toU64Number (NumValue n) = n"
| "toU64Number (BigIntValue b) = number_of_bigint b"

fun toIsoString :: "time_val \<Rightarrow> string" where
  "toIsoString (TimeText s) = s"
| "toIsoString (TimeStamp ms) = to_iso_string ms"
| "toIsoString (DateObject ms) = to_iso_string ms"

fun enumTag :: "'e tag_val \<Rightarrow> 'e" where
  "enumTag (TaggedObject e) = e"
| "enumTag (TagText e) = e"

definition normalizeUsername :: "string \<Rightarrow> string" where
  "normalizeUsername s = js_lower (js_trim s)"

definition normalizeIdentity :: "identity \<Rightarrow> string" where
  "normalizeIdentity i = js_lower (js_trim i)"

definition sameIdentity :: "identity \<Rightarrow> identity \<Rightarrow> bool" where
  "sameIdentity a b \<longleftrightarrow> normalizeIdentity a = normalizeIdentity b"

text \<open>\<open>rowString\<close> turns a missing field into the empty string, \<open>rowNullableString\<close> into null.\<close>

definition rowString :: "string option \<Rightarrow> string" where
  "rowString v = (case v of Some s \<Rightarrow> s | None \<Rightarrow> '''')"

definition rowNullableString :: "string option \<Rightarrow> string option" where
  "rowNullableString v = v"

definition dmReadScopeKey :: "identity \<Rightarrow> identity \<Rightarrow> string" where
  "dmReadScopeKey self other = (let a = normalizeIdentity self; b = normalizeIdentity other in
     if a \<le> b then ''dm:'' @ a @ '':'' @ b else ''dm:'' @ b @ '':'' @ a)"

section \<open>Rows and their mappers\<close>

record user_row =
  r_u_identity :: ident_val
  r_u_username :: "string option"
  r_u_displayName :: "string option"
  r_u_avatarUrl :: "string option"
  r_u_createdAt :: time_val
  r_u_isAdmin :: bool

definition mapUser :: "user_row \<Rightarrow> user" where [row_defs]:
  "mapUser row = \<lparr>u_identity = toIdentityString (r_u_identity row),
     u_username = rowString (r_u_username row), u_displayName = rowString (r_u_displayName row),
     u_avatarUrl = rowNullableString (r_u_avatarUrl row),
     u_createdAt = toIsoString (r_u_createdAt row), u_isAdmin = r_u_isAdmin row\<rparr>"

record server_row =
  r_sv_id :: num_val
  r_sv_name :: "string option"
  r_sv_ownerIdentity :: ident_val
  r_sv_invitePolicy :: "server_invite_policy tag_val option"
  r_sv_iconUrl :: "string option"
  r_sv_createdAt :: time_val
  r_sv_isDiscoverable :: bool
  r_sv_description :: "string option"
  r_sv_tags :: "string list option"

definition mapServer :: "server_row \<Rightarrow> server" where [row_defs]:
  "mapServer row = \<lparr>sv_id = toU64Number (r_sv_id row), sv_name = rowString (r_sv_name row),
     sv_ownerIdentity = toIdentityString (r_sv_ownerIdentity row),
     sv_invitePolicy = enumTag (case r_sv_invitePolicy row of Some p \<Rightarrow> p | None \<Rightarrow> TagText ModeratorsOnly),
     sv_iconUrl = rowNullableString (r_sv_iconUrl row),
     sv_createdAt = toIsoString (r_sv_createdAt row), sv_isDiscoverable = r_sv_isDiscoverable row,
     sv_description = rowNullableString (r_sv_description row),
     sv_tags = (case r_sv_tags row of Some ts \<Rightarrow> ts | None \<Rightarrow> [])\<rparr>"

record server_member_row =
  r_mb_serverId :: num_val
  r_mb_userIdentity :: ident_val
  r_mb_role :: "role tag_val"
  r_mb_joinedAt :: time_val
  r_mb_timeoutUntil :: "time_val option"

definition mapServerMember :: "server_member_row \<Rightarrow> server_member" where [row_defs]:
  "mapServerMember row = \<lparr>mb_serverId = toU64Number (r_mb_serverId row),
     mb_userIdentity = toIdentityString (r_mb_userIdentity row), mb_role = enumTag (r_mb_role row),
     mb_joinedAt = toIsoString (r_mb_joinedAt row),
     mb_timeoutUntil = map_option toIsoString (r_mb_timeoutUntil row)\<rparr>"

record join_request_row =
  r_jr_serverId :: num_val
  r_jr_userIdentity :: ident_val
  r_jr_createdAt :: time_val
  r_jr_declined :: bool

definition mapJoinRequest :: "join_request_row \<Rightarrow> join_request" where [row_defs]:
  "mapJoinRequest row = \<lparr>jr_serverId = toU64Number (r_jr_serverId row),
     jr_userIdentity = toIdentityString (r_jr_userIdentity row),
     jr_createdAt = toIsoString (r_jr_createdAt row), jr_declined = r_jr_declined row\<rparr>"

record invite_row =
  r_iv_token :: "string option"
  r_iv_serverId :: num_val
  r_iv_createdBy :: ident_val
  r_iv_expiresAt :: time_val
  r_iv_maxUses :: "int option"
  r_iv_useCount :: "int option"
  r_iv_allowedUsernames :: "string list option"

definition mapInvite :: "invite_row \<Rightarrow> invite" where [row_defs]:
  "mapInvite row = \<lparr>iv_token = rowString (r_iv_token row), iv_serverId = toU64Number (r_iv_serverId row),
     iv_createdBy = toIdentityString (r_iv_createdBy row), iv_expiresAt = toIsoString (r_iv_expiresAt row),
     iv_maxUses = r_iv_maxUses row,
     iv_useCount = (case r_iv_useCount row of Some n \<Rightarrow> n | None \<Rightarrow> 0),
     iv_allowedUsernames = (case r_iv_allowedUsernames row of Some us \<Rightarrow> us | None \<Rightarrow> [])\<rparr>"

text \<open>\<open>now\<close> is \<open>Date.now()\<close>.\<close>

definition isInviteActive :: "int \<Rightarrow> invite \<Rightarrow> bool" where
  "isInviteActive now i = (let
     expired = date_less (date_parse (iv_expiresAt i)) (Some now);
     exhausted = (case iv_maxUses i of None \<Rightarrow> False | Some m \<Rightarrow> iv_useCount i \<ge> m)
   in \<not> expired \<and> \<not> exhausted)"

record dm_server_invite_row =
  r_di_id :: num_val
  r_di_serverId :: num_val
  r_di_inviteToken :: "string option"
  r_di_senderIdentity :: ident_val
  r_di_recipientIdentity :: ident_val
  r_di_status :: "dm_invite_status tag_val"
  r_di_createdAt :: time_val

definition mapDmServerInvite :: "dm_server_invite_row \<Rightarrow> dm_server_invite" where [row_defs]:
  "mapDmServerInvite row = \<lparr>di_id = toU64Number (r_di_id row), di_serverId = toU64Number (r_di_serverId row),
     di_inviteToken = rowString (r_di_inviteToken row),
     di_senderIdentity = toIdentityString (r_di_senderIdentity row),
     di_recipientIdentity = toIdentityString (r_di_recipientIdentity row),
     di_status = enumTag (r_di_status row), di_createdAt = toIsoString (r_di_createdAt row)\<rparr>"

record channel_row =
  r_ch_id :: num_val
  r_ch_serverId :: num_val
  r_ch_name :: "string option"
  r_ch_kind :: "channel_kind tag_val"
  r_ch_position :: int
  r_ch_section :: "string option"
  r_ch_moderatorOnly :: bool

definition mapChannel :: "channel_row \<Rightarrow> channel" where [row_defs]:
  "mapChannel row = \<lparr>ch_id = toU64Number (r_ch_id row), ch_serverId = toU64Number (r_ch_serverId row),
     ch_name = rowString (r_ch_name row), ch_kind = enumTag (r_ch_kind row),
     ch_position = r_ch_position row, ch_section = rowNullableString (r_ch_section row),
     ch_moderatorOnly = r_ch_moderatorOnly row\<rparr>"

record message_row =
  r_msg_id :: num_val
  r_msg_channelId :: num_val
  r_msg_senderIdentity :: ident_val
  r_msg_content :: "string option"
  r_msg_sentAt :: time_val
  r_msg_editedAt :: "time_val option"
  r_msg_deleted :: bool

definition mapMessage :: "message_row \<Rightarrow> message" where [row_defs]:
  "mapMessage row = \<lparr>msg_id = toU64Number (r_msg_id row), msg_channelId = toU64Number (r_msg_channelId row),
     msg_senderIdentity = toIdentityString (r_msg_senderIdentity row),
     msg_content = rowString (r_msg_content row), msg_sentAt = toIsoString (r_msg_sentAt row),
     msg_editedAt = map_option toIsoString (r_msg_editedAt row), msg_deleted = r_msg_deleted row\<rparr>"

record pinned_message_row =
  r_pn_pinId :: num_val
  r_pn_channelId :: num_val
  r_pn_messageId :: num_val
  r_pn_pinnedBy :: ident_val
  r_pn_pinnedAt :: time_val

definition mapPinnedMessage :: "pinned_message_row \<Rightarrow> pinned_message" where [row_defs]:
  "mapPinnedMessage row = \<lparr>pn_pinId = toU64Number (r_pn_pinId row),
     pn_channelId = toU64Number (r_pn_channelId row), pn_messageId = toU64Number (r_pn_messageId row),
     pn_pinnedBy = toIdentityString (r_pn_pinnedBy row), pn_pinnedAt = toIsoString (r_pn_pinnedAt row)\<rparr>"

record voice_participant_row =
  r_vp_channelId :: num_val
  r_vp_userIdentity :: ident_val
  r_vp_joinedAt :: time_val
  r_vp_muted :: bool
  r_vp_deafened :: bool
  r_vp_sharingScreen :: bool
  r_vp_sharingCamera :: bool

definition mapVoiceParticipant :: "voice_participant_row \<Rightarrow> voice_participant" where [row_defs]:
  "mapVoiceParticipant row = \<lparr>vp_channelId = toU64Number (r_vp_channelId row),
     vp_userIdentity = toIdentityString (r_vp_userIdentity row),
     vp_joinedAt = toIsoString (r_vp_joinedAt row), vp_muted = r_vp_muted row,
     vp_deafened = r_vp_deafened row, vp_sharingScreen = r_vp_sharingScreen row,
     vp_sharingCamera = r_vp_sharingCamera row\<rparr>"

record friend_row =
  r_fr_userA :: ident_val
  r_fr_userB :: ident_val
  r_fr_status :: "friend_status tag_val"
  r_fr_requestedBy :: ident_val
  r_fr_updatedAt :: time_val

definition mapFriend :: "friend_row \<Rightarrow> friend" where [row_defs]:
  "mapFriend row = \<lparr>fr_userA = toIdentityString (r_fr_userA row), fr_userB = toIdentityString (r_fr_userB row),
     fr_status = enumTag (r_fr_status row), fr_requestedBy = toIdentityString (r_fr_requestedBy row),
     fr_updatedAt = toIsoString (r_fr_updatedAt row)\<rparr>"

record block_row =
  r_bl_blocker :: ident_val
  r_bl_blocked :: ident_val
  r_bl_createdAt :: time_val

definition mapBlock :: "block_row \<Rightarrow> user_block" where [row_defs]:
  "mapBlock row = \<lparr>bl_blocker = toIdentityString (r_bl_blocker row),
     bl_blocked = toIdentityString (r_bl_blocked row), bl_createdAt = toIsoString (r_bl_createdAt row)\<rparr>"

record ban_row =
  r_bn_serverId :: num_val
  r_bn_userIdentity :: ident_val
  r_bn_bannedBy :: ident_val
  r_bn_reason :: "string option"
  r_bn_bannedAt :: time_val

definition mapBan :: "ban_row \<Rightarrow> ban" where [row_defs]:
  "mapBan row = \<lparr>bn_serverId = toU64Number (r_bn_serverId row),
     bn_userIdentity = toIdentityString (r_bn_userIdentity row),
     bn_bannedBy = toIdentityString (r_bn_bannedBy row),
     bn_reason = (let s = rowString (r_bn_reason row) in if s = '''' then None else Some s),
     bn_bannedAt = toIsoString (r_bn_bannedAt row)\<rparr>"

record direct_message_row =
  r_dm_id :: num_val
  r_dm_senderIdentity :: ident_val
  r_dm_recipientIdentity :: ident_val
  r_dm_content :: "string option"
  r_dm_sentAt :: time_val
  r_dm_editedAt :: "time_val option"
  r_dm_deletedBySender :: bool
  r_dm_deletedByRecipient :: bool

definition mapDirectMessage :: "direct_message_row \<Rightarrow> direct_message" where [row_defs]:
  "mapDirectMessage row = \<lparr>dm_id = toU64Number (r_dm_id row),
     dm_senderIdentity = toIdentityString (r_dm_senderIdentity row),
     dm_recipientIdentity = toIdentityString (r_dm_recipientIdentity row),
     dm_content = rowString (r_dm_content row), dm_sentAt = toIsoString (r_dm_sentAt row),
     dm_editedAt = map_option toIsoString (r_dm_editedAt row),
     dm_deletedBySender = r_dm_deletedBySender row, dm_deletedByRecipient = r_dm_deletedByRecipient row\<rparr>"

record dm_voice_participant_row =
  r_dv_roomKey :: "string option"
  r_dv_userIdentity :: ident_val
  r_dv_userA :: ident_val
  r_dv_userB :: ident_val
  r_dv_joinedAt :: time_val
  r_dv_muted :: bool
  r_dv_deafened :: bool
  r_dv_sharingScreen :: bool
  r_dv_sharingCamera :: bool

definition mapDmVoiceParticipant :: "dm_voice_participant_row \<Rightarrow> dm_voice_participant" where [row_defs]:
  "mapDmVoiceParticipant row = \<lparr>dv_roomKey = rowString (r_dv_roomKey row),
     dv_userIdentity = toIdentityString (r_dv_userIdentity row),
     dv_userA = toIdentityString (r_dv_userA row), dv_userB = toIdentityString (r_dv_userB row),
     dv_joinedAt = toIsoString (r_dv_joinedAt row), dv_muted = r_dv_muted row,
     dv_deafened = r_dv_deafened row, dv_sharingScreen = r_dv_sharingScreen row,
     dv_sharingCamera = r_dv_sharingCamera row\<rparr>"

record presence_state_row =
  r_pr_identity :: ident_val
  r_pr_online :: bool
  r_pr_lastInteractionAt :: time_val
  r_pr_updatedAt :: time_val

definition mapPresenceState :: "presence_state_row \<Rightarrow> presence_state" where [row_defs]:
  "mapPresenceState row = \<lparr>pr_identity = toIdentityString (r_pr_identity row), pr_online = r_pr_online row,
     pr_lastInteractionAt = toIsoString (r_pr_lastInteractionAt row),
     pr_updatedAt = toIsoString (r_pr_updatedAt row)\<rparr>"

record typing_state_row =
  r_ty_typingKey :: "string option"
  r_ty_scopeKey :: "string option"
  r_ty_userIdentity :: ident_val
  r_ty_updatedAt :: time_val

definition mapTypingState :: "typing_state_row \<Rightarrow> typing_state" where [row_defs]:
  "mapTypingState row = \<lparr>ty_typingKey = rowString (r_ty_typingKey row),
     ty_scopeKey = rowString (r_ty_scopeKey row),
     ty_userIdentity = toIdentityString (r_ty_userIdentity row),
     ty_updatedAt = toIsoString (r_ty_updatedAt row)\<rparr>"

record read_state_row =
  r_rd_readKey :: "string option"
  r_rd_scopeKey :: "string option"
  r_rd_userIdentity :: ident_val
  r_rd_lastReadAt :: time_val
  r_rd_updatedAt :: time_val

definition mapReadState :: "read_state_row \<Rightarrow> read_state" where [row_defs]:
  "mapReadState row = \<lparr>rd_readKey = rowString (r_rd_readKey row),
     rd_scopeKey = rowString (r_rd_scopeKey row),
     rd_userIdentity = toIdentityString (r_rd_userIdentity row),
     rd_lastReadAt = toIsoString (r_rd_lastReadAt row), rd_updatedAt = toIsoString (r_rd_updatedAt row)\<rparr>"

section \<open>Identities and scope keys\<close>

lemma normalizeIdentity_idem [simp]: "normalizeIdentity (normalizeIdentity i) = normalizeIdentity i"
  by (simp add: normalizeIdentity_def js_trim_lower)

lemma sameIdentity_refl [simp, intro]: "sameIdentity a a"
  by (simp add: sameIdentity_def)

lemma sameIdentity_sym: "sameIdentity a b \<Longrightarrow> sameIdentity b a"
  by (simp add: sameIdentity_def)

lemma sameIdentity_trans: "sameIdentity a b \<Longrightarrow> sameIdentity b c \<Longrightarrow> sameIdentity a c"
  by (simp add: sameIdentity_def)

lemma sameIdentity_normalize [simp]:
  "sameIdentity (normalizeIdentity a) b = sameIdentity a b"
  "sameIdentity a (normalizeIdentity b) = sameIdentity a b"
  by (simp_all add: sameIdentity_def)

text \<open>Identities are hexadecimal: no colon, so that a key can be taken apart again.\<close>

definition colon_free :: "identity \<Rightarrow> bool" where
  "colon_free i \<longleftrightarrow> CHR '':'' \<notin> set (normalizeIdentity i)"

lemma append_sep_cancel:
  "c \<notin> set a \<Longrightarrow> c \<notin> set a' \<Longrightarrow> a @ c # b = a' @ c # b' \<longleftrightarrow> a = a' \<and> b = b'"
proof (induction a arbitrary: a')
  case Nil
  then show ?case by (cases a') auto
next
  case (Cons x a)
  then show ?case by (cases a') auto
qed

lemma dmReadScopeKey_sym: "dmReadScopeKey a b = dmReadScopeKey b a"
  by (auto simp: dmReadScopeKey_def Let_def)

lemma dmReadScopeKey_eq_iff:
  assumes "colon_free a" "colon_free b" "colon_free c" "colon_free d"
  shows "dmReadScopeKey a b = dmReadScopeKey c d \<longleftrightarrow>
    (sameIdentity a c \<and> sameIdentity b d) \<or> (sameIdentity a d \<and> sameIdentity b c)"
  using assms unfolding dmReadScopeKey_def colon_free_def sameIdentity_def Let_def
  by (auto simp: append_sep_cancel)

end
