(* ===== verification/MessageStores.thy ===== *)
theory MessageStores
  imports Mappers
begin

text \<open>
  \<open>src/stores/messagesStore.ts\<close> and \<open>src/stores/dmStore.ts\<close>: per channel (per partner) the
  merged history, the pages fetched below the subscription window, and whether the server has
  more.  \<open>lc\<close> is \<open>localeCompare\<close>.
\<close>

section \<open>Merging a backfilled page with the live window\<close>

definition merge_by_id :: "('m \<Rightarrow> int) \<Rightarrow> ('m \<Rightarrow> string) \<Rightarrow> (string \<Rightarrow> string \<Rightarrow> int)
    \<Rightarrow> 'm list option \<Rightarrow> 'm list \<Rightarrow> 'm list" where
  "merge_by_id idf sent lc older live = (case older of None \<Rightarrow> live | Some [] \<Rightarrow> live
     | Some os \<Rightarrow> (let byId = foldl (\<lambda>m x. rec_set (idf x) x m) [] os;
                      byId = foldl (\<lambda>m x. rec_set (idf x) x m) byId live
                  in js_sort (\<lambda>a b. lc (sent a) (sent b)) (map snd byId)))"

text \<open>What a list of rows says about an id: its last row with that id.\<close>

definition by_id :: "('m \<Rightarrow> int) \<Rightarrow> 'm list \<Rightarrow> int \<Rightarrow> 'm option" where
  "by_id idf xs i = map_of (rev (map (\<lambda>x. (idf x, x)) xs)) i"

lemma by_id_Nil [simp]: "by_id idf [] = Map.empty"
  by (simp add: by_id_def fun_eq_iff)

lemma by_id_SomeD: "by_id idf xs i = Some x \<Longrightarrow> x \<in> set xs \<and> idf x = i"
  by (auto simp: by_id_def dest!: map_of_SomeD)

lemma by_id_None_iff: "by_id idf xs i = None \<longleftrightarrow> i \<notin> idf ` set xs"
  by (force simp: by_id_def map_of_eq_None_iff)

lemma dom_by_id: "dom (by_id idf xs) = idf ` set xs"
  unfolding dom_def by_id_None_iff by blast

lemma by_id_distinct:
  "distinct (map idf xs) \<Longrightarrow> by_id idf xs i = Some x \<longleftrightarrow> x \<in> set xs \<and> idf x = i"
proof -
  assume d: "distinct (map idf xs)"
  have "distinct (map fst (rev (map (\<lambda>x. (idf x, x)) xs)))"
    using d by (simp add: rev_map comp_def flip: rev_map)
  then show ?thesis by (auto simp: by_id_def map_of_eq_Some_iff)
qed

definition keyed :: "('m \<Rightarrow> int) \<Rightarrow> (int, 'm) rec \<Rightarrow> bool" where
  "keyed idf r \<longleftrightarrow> rec_ok r \<and> (\<forall>(k, x) \<in> set r. idf x = k)"

lemma keyed_set: "keyed idf r \<Longrightarrow> keyed idf (rec_set (idf x) x r)"
proof -
  assume k: "keyed idf r"
  have "idf v = i" if "(i, v) \<in> set (rec_set (idf x) x r)" for i v
  proof -
    from that k have "map_of (rec_set (idf x) x r) i = Some v"
      by (simp add: keyed_def flip: rec_get_iff)
    then show ?thesis using k by (auto simp: keyed_def rec_get_iff split: if_splits)
  qed
  with k show ?thesis by (auto simp: keyed_def)
qed

lemma keyed_foldl: "keyed idf r \<Longrightarrow> keyed idf (foldl (\<lambda>m x. rec_set (idf x) x m) r xs)"
  by (induction xs arbitrary: r) (auto simp: keyed_set)

lemma keyed_values: "keyed idf r \<Longrightarrow> map idf (map snd r) = map fst r"
  by (auto simp: keyed_def)

lemma keyed_distinct: "keyed idf r \<Longrightarrow> distinct (map idf (map snd r))"
  unfolding keyed_values by (simp add: keyed_def rec_ok_def)

lemma map_of_foldl_set:
  "map_of (foldl (\<lambda>m x. rec_set (idf x) x m) r xs) = map_of r ++ by_id idf xs"
proof (induction xs arbitrary: r)
  case Nil
  then show ?case by simp
next
  case (Cons x xs)
  then show ?case
    by (auto simp: by_id_def map_add_def fun_eq_iff split: option.splits)
qed

lemma by_id_values: "keyed idf r \<Longrightarrow> by_id idf (map snd r) = map_of r"
proof (rule ext)
  fix i assume k: "keyed idf r"
  have "by_id idf (map snd r) i = Some x \<longleftrightarrow> map_of r i = Some x" for x
  proof -
    have "x \<in> set (map snd r) \<and> idf x = i \<longleftrightarrow> (i, x) \<in> set r"
      using k by (force simp: keyed_def)
    then show ?thesis
      using k by (simp only: by_id_distinct[OF keyed_distinct[OF k]] rec_get_iff keyed_def)
  qed
  then show "by_id idf (map snd r) i = map_of r i" by (metis option.exhaust)
qed

lemma by_id_perm:
  assumes "mset xs = mset ys" "distinct (map idf xs)"
  shows "by_id idf xs = by_id idf ys"
proof (rule ext)
  fix i
  have d: "distinct (map idf ys)" using assms
    by (metis mset_eq_imp_distinct_iff mset_map)
  have s: "set xs = set ys" using assms(1) by (metis set_mset_mset)
  have "by_id idf xs i = Some x \<longleftrightarrow> by_id idf ys i = Some x" for x
    by (simp add: by_id_distinct[OF d] by_id_distinct[OF assms(2)] s)
  then show "by_id idf xs i = by_id idf ys i" by (metis option.exhaust)
qed

text \<open>
  The specification of the merge: the result is one row per id, for each id the live row if there
  is one and the backfilled row otherwise, in the order of the time stamps.
\<close>

lemma merge_by_id_rows:
  assumes "os \<noteq> []"
  shows "by_id idf (merge_by_id idf sent lc (Some os) live) = by_id idf os ++ by_id idf live"
    and "distinct (map idf (merge_by_id idf sent lc (Some os) live))"
proof -
  define byId where "byId = foldl (\<lambda>m x. rec_set (idf x) x m)
    (foldl (\<lambda>m x. rec_set (idf x) x m) [] os) live"
  have k: "keyed idf byId"
    unfolding byId_def by (intro keyed_foldl) (simp add: keyed_def)
  have m: "merge_by_id idf sent lc (Some os) live = js_sort (\<lambda>a b. lc (sent a) (sent b)) (map snd byId)"
    using assms by (cases os) (auto simp: merge_by_id_def byId_def)
  have d: "distinct (map idf (map snd byId))"
    using k by (rule keyed_distinct)
  then show "distinct (map idf (merge_by_id idf sent lc (Some os) live))"
    by (simp only: m distinct_map_js_sort)
  have "by_id idf (merge_by_id idf sent lc (Some os) live) = by_id idf (map snd byId)"
    unfolding m by (rule by_id_perm) (use d in \<open>simp_all only: mset_js_sort distinct_map_js_sort\<close>)
  also have "\<dots> = by_id idf os ++ by_id idf live"
    by (simp add: by_id_values[OF k]) (simp add: byId_def map_of_foldl_set)
  finally show "by_id idf (merge_by_id idf sent lc (Some os) live) = by_id idf os ++ by_id idf live" .
qed

lemma merge_by_id_trivial [simp]:
  "merge_by_id idf sent lc None live = live" "merge_by_id idf sent lc (Some []) live = live"
  by (simp_all add: merge_by_id_def)

lemma merge_by_id_ids:
  "idf ` set (merge_by_id idf sent lc older live)
     = idf ` set (case older of None \<Rightarrow> [] | Some os \<Rightarrow> os) \<union> idf ` set live"
proof (cases "older = None \<or> older = Some []")
  case False
  then obtain os where "older = Some os" "os \<noteq> []" by (cases older) auto
  then show ?thesis
    using arg_cong[OF merge_by_id_rows(1)[of os idf sent lc live], of dom]
    by (simp add: dom_by_id dom_map_add Un_commute)
qed auto

lemma merge_by_id_by_id:
  "by_id idf (merge_by_id idf sent lc older live)
     = by_id idf (case older of None \<Rightarrow> [] | Some os \<Rightarrow> os) ++ by_id idf live"
  by (cases "older = None \<or> older = Some []")
    (auto simp: merge_by_id_rows(1))

lemma merge_by_id_distinct:
  "distinct (map idf live) \<Longrightarrow> distinct (map idf (merge_by_id idf sent lc older live))"
proof (cases "older = None \<or> older = Some []")
  case False
  then obtain os where "older = Some os" "os \<noteq> []" by (cases older) auto
  then show ?thesis using merge_by_id_rows(2) by metis
qed auto

lemma merge_by_id_sorted:
  assumes "consistent_comparator lc" and "sorted_wrt (\<lambda>a b. lc (sent a) (sent b) \<le> 0) live"
  shows "sorted_wrt (\<lambda>a b. lc (sent a) (sent b) \<le> 0) (merge_by_id idf sent lc older live)"
proof -
  have cc: "consistent_comparator (\<lambda>a b. lc (sent a) (sent b))"
    using assms(1) by (auto simp: consistent_comparator_def)
  show ?thesis
    using assms(2) consistent_comparator.ascending_js_sort[OF cc]
    by (auto simp: merge_by_id_def Let_def split: option.splits list.splits)
qed

section \<open>What a store with a live window and a backfill promises\<close>

text \<open>
  Both message stores offer these operations; what follows from the laws about the ids of the rows
  on view is proved once.
\<close>

datatype ('k, 'm) history_op = SetLive 'k "'m list" | Prepend 'k "'m list" bool

fun history_step :: "('k \<Rightarrow> 'm list \<Rightarrow> 's \<Rightarrow> 's) \<Rightarrow> ('k \<Rightarrow> 'm list \<Rightarrow> bool \<Rightarrow> 's \<Rightarrow> 's)
    \<Rightarrow> 's \<Rightarrow> ('k, 'm) history_op \<Rightarrow> 's" where
  "history_step set_live prepend s (SetLive k ms) = set_live k ms s"
| "history_step set_live prepend s (Prepend k os x) = prepend k os x s"

definition history_run :: "('k \<Rightarrow> 'm list \<Rightarrow> 's \<Rightarrow> 's) \<Rightarrow> ('k \<Rightarrow> 'm list \<Rightarrow> bool \<Rightarrow> 's \<Rightarrow> 's)
    \<Rightarrow> ('k, 'm) history_op list \<Rightarrow> 's \<Rightarrow> 's" where
  "history_run set_live prepend ops s = foldl (history_step set_live prepend) s ops"

locale history_store =
  fixes view :: "'s \<Rightarrow> 'k \<Rightarrow> 'm list" and older :: "'s \<Rightarrow> 'k \<Rightarrow> 'm list" and rid :: "'m \<Rightarrow> int"
    and set_live :: "'k \<Rightarrow> 'm list \<Rightarrow> 's \<Rightarrow> 's" and prepend :: "'k \<Rightarrow> 'm list \<Rightarrow> bool \<Rightarrow> 's \<Rightarrow> 's"
  assumes set_live_ids: "rid ` set (view (set_live k ms s) k') =
      (if k' = k then rid ` set (older s k) \<union> rid ` set ms else rid ` set (view s k'))"
    and set_live_older: "older (set_live k ms s) = older s"
    and prepend_ids: "rid ` set (view (prepend k os x s) k') =
      (if k' = k then rid ` set (older s k) \<union> rid ` set os \<union> rid ` set (view s k)
       else rid ` set (view s k'))"
    and prepend_older: "rid ` set (older (prepend k os x s) k') =
      (if k' = k then rid ` set (older s k) \<union> rid ` set os else rid ` set (older s k'))"
begin

abbreviation covered :: "'s \<Rightarrow> bool" where
  "covered s \<equiv> \<forall>k. rid ` set (older s k) \<subseteq> rid ` set (view s k)"

lemma step_covered: "covered s \<Longrightarrow> covered (history_step set_live prepend s h)"
  by (cases h) (auto simp: set_live_ids set_live_older prepend_ids prepend_older)

lemma step_older: "rid ` set (older s k) \<subseteq> rid ` set (older (history_step set_live prepend s h) k)"
  by (cases h) (auto simp: set_live_older prepend_older)

lemma run_covered: "covered s \<Longrightarrow> covered (history_run set_live prepend ops s)"
  unfolding history_run_def
proof (induction ops arbitrary: s)
  case (Cons h ops)
  then show ?case by (metis foldl_Cons step_covered)
qed simp

lemma run_older: "rid ` set (older s k) \<subseteq> rid ` set (older (history_run set_live prepend ops s) k)"
  unfolding history_run_def
proof (induction ops arbitrary: s)
  case (Cons h ops)
  then show ?case using step_older[of s k h] by (metis foldl_Cons subset_trans)
qed simp

lemma page_survives:
  assumes "covered s" and "i \<in> rid ` set page"
  shows "i \<in> rid ` set (view (history_run set_live prepend ops (prepend k page x s)) k)"
proof -
  have "covered (prepend k page x s)"
    using step_covered[OF assms(1), of "Prepend k page x"] by simp
  then have "covered (history_run set_live prepend ops (prepend k page x s))"
    by (rule run_covered)
  moreover have "i \<in> rid ` set (older (prepend k page x s) k)"
    using assms(2) by (simp add: prepend_older)
  ultimately show ?thesis by (meson run_older subsetD)
qed

lemma window_gap:
  assumes "i \<notin> rid ` set (older s k)" and "i \<notin> rid ` set ms"
  shows "i \<notin> rid ` set (view (set_live k ms s) k)"
  using assms by (simp add: set_live_ids)

end

section \<open>The channel message store\<close>

record messages_state =
  messagesByChannel :: "(u64, message list) rec"
  olderByChannel :: "(u64, message list) rec"
  historyExhausted :: "(u64, bool) rec"

definition messages_init :: messages_state where
  "messages_init = \<lparr>messagesByChannel = [], olderByChannel = [], historyExhausted = []\<rparr>"

definition mergeHistory :: "(string \<Rightarrow> string \<Rightarrow> int) \<Rightarrow> message list option \<Rightarrow> message list \<Rightarrow> message list" where
  "mergeHistory lc older live = merge_by_id msg_id msg_sentAt lc older live"

definition areMessagesEqual :: "message list \<Rightarrow> message list \<Rightarrow> bool" where
  "areMessagesEqual = rows_equal (\<lambda>l r. msg_id l = msg_id r \<and> msg_channelId l = msg_channelId r
     \<and> msg_senderIdentity l = msg_senderIdentity r \<and> msg_content l = msg_content r
     \<and> msg_sentAt l = msg_sentAt r \<and> msg_editedAt l = msg_editedAt r \<and> msg_deleted l = msg_deleted r)"

definition setChannelMessages :: "(string \<Rightarrow> string \<Rightarrow> int) \<Rightarrow> u64 \<Rightarrow> message list
    \<Rightarrow> messages_state \<Rightarrow> messages_state" where
  "setChannelMessages lc c ms st = (let merged = mergeHistory lc (map_of (olderByChannel st) c) ms;
       current = rec_or (messagesByChannel st) c []
     in if areMessagesEqual current merged then st
        else st\<lparr>messagesByChannel := rec_set c merged (messagesByChannel st)\<rparr>)"

definition prependOlderMessages :: "(string \<Rightarrow> string \<Rightarrow> int) \<Rightarrow> u64 \<Rightarrow> message list \<Rightarrow> bool
    \<Rightarrow> messages_state \<Rightarrow> messages_state" where
  "prependOlderMessages lc c older exhausted st =
     (let nextOlder = mergeHistory lc (map_of (olderByChannel st) c) older in
      \<lparr>messagesByChannel = rec_set c (mergeHistory lc (Some nextOlder) (rec_or (messagesByChannel st) c []))
          (messagesByChannel st),
       olderByChannel = rec_set c nextOlder (olderByChannel st),
       historyExhausted = rec_set c exhausted (historyExhausted st)\<rparr>)"

definition appendMessage :: "message \<Rightarrow> messages_state \<Rightarrow> messages_state" where
  "appendMessage m st = (let c = msg_channelId m; prev = rec_or (messagesByChannel st) c [] in
     case find_index (\<lambda>r. msg_id r = msg_id m) prev of
       Some i \<Rightarrow> if areMessagesEqual [prev ! i] [m] then st
                 else st\<lparr>messagesByChannel := rec_set c (prev[i := m]) (messagesByChannel st)\<rparr>
     | None \<Rightarrow> st\<lparr>messagesByChannel := rec_set c (prev @ [m]) (messagesByChannel st)\<rparr>)"

section \<open>The direct message store\<close>

record dm_state =
  conversations :: "(identity, direct_message list) rec"
  olderByConversation :: "(identity, direct_message list) rec"
  dmHistoryExhausted :: "(identity, bool) rec"

definition dm_init :: dm_state where
  "dm_init = \<lparr>conversations = [], olderByConversation = [], dmHistoryExhausted = []\<rparr>"

definition mergeDmHistory :: "(string \<Rightarrow> string \<Rightarrow> int) \<Rightarrow> direct_message list option
    \<Rightarrow> direct_message list \<Rightarrow> direct_message list" where
  "mergeDmHistory lc older live = merge_by_id dm_id dm_sentAt lc older live"

text \<open>Unlike the comparison of channel messages, this one does not look at \<open>editedAt\<close>.\<close>

definition dm_same_fields :: "direct_message \<Rightarrow> direct_message \<Rightarrow> bool" where
  "dm_same_fields l r \<longleftrightarrow> dm_senderIdentity l = dm_senderIdentity r
     \<and> dm_recipientIdentity l = dm_recipientIdentity r \<and> dm_content l = dm_content r
     \<and> dm_sentAt l = dm_sentAt r \<and> dm_deletedBySender l = dm_deletedBySender r
     \<and> dm_deletedByRecipient l = dm_deletedByRecipient r"

definition areDirectMessagesEqual :: "direct_message list \<Rightarrow> direct_message list \<Rightarrow> bool" where
  "areDirectMessagesEqual = rows_equal (\<lambda>l r. dm_id l = dm_id r \<and> dm_same_fields l r)"

definition setConversation :: "(string \<Rightarrow> string \<Rightarrow> int) \<Rightarrow> identity \<Rightarrow> direct_message list
    \<Rightarrow> dm_state \<Rightarrow> dm_state" where
  "setConversation lc p ms st = (let merged = mergeDmHistory lc (map_of (olderByConversation st) p) ms;
       current = rec_or (conversations st) p []
     in if areDirectMessagesEqual current merged then st
        else st\<lparr>conversations := rec_set p merged (conversations st)\<rparr>)"

definition prependOlderDirectMessages :: "(string \<Rightarrow> string \<Rightarrow> int) \<Rightarrow> identity \<Rightarrow> direct_message list
    \<Rightarrow> bool \<Rightarrow> dm_state \<Rightarrow> dm_state" where
  "prependOlderDirectMessages lc p older exhausted st =
     (let nextOlder = mergeDmHistory lc (map_of (olderByConversation st) p) older in
      \<lparr>conversations = rec_set p (mergeDmHistory lc (Some nextOlder) (rec_or (conversations st) p []))
          (conversations st),
       olderByConversation = rec_set p nextOlder (olderByConversation st),
       dmHistoryExhausted = rec_set p exhausted (dmHistoryExhausted st)\<rparr>)"

definition appendDirectMessage :: "identity \<Rightarrow> direct_message \<Rightarrow> dm_state \<Rightarrow> dm_state" where
  "appendDirectMessage p m st = (let prev = rec_or (conversations st) p [] in
     case find_index (\<lambda>r. dm_id r = dm_id m) prev of
       Some i \<Rightarrow> if dm_same_fields (prev ! i) m then st
                 else st\<lparr>conversations := rec_set p (prev[i := m]) (conversations st)\<rparr>
     | None \<Rightarrow> st\<lparr>conversations := rec_set p (prev @ [m]) (conversations st)\<rparr>)"

section \<open>Facts about the channel message store\<close>

lemma areMessagesEqual_iff [simp]: "areMessagesEqual a b \<longleftrightarrow> a = b"
proof -
  have "(\<lambda>l r. msg_id l = msg_id r \<and> msg_channelId l = msg_channelId r
     \<and> msg_senderIdentity l = msg_senderIdentity r \<and> msg_content l = msg_content r
     \<and> msg_sentAt l = msg_sentAt r \<and> msg_editedAt l = msg_editedAt r \<and> msg_deleted l = msg_deleted r)
     = (\<lambda>l r :: message. l = r)"
    by (intro ext) (auto intro: message.equality)
  then show ?thesis by (simp add: areMessagesEqual_def)
qed

definition channel_view :: "messages_state \<Rightarrow> u64 \<Rightarrow> message list" where
  "channel_view st c = rec_or (messagesByChannel st) c []"

definition channel_older :: "messages_state \<Rightarrow> u64 \<Rightarrow> message list" where
  "channel_older st c = rec_or (olderByChannel st) c []"

lemma older_or: "(case map_of r c of None \<Rightarrow> [] | Some os \<Rightarrow> os) = rec_or r c []"
  by (simp add: rec_or_def)

lemma channel_view_set:
  "channel_view (setChannelMessages lc c ms st) c' =
     (if c' = c then mergeHistory lc (map_of (olderByChannel st) c) ms else channel_view st c')"
  by (auto simp: setChannelMessages_def channel_view_def Let_def)

lemma channel_older_set [simp]: "channel_older (setChannelMessages lc c ms st) = channel_older st"
  by (auto simp: setChannelMessages_def channel_older_def Let_def fun_eq_iff)

lemma olderByChannel_set [simp]: "olderByChannel (setChannelMessages lc c ms st) = olderByChannel st"
  by (simp add: setChannelMessages_def Let_def)

lemma channel_view_prepend:
  "channel_view (prependOlderMessages lc c os x st) c' =
     (if c' = c then mergeHistory lc (Some (mergeHistory lc (map_of (olderByChannel st) c) os)) (channel_view st c)
      else channel_view st c')"
  by (auto simp: prependOlderMessages_def channel_view_def Let_def)

lemma channel_older_prepend:
  "channel_older (prependOlderMessages lc c os x st) c' =
     (if c' = c then mergeHistory lc (map_of (olderByChannel st) c) os else channel_older st c')"
  by (auto simp: prependOlderMessages_def channel_older_def Let_def)

lemma mergeHistory_ids:
  "msg_id ` set (mergeHistory lc (map_of r c) live) = msg_id ` set (rec_or r c []) \<union> msg_id ` set live"
  "msg_id ` set (mergeHistory lc (Some os) live) = msg_id ` set os \<union> msg_id ` set live"
  by (simp_all add: mergeHistory_def merge_by_id_ids older_or)

interpretation channel_history: history_store channel_view channel_older msg_id
    "setChannelMessages lc" "prependOlderMessages lc" for lc
  by unfold_locales
    (auto simp: channel_view_set channel_view_prepend channel_older_prepend mergeHistory_ids
      simp flip: channel_older_def)

section \<open>Facts about the direct message store\<close>

definition dm_view :: "dm_state \<Rightarrow> identity \<Rightarrow> direct_message list" where
  "dm_view st p = rec_or (conversations st) p []"

definition dm_older :: "dm_state \<Rightarrow> identity \<Rightarrow> direct_message list" where
  "dm_older st p = rec_or (olderByConversation st) p []"

lemma areDirectMessagesEqual_ids: "areDirectMessagesEqual a b \<Longrightarrow> map dm_id a = map dm_id b"
  unfolding areDirectMessagesEqual_def by (rule rows_equal_map) auto

lemma dm_view_set_ids:
  "dm_id ` set (dm_view (setConversation lc p ms st) p') =
     (if p' = p then dm_id ` set (dm_older st p) \<union> dm_id ` set ms else dm_id ` set (dm_view st p'))"
proof -
  have m: "dm_id ` set (mergeDmHistory lc (map_of (olderByConversation st) p) ms)
      = dm_id ` set (dm_older st p) \<union> dm_id ` set ms"
    by (simp add: mergeDmHistory_def merge_by_id_ids older_or dm_older_def)
  show ?thesis
  proof (cases "areDirectMessagesEqual (rec_or (conversations st) p [])
        (mergeDmHistory lc (map_of (olderByConversation st) p) ms)")
    case True
    then have "dm_id ` set (rec_or (conversations st) p [])
        = dm_id ` set (mergeDmHistory lc (map_of (olderByConversation st) p) ms)"
      by (metis areDirectMessagesEqual_ids list.set_map)
    with True m show ?thesis by (simp add: setConversation_def dm_view_def)
  next
    case False
    with m show ?thesis by (simp add: setConversation_def dm_view_def)
  qed
qed

interpretation dm_history: history_store dm_view dm_older dm_id
    "setConversation lc" "prependOlderDirectMessages lc" for lc
proof unfold_locales
  fix p p' and ms :: "direct_message list" and s
  show "dm_id ` set (dm_view (setConversation lc p ms s) p') =
      (if p' = p then dm_id ` set (dm_older s p) \<union> dm_id ` set ms else dm_id ` set (dm_view s p'))"
    by (rule dm_view_set_ids)
qed (auto simp: setConversation_def prependOlderDirectMessages_def dm_view_def dm_older_def Let_def
    fun_eq_iff mergeDmHistory_def merge_by_id_ids older_or)

section \<open>The invariant of the channel message store\<close>

definition by_sent :: "(string \<Rightarrow> string \<Rightarrow> int) \<Rightarrow> message list \<Rightarrow> bool" where
  "by_sent lc ms \<longleftrightarrow> sorted_wrt (\<lambda>a b. lc (msg_sentAt a) (msg_sentAt b) \<le> 0) ms"

definition messages_inv :: "(string \<Rightarrow> string \<Rightarrow> int) \<Rightarrow> messages_state \<Rightarrow> bool" where
  "messages_inv lc st \<longleftrightarrow> (\<forall>c. distinct (map msg_id (channel_view st c)) \<and> by_sent lc (channel_view st c)
     \<and> msg_id ` set (channel_older st c) \<subseteq> msg_id ` set (channel_view st c))"

text \<open>A live window arrives sorted and without duplicates; a page may be in any order.\<close>

fun window_ok :: "(string \<Rightarrow> string \<Rightarrow> int) \<Rightarrow> (u64, message) history_op \<Rightarrow> bool" where
  "window_ok lc (SetLive c ms) \<longleftrightarrow> distinct (map msg_id ms) \<and> by_sent lc ms"
| "window_ok lc (Prepend c os x) \<longleftrightarrow> True"

lemma messages_inv_init: "messages_inv lc messages_init"
  by (simp add: messages_inv_def messages_init_def channel_view_def channel_older_def by_sent_def)

lemma mergeHistory_ok:
  assumes "consistent_comparator lc" "distinct (map msg_id ms)" "by_sent lc ms"
  shows "distinct (map msg_id (mergeHistory lc os ms))" "by_sent lc (mergeHistory lc os ms)"
  using assms merge_by_id_distinct[of msg_id ms msg_sentAt lc os]
    merge_by_id_sorted[of lc msg_sentAt ms msg_id os]
  by (simp_all add: mergeHistory_def by_sent_def)

lemma messages_inv_step:
  assumes "consistent_comparator lc" "messages_inv lc st" "window_ok lc h"
  shows "messages_inv lc (history_step (setChannelMessages lc) (prependOlderMessages lc) st h)"
    (is "messages_inv lc ?st'")
proof -
  have "\<forall>c. msg_id ` set (channel_older ?st' c) \<subseteq> msg_id ` set (channel_view ?st' c)"
    using assms(2) by (intro channel_history.step_covered) (simp add: messages_inv_def)
  moreover have "distinct (map msg_id (channel_view ?st' c)) \<and> by_sent lc (channel_view ?st' c)" for c
    using assms mergeHistory_ok[OF assms(1)]
    by (cases h) (auto simp: messages_inv_def channel_view_set channel_view_prepend)
  ultimately show ?thesis by (simp add: messages_inv_def)
qed

lemma history_run_Nil [simp]: "history_run f g [] s = s"
  by (simp add: history_run_def)

lemma history_run_Cons [simp]: "history_run f g (h # hs) s = history_run f g hs (history_step f g s h)"
  by (simp add: history_run_def)

lemma history_run_append [simp]: "history_run f g (hs @ hs') s = history_run f g hs' (history_run f g hs s)"
  by (simp add: history_run_def)

text \<open>C1: once a page of older channel messages has been fetched, every row of it stays on view
  through any later sequence of resynchronisations and further pages, in any reachable state.\<close>

theorem backfilled_page_survives:
  assumes "i \<in> msg_id ` set page"
  shows "i \<in> msg_id ` set (channel_view (history_run (setChannelMessages lc) (prependOlderMessages lc)
           (before @ Prepend c page x # after) messages_init) c)"
proof -
  have "\<forall>k. msg_id ` set (channel_older messages_init k) \<subseteq> msg_id ` set (channel_view messages_init k)"
    by (simp add: messages_init_def channel_older_def)
  from channel_history.page_survives[OF channel_history.run_covered[OF this] assms]
  show ?thesis by simp
qed

definition sample_message :: "int \<Rightarrow> string \<Rightarrow> message" where
  "sample_message i t = \<lparr>msg_id = i, msg_channelId = 1, msg_senderIdentity = ''aa'', msg_content = ''hi'',
     msg_sentAt = t, msg_editedAt = None, msg_deleted = False\<rparr>"

theorem backfilled_page_survives_witness:
  "2 \<in> msg_id ` set (channel_view (history_run (setChannelMessages code_unit_compare)
     (prependOlderMessages code_unit_compare)
     ([SetLive 1 [sample_message 3 ''t3'']] @ Prepend 1 [sample_message 2 ''t2''] False
       # [SetLive 1 [sample_message 4 ''t4'']]) messages_init) 1)"
  by (rule backfilled_page_survives) (simp add: sample_message_def)

text \<open>After a resynchronisation a channel shows, per id, the live row if there is one and the
  backfilled row otherwise; every other channel, the fetched pages and the exhaustion flags are
  untouched.\<close>

theorem resync_shows_older_and_live:
  "by_id msg_id (channel_view (setChannelMessages lc c ms st) c)
       = by_id msg_id (channel_older st c) ++ by_id msg_id ms
   \<and> (\<forall>c'. c' = c \<or> channel_view (setChannelMessages lc c ms st) c' = channel_view st c')
   \<and> channel_older (setChannelMessages lc c ms st) = channel_older st
   \<and> historyExhausted (setChannelMessages lc c ms st) = historyExhausted st"
proof -
  have "historyExhausted (setChannelMessages lc c ms st) = historyExhausted st"
    by (simp add: setChannelMessages_def Let_def)
  then show ?thesis
    by (auto simp: channel_view_set mergeHistory_def merge_by_id_by_id older_or channel_older_def
        simp flip: channel_older_def)
qed

text \<open>C2: in every state reached by resynchronisations with ordered, duplicate-free windows and by
  pages in any order, each channel's view is ordered by time stamp, has one row per id and contains
  every fetched page.\<close>

theorem reachable_messages_inv:
  assumes "consistent_comparator lc" and "list_all (window_ok lc) ops"
  shows "messages_inv lc (history_run (setChannelMessages lc) (prependOlderMessages lc) ops messages_init)"
proof -
  have "messages_inv lc st \<Longrightarrow>
      messages_inv lc (history_run (setChannelMessages lc) (prependOlderMessages lc) ops st)" for st
    using assms(2) by (induction ops arbitrary: st) (auto intro: messages_inv_step[OF assms(1)])
  then show ?thesis using messages_inv_init by blast
qed

theorem reachable_messages_inv_witness:
  "messages_inv code_unit_compare (history_run (setChannelMessages code_unit_compare)
     (prependOlderMessages code_unit_compare)
     [SetLive 1 [sample_message 3 ''t3''], Prepend 1 [sample_message 2 ''t2'', sample_message 1 ''t1''] False,
      SetLive 1 [sample_message 3 ''t3'', sample_message 4 ''t4'']] messages_init)"
  by (rule reachable_messages_inv[OF code_unit.consistent_comparator_axioms])
    (simp add: by_sent_def sample_message_def)

text \<open>The live window is not kept: a row on view that slides out of the window, and lies above
  the fetched pages, is gone after the next resynchronisation although nobody deleted it.\<close>

theorem row_lost_between_page_and_window:
  assumes "m \<in> set (channel_view st c)" and "msg_id m \<notin> msg_id ` set (channel_older st c)"
    and "msg_id m \<notin> msg_id ` set window"
  shows "m \<notin> set (channel_view (setChannelMessages lc c window st) c)"
  using channel_history.window_gap[OF assms(2,3), of lc] by blast

theorem row_lost_between_page_and_window_witness:
  "let st = history_run (setChannelMessages code_unit_compare) (prependOlderMessages code_unit_compare)
      [SetLive 1 [sample_message 3 ''t3'', sample_message 4 ''t4''], Prepend 1 [sample_message 2 ''t2''] False]
      messages_init;
    st' = setChannelMessages code_unit_compare 1 [sample_message 4 ''t4'', sample_message 5 ''t5''] st
   in sample_message 3 ''t3'' \<in> set (channel_view st 1) \<and> sample_message 3 ''t3'' \<notin> set (channel_view st' 1)
      \<and> map msg_id (channel_view st' 1) = [2, 4, 5]"
proof -
  define st where "st = history_run (setChannelMessages code_unit_compare) (prependOlderMessages code_unit_compare)
      [SetLive 1 [sample_message 3 ''t3'', sample_message 4 ''t4''], Prepend 1 [sample_message 2 ''t2''] False]
      messages_init"
  have v: "channel_view st 1 = [sample_message 2 ''t2'', sample_message 3 ''t3'', sample_message 4 ''t4'']"
    and o: "channel_older st 1 = [sample_message 2 ''t2'']"
    and v': "channel_view (setChannelMessages code_unit_compare 1
        [sample_message 4 ''t4'', sample_message 5 ''t5''] st) 1
      = [sample_message 2 ''t2'', sample_message 4 ''t4'', sample_message 5 ''t5'']"
    unfolding st_def by code_simp+
  have "sample_message 3 ''t3'' \<notin> set (channel_view (setChannelMessages code_unit_compare 1
        [sample_message 4 ''t4'', sample_message 5 ''t5''] st) 1)"
    by (rule row_lost_between_page_and_window) (simp_all add: v o, simp_all add: sample_message_def)
  then show ?thesis unfolding Let_def st_def[symmetric] v v' by (simp add: sample_message_def)
qed

text \<open>The two stores differ in what they notice: a change of the edit time alone reaches the
  view of a channel, and is dropped by the view of a conversation.\<close>

theorem edit_time_dropped_by_dm_store:
  "channel_view (setChannelMessages lc c [m\<lparr>msg_editedAt := t\<rparr>] (setChannelMessages lc c [m] messages_init)) c
      = [m\<lparr>msg_editedAt := t\<rparr>]
   \<and> dm_view (setConversation lc p [d\<lparr>dm_editedAt := t\<rparr>] (setConversation lc p [d] dm_init)) p = [d]"
proof -
  have "areDirectMessagesEqual [d] [d\<lparr>dm_editedAt := t\<rparr>]" "\<not> areDirectMessagesEqual [] [d]"
      "areDirectMessagesEqual [] [] = True"
    by (simp_all add: areDirectMessagesEqual_def dm_same_fields_def)
  then show ?thesis
    by (auto simp: channel_view_set setConversation_def dm_view_def dm_init_def messages_init_def
        mergeHistory_def mergeDmHistory_def Let_def)
qed

end
