(* ===== verification/KeyedStores.thy ===== *)
theory KeyedStores
  imports RowStore MessageStores
begin

text \<open>
  The stores that keep rows per space, channel or room: \<open>channelsStore.ts\<close>, \<open>pinsStore.ts\<close>,
  \<open>voiceStore.ts\<close>, \<open>dmVoiceStore.ts\<close>, \<open>membersStore.ts\<close> and \<open>invitesStore.ts\<close> under
  \<open>src/stores\<close>.  The two message stores are shown to offer the same interface.
\<close>

section \<open>Channels\<close>

record channels_state =
  channelsByServer :: "(u64, channel list) rec"

definition channelSectionSortValue :: "string option \<Rightarrow> string" where
  "channelSectionSortValue sec = js_lower (js_trim (case sec of None \<Rightarrow> '''' | Some s \<Rightarrow> s))"

definition compareChannelsByLayout :: "(string \<Rightarrow> string \<Rightarrow> int) \<Rightarrow> channel \<Rightarrow> channel \<Rightarrow> int" where
  "compareChannelsByLayout lc a b = (let
     sectionDelta = lc (channelSectionSortValue (ch_section a)) (channelSectionSortValue (ch_section b));
     positionDelta = ch_position a - ch_position b
   in if sectionDelta \<noteq> 0 then sectionDelta else if positionDelta \<noteq> 0 then positionDelta
      else ch_id a - ch_id b)"

definition areChannelsEqual :: "channel list \<Rightarrow> channel list \<Rightarrow> bool" where
  "areChannelsEqual = rows_equal (\<lambda>l r. ch_id l = ch_id r \<and> ch_serverId l = ch_serverId r
     \<and> ch_name l = ch_name r \<and> ch_kind l = ch_kind r \<and> ch_position l = ch_position r
     \<and> ch_section l = ch_section r \<and> ch_moderatorOnly l = ch_moderatorOnly r)"

definition setServerChannels :: "u64 \<Rightarrow> channel list \<Rightarrow> channels_state \<Rightarrow> channels_state" where
  "setServerChannels s cs st = (let current = rec_or (channelsByServer st) s [] in
     if areChannelsEqual current cs then st
     else st\<lparr>channelsByServer := rec_set s cs (channelsByServer st)\<rparr>)"

definition upsertChannel :: "(string \<Rightarrow> string \<Rightarrow> int) \<Rightarrow> channel \<Rightarrow> channels_state \<Rightarrow> channels_state" where
  "upsertChannel lc c st = (let current = rec_or (channelsByServer st) (ch_serverId c) [];
      store = (\<lambda>next. let next = js_sort (compareChannelsByLayout lc) next in
         if areChannelsEqual current next then st
         else st\<lparr>channelsByServer := rec_set (ch_serverId c) next (channelsByServer st)\<rparr>)
    in case find_index (\<lambda>r. ch_id r = ch_id c) current of
         None \<Rightarrow> store (current @ [c])
       | Some i \<Rightarrow> if areChannelsEqual [current ! i] [c] then st else store (current[i := c]))"

lemma areChannelsEqual_iff [simp]: "areChannelsEqual a b \<longleftrightarrow> a = b"
proof -
  have "(\<lambda>l r. ch_id l = ch_id r \<and> ch_serverId l = ch_serverId r
     \<and> ch_name l = ch_name r \<and> ch_kind l = ch_kind r \<and> ch_position l = ch_position r
     \<and> ch_section l = ch_section r \<and> ch_moderatorOnly l = ch_moderatorOnly r) = (\<lambda>l r :: channel. l = r)"
    by (intro ext) (auto intro: channel.equality)
  then show ?thesis by (simp add: areChannelsEqual_def)
qed

text \<open>The layout order is a consistent comparator whenever the collation is.\<close>

lemma layout_consistent:
  assumes "consistent_comparator lc"
  shows "consistent_comparator (compareChannelsByLayout lc)"
proof
  note flip = consistent_comparator.cmp_flip[OF assms]
    and trans = consistent_comparator.cmp_trans[OF assms]
  let ?s = "\<lambda>c :: channel. channelSectionSortValue (ch_section c)"
  have z: "lc (?s x) (?s y) = 0 \<longleftrightarrow> lc (?s y) (?s x) = 0" for x y
    using flip[of "?s x" "?s y"] flip[of "?s y" "?s x"] by linarith
  fix x y w :: channel
  show "compareChannelsByLayout lc x y \<le> 0 \<longleftrightarrow> 0 \<le> compareChannelsByLayout lc y x"
    using flip[of "?s x" "?s y"] z[of x y] by (auto simp: compareChannelsByLayout_def Let_def)
  assume a: "compareChannelsByLayout lc x y \<le> 0" and b: "compareChannelsByLayout lc y w \<le> 0"
  have "lc (?s x) (?s y) \<le> 0" "lc (?s y) (?s w) \<le> 0"
    using a b by (auto simp: compareChannelsByLayout_def Let_def split: if_splits)
  then have le: "lc (?s x) (?s w) \<le> 0" by (rule trans)
  show "compareChannelsByLayout lc x w \<le> 0"
  proof (cases "lc (?s x) (?s w) = 0")
    case True
    then have "lc (?s w) (?s x) \<le> 0" using z[of x w] by simp
    then have "lc (?s w) (?s y) \<le> 0" "lc (?s y) (?s x) \<le> 0"
      using trans \<open>lc (?s x) (?s y) \<le> 0\<close> \<open>lc (?s y) (?s w) \<le> 0\<close> by blast+
    then have "lc (?s x) (?s y) = 0" "lc (?s y) (?s w) = 0"
      using flip[of "?s w" "?s y"] flip[of "?s y" "?s x"] \<open>lc (?s x) (?s y) \<le> 0\<close>
        \<open>lc (?s y) (?s w) \<le> 0\<close> by linarith+
    with True a b show ?thesis
      by (auto simp: compareChannelsByLayout_def Let_def split: if_splits)
  qed (use le in \<open>simp add: compareChannelsByLayout_def Let_def\<close>)
qed

definition server_channels :: "channels_state \<Rightarrow> u64 \<Rightarrow> channel list" where
  "server_channels st s = rec_or (channelsByServer st) s []"

interpretation channel_rows: row_store server_channels "\<lambda>_ _ cs. cs" setServerChannels
    "\<lambda>st. rec_keys (channelsByServer st)" "\<lambda>_. True"
  by unfold_locales
    (auto simp: server_channels_def setServerChannels_def Let_def rec_or_not_key)

lemma server_channels_upsert:
  assumes "distinct (map ch_id (server_channels st (ch_serverId c)))"
    and "consistent_comparator lc"
    and "sorted_wrt (\<lambda>a b. compareChannelsByLayout lc a b \<le> 0) (server_channels st (ch_serverId c))"
  shows "server_channels (upsertChannel lc c st) s =
    (if s = ch_serverId c then
       js_sort (compareChannelsByLayout lc)
         (let cur = server_channels st s in
          if ch_id c \<in> ch_id ` set cur then map (\<lambda>r. if ch_id r = ch_id c then c else r) cur else cur @ [c])
     else server_channels st s)"
proof -
  let ?cur = "server_channels st (ch_serverId c)"
  note srt = consistent_comparator.js_sort_ascending_id[OF layout_consistent[OF assms(2)] assms(3)]
  show ?thesis
  proof (cases "find_index (\<lambda>r. ch_id r = ch_id c) ?cur")
    case None
    then have "ch_id c \<notin> ch_id ` set ?cur" by (auto simp: find_index_None)
    with None show ?thesis
      by (auto simp: upsertChannel_def server_channels_def Let_def)
  next
    case (Some i)
    then have i: "i < length ?cur" "ch_id (?cur ! i) = ch_id c"
      using find_index_Some[OF Some] by auto
    then have mem: "ch_id c \<in> ch_id ` set ?cur" by (metis image_eqI nth_mem)
    have rep: "?cur[i := c] = map (\<lambda>r. if ch_id r = ch_id c then c else r) ?cur"
      by (rule replace_at_key[OF Some assms(1)])
    show ?thesis
    proof (cases "?cur ! i = c")
      case True
      then have "?cur[i := c] = ?cur" by (metis list_update_id)
      with rep srt have "js_sort (compareChannelsByLayout lc)
          (map (\<lambda>r. if ch_id r = ch_id c then c else r) ?cur) = ?cur" by simp
      with True Some mem show ?thesis
        by (auto simp: upsertChannel_def server_channels_def Let_def)
    next
      case False
      with Some mem rep show ?thesis
        by (auto simp: upsertChannel_def server_channels_def Let_def)
    qed
  qed
qed

section \<open>Pins\<close>

record pins_state =
  pinsByChannel :: "(u64, pinned_message list) rec"

text \<open>Only the pin and the message are compared.\<close>

definition arePinsEqual :: "pinned_message list \<Rightarrow> pinned_message list \<Rightarrow> bool" where
  "arePinsEqual = rows_equal (\<lambda>l r. pn_pinId l = pn_pinId r \<and> pn_messageId l = pn_messageId r)"

definition setChannelPins :: "u64 \<Rightarrow> pinned_message list \<Rightarrow> pins_state \<Rightarrow> pins_state" where
  "setChannelPins c ps st = (let current = rec_or (pinsByChannel st) c [] in
     if arePinsEqual current ps then st
     else st\<lparr>pinsByChannel := rec_set c ps (pinsByChannel st)\<rparr>)"

definition pin_view :: "pins_state \<Rightarrow> u64 \<Rightarrow> (u64 \<times> u64) list" where
  "pin_view st c = map (\<lambda>p. (pn_pinId p, pn_messageId p)) (rec_or (pinsByChannel st) c [])"

lemma arePinsEqual_iff:
  "arePinsEqual a b \<longleftrightarrow>
     map (\<lambda>p. (pn_pinId p, pn_messageId p)) a = map (\<lambda>p. (pn_pinId p, pn_messageId p)) b"
  unfolding arePinsEqual_def
proof (induction a arbitrary: b)
  case Nil
  then show ?case by (cases b) auto
next
  case (Cons x a)
  then show ?case by (cases b) auto
qed

interpretation pin_rows: row_store pin_view "\<lambda>_ _ ps. map (\<lambda>p. (pn_pinId p, pn_messageId p)) ps"
    setChannelPins "\<lambda>st. rec_keys (pinsByChannel st)" "\<lambda>_. True"
  by unfold_locales
    (auto simp: pin_view_def setChannelPins_def Let_def rec_or_not_key arePinsEqual_iff)

section \<open>Voice participants\<close>

record voice_state =
  participantsByChannel :: "(u64, voice_participant list) rec"
  vs_activeChannelId :: "u64 option"
  vs_localTracks :: "nat list"

definition areParticipantsEqual :: "voice_participant list \<Rightarrow> voice_participant list \<Rightarrow> bool" where
  "areParticipantsEqual = rows_equal (\<lambda>l r. vp_channelId l = vp_channelId r
     \<and> vp_userIdentity l = vp_userIdentity r \<and> vp_joinedAt l = vp_joinedAt r \<and> vp_muted l = vp_muted r
     \<and> vp_deafened l = vp_deafened r \<and> vp_sharingScreen l = vp_sharingScreen r
     \<and> vp_sharingCamera l = vp_sharingCamera r)"

definition setParticipants :: "u64 \<Rightarrow> voice_participant list \<Rightarrow> voice_state \<Rightarrow> voice_state" where
  "setParticipants c ps st = (let current = rec_or (participantsByChannel st) c [] in
     if areParticipantsEqual current ps then st
     else st\<lparr>participantsByChannel := rec_set c ps (participantsByChannel st)\<rparr>)"

definition setActiveVoiceChannelId :: "u64 option \<Rightarrow> voice_state \<Rightarrow> voice_state" where
  "setActiveVoiceChannelId c st = (if vs_activeChannelId st = c then st else st\<lparr>vs_activeChannelId := c\<rparr>)"

definition setLocalTracks :: "nat list \<Rightarrow> voice_state \<Rightarrow> voice_state" where
  "setLocalTracks ts st = st\<lparr>vs_localTracks := ts\<rparr>"

lemma areParticipantsEqual_iff [simp]: "areParticipantsEqual a b \<longleftrightarrow> a = b"
proof -
  have "(\<lambda>l r. vp_channelId l = vp_channelId r
     \<and> vp_userIdentity l = vp_userIdentity r \<and> vp_joinedAt l = vp_joinedAt r \<and> vp_muted l = vp_muted r
     \<and> vp_deafened l = vp_deafened r \<and> vp_sharingScreen l = vp_sharingScreen r
     \<and> vp_sharingCamera l = vp_sharingCamera r) = (\<lambda>l r :: voice_participant. l = r)"
    by (intro ext) (auto intro: voice_participant.equality)
  then show ?thesis by (simp add: areParticipantsEqual_def)
qed

definition channel_participants :: "voice_state \<Rightarrow> u64 \<Rightarrow> voice_participant list" where
  "channel_participants st c = rec_or (participantsByChannel st) c []"

interpretation voice_rows: row_store channel_participants "\<lambda>_ _ ps. ps" setParticipants
    "\<lambda>st. rec_keys (participantsByChannel st)" "\<lambda>_. True"
  by unfold_locales
    (auto simp: channel_participants_def setParticipants_def Let_def rec_or_not_key)

record dm_voice_state =
  participantsByRoom :: "(string, dm_voice_participant list) rec"

definition areDmParticipantsEqual :: "dm_voice_participant list \<Rightarrow> dm_voice_participant list \<Rightarrow> bool" where
  "areDmParticipantsEqual = rows_equal (\<lambda>l r. dv_roomKey l = dv_roomKey r
     \<and> dv_userIdentity l = dv_userIdentity r \<and> dv_userA l = dv_userA r \<and> dv_userB l = dv_userB r
     \<and> dv_joinedAt l = dv_joinedAt r \<and> dv_muted l = dv_muted r \<and> dv_deafened l = dv_deafened r
     \<and> dv_sharingScreen l = dv_sharingScreen r \<and> dv_sharingCamera l = dv_sharingCamera r)"

definition setRoomParticipants :: "string \<Rightarrow> dm_voice_participant list \<Rightarrow> dm_voice_state \<Rightarrow> dm_voice_state" where
  "setRoomParticipants k ps st = (let current = rec_or (participantsByRoom st) k [] in
     if areDmParticipantsEqual current ps then st
     else st\<lparr>participantsByRoom := rec_set k ps (participantsByRoom st)\<rparr>)"

lemma areDmParticipantsEqual_iff [simp]: "areDmParticipantsEqual a b \<longleftrightarrow> a = b"
proof -
  have "(\<lambda>l r. dv_roomKey l = dv_roomKey r
     \<and> dv_userIdentity l = dv_userIdentity r \<and> dv_userA l = dv_userA r \<and> dv_userB l = dv_userB r
     \<and> dv_joinedAt l = dv_joinedAt r \<and> dv_muted l = dv_muted r \<and> dv_deafened l = dv_deafened r
     \<and> dv_sharingScreen l = dv_sharingScreen r \<and> dv_sharingCamera l = dv_sharingCamera r)
     = (\<lambda>l r :: dm_voice_participant. l = r)"
    by (intro ext) (auto intro: dm_voice_participant.equality)
  then show ?thesis by (simp add: areDmParticipantsEqual_def)
qed

definition room_participants :: "dm_voice_state \<Rightarrow> string \<Rightarrow> dm_voice_participant list" where
  "room_participants st k = rec_or (participantsByRoom st) k []"

interpretation dm_voice_rows: row_store room_participants "\<lambda>_ _ ps. ps" setRoomParticipants
    "\<lambda>st. rec_keys (participantsByRoom st)" "\<lambda>_. True"
  by unfold_locales
    (auto simp: room_participants_def setRoomParticipants_def Let_def rec_or_not_key)

section \<open>Members\<close>

record members_state =
  membersByServer :: "(u64, server_member_with_user list) rec"

definition setServerMembers :: "u64 \<Rightarrow> server_member_with_user list \<Rightarrow> members_state \<Rightarrow> members_state" where
  "setServerMembers s ms st = st\<lparr>membersByServer := rec_set s ms (membersByServer st)\<rparr>"

definition findRole :: "u64 \<Rightarrow> identity \<Rightarrow> members_state \<Rightarrow> role option" where
  "findRole s i st = map_option mb_role
     (find (\<lambda>m. mb_userIdentity m = i) (rec_or (membersByServer st) s []))"

definition server_members :: "members_state \<Rightarrow> u64 \<Rightarrow> server_member_with_user list" where
  "server_members st s = rec_or (membersByServer st) s []"

interpretation member_rows: row_store server_members "\<lambda>_ _ ms. ms" setServerMembers
    "\<lambda>st. rec_keys (membersByServer st)" "\<lambda>_. True"
  by unfold_locales
    (auto simp: server_members_def setServerMembers_def rec_or_not_key)

section \<open>Invites\<close>

record invites_state =
  invitesByServer :: "(u64, invite list) rec"

definition setServerInvites :: "u64 \<Rightarrow> invite list \<Rightarrow> invites_state \<Rightarrow> invites_state" where
  "setServerInvites s is st = st\<lparr>invitesByServer := rec_set s is (invitesByServer st)\<rparr>"

definition addInvite :: "invite \<Rightarrow> invites_state \<Rightarrow> invites_state" where
  "addInvite i st = (let existing = rec_or (invitesByServer st) (iv_serverId i) [] in
     st\<lparr>invitesByServer := rec_set (iv_serverId i)
        (filter (\<lambda>j. iv_token j \<noteq> iv_token i) existing @ [i]) (invitesByServer st)\<rparr>)"

definition removeInvite :: "string \<Rightarrow> invites_state \<Rightarrow> invites_state" where
  "removeInvite t st = \<lparr>invitesByServer =
     map (\<lambda>(s, is). (s, filter (\<lambda>j. iv_token j \<noteq> t) is)) (invitesByServer st)\<rparr>"

definition updateInvite :: "invite \<Rightarrow> invites_state \<Rightarrow> invites_state" where
  "updateInvite i st = (let existing = rec_or (invitesByServer st) (iv_serverId i) [] in
     st\<lparr>invitesByServer := rec_set (iv_serverId i)
        (map (\<lambda>j. if iv_token j = iv_token i then i else j) existing) (invitesByServer st)\<rparr>)"

definition server_invites :: "invites_state \<Rightarrow> u64 \<Rightarrow> invite list" where
  "server_invites st s = rec_or (invitesByServer st) s []"

interpretation invite_rows: row_store server_invites "\<lambda>_ _ is. is" setServerInvites
    "\<lambda>st. rec_keys (invitesByServer st)" "\<lambda>_. True"
  by unfold_locales
    (auto simp: server_invites_def setServerInvites_def rec_or_not_key)

section \<open>The message stores as row stores\<close>

text \<open>Pages are only ever kept for keys that also have a view.\<close>

definition older_keys_ok :: "messages_state \<Rightarrow> bool" where
  "older_keys_ok st \<longleftrightarrow> fst ` set (olderByChannel st) \<subseteq> fst ` set (messagesByChannel st)"

interpretation message_rows: row_store channel_view
    "\<lambda>st c ms. mergeHistory lc (map_of (olderByChannel st) c) ms" "setChannelMessages lc"
    "\<lambda>st. rec_keys (messagesByChannel st)" older_keys_ok for lc
proof unfold_locales
  fix c and ms :: "message list" and st c'
  show "channel_view (setChannelMessages lc c ms st) c' =
      (if c' = c then mergeHistory lc (map_of (olderByChannel st) c) ms else channel_view st c')"
    by (rule channel_view_set)
  show "older_keys_ok st \<Longrightarrow> older_keys_ok (setChannelMessages lc c ms st)"
    by (auto simp: older_keys_ok_def setChannelMessages_def Let_def)
  assume "older_keys_ok st" "c \<notin> set (rec_keys (messagesByChannel st))"
  then have "map_of (olderByChannel st) c = None"
    by (auto simp: older_keys_ok_def map_of_eq_None_iff)
  then show "channel_view st c = mergeHistory lc (map_of (olderByChannel st) c) []"
    using \<open>c \<notin> set (rec_keys (messagesByChannel st))\<close>
    by (simp add: channel_view_def rec_or_not_key mergeHistory_def)
qed simp

text \<open>What the conversation store compares of a row: everything but the edit time.\<close>

definition dm_shown :: "direct_message \<Rightarrow> direct_message" where
  "dm_shown d = d\<lparr>dm_editedAt := None\<rparr>"

definition dm_shown_view :: "dm_state \<Rightarrow> identity \<Rightarrow> direct_message list" where
  "dm_shown_view st p = map dm_shown (dm_view st p)"

definition dm_older_keys_ok :: "dm_state \<Rightarrow> bool" where
  "dm_older_keys_ok st \<longleftrightarrow> fst ` set (olderByConversation st) \<subseteq> fst ` set (conversations st)"

lemma areDirectMessagesEqual_iff: "areDirectMessagesEqual a b \<longleftrightarrow> map dm_shown a = map dm_shown b"
proof -
  have "dm_id l = dm_id r \<and> dm_same_fields l r \<longleftrightarrow> dm_shown l = dm_shown r" for l r
    by (cases l; cases r) (auto simp: dm_shown_def dm_same_fields_def)
  then show ?thesis
    unfolding areDirectMessagesEqual_def
  proof (induction a arbitrary: b)
    case Nil
    then show ?case by (cases b) auto
  next
    case (Cons x a)
    then show ?case by (cases b) auto
  qed
qed

interpretation dm_rows: row_store dm_shown_view
    "\<lambda>st p ms. map dm_shown (mergeDmHistory lc (map_of (olderByConversation st) p) ms)"
    "setConversation lc" "\<lambda>st. rec_keys (conversations st)" dm_older_keys_ok for lc
proof unfold_locales
  fix p and ms :: "direct_message list" and st p'
  show "dm_shown_view (setConversation lc p ms st) p' =
      (if p' = p then map dm_shown (mergeDmHistory lc (map_of (olderByConversation st) p) ms)
       else dm_shown_view st p')"
    by (auto simp: dm_shown_view_def dm_view_def setConversation_def Let_def areDirectMessagesEqual_iff)
  show "dm_older_keys_ok st \<Longrightarrow> dm_older_keys_ok (setConversation lc p ms st)"
    by (auto simp: dm_older_keys_ok_def setConversation_def Let_def)
  assume "dm_older_keys_ok st" "p \<notin> set (rec_keys (conversations st))"
  then have "map_of (olderByConversation st) p = None"
    by (auto simp: dm_older_keys_ok_def map_of_eq_None_iff)
  then show "dm_shown_view st p = map dm_shown (mergeDmHistory lc (map_of (olderByConversation st) p) [])"
    using \<open>p \<notin> set (rec_keys (conversations st))\<close>
    by (simp add: dm_shown_view_def dm_view_def rec_or_not_key mergeDmHistory_def)
qed (auto simp: setConversation_def Let_def)

end
