(* ===== verification/ActivityStores.thy ===== *)
theory ActivityStores
  imports Mappers
begin

text \<open>
  \<open>src/stores/presenceStore.ts\<close>, \<open>typingStore.ts\<close> and \<open>readStore.ts\<close>: who is online, who is
  typing where and until when, and how far each scope has been read.  \<open>now\<close> is \<open>Date.now()\<close>.
\<close>

section \<open>Presence\<close>

record presence_store =
  ps_nowMs :: int
  onlineByIdentity :: "(string, bool) rec"
  lastActiveByIdentity :: "(string, int) rec"

definition setNowMs :: "int \<Rightarrow> presence_store \<Rightarrow> presence_store" where
  "setNowMs now st = (if ps_nowMs st = now then st else st\<lparr>ps_nowMs := now\<rparr>)"

definition presence_row :: "(string, bool) rec \<times> (string, int) rec \<Rightarrow> presence_state
    \<Rightarrow> (string, bool) rec \<times> (string, int) rec" where
  "presence_row acc row = (let key = normalizeIdentity (pr_identity row); (online, active) = acc in
     (rec_set key (pr_online row) online,
      case date_parse (pr_lastInteractionAt row) of Some ms \<Rightarrow> rec_set key ms active | None \<Rightarrow> active))"

definition setPresenceRows :: "presence_state list \<Rightarrow> presence_store \<Rightarrow> presence_store" where
  "setPresenceRows rows st = (let (online, active) = foldl presence_row ([], []) rows in
     st\<lparr>onlineByIdentity := online, lastActiveByIdentity := active\<rparr>)"

definition presence_reset :: "int \<Rightarrow> presence_store \<Rightarrow> presence_store" where
  "presence_reset now st = \<lparr>ps_nowMs = now, onlineByIdentity = [], lastActiveByIdentity = []\<rparr>"

section \<open>Typing\<close>

record typing_store =
  typingByScope :: "(string, (string, int) rec) rec"

definition typing_row :: "int \<Rightarrow> int \<Rightarrow> (string, (string, int) rec) rec \<Rightarrow> typing_state
    \<Rightarrow> (string, (string, int) rec) rec" where
  "typing_row now ttl acc row = (case date_parse (ty_updatedAt row) of None \<Rightarrow> acc
     | Some updatedAtMs \<Rightarrow> (let expiresAt = updatedAtMs + ttl in
         if expiresAt \<le> now then acc
         else rec_set (ty_scopeKey row)
           (rec_set (normalizeIdentity (ty_userIdentity row)) expiresAt (rec_or acc (ty_scopeKey row) [])) acc))"

definition setTypingRows :: "int \<Rightarrow> int \<Rightarrow> typing_state list \<Rightarrow> typing_store \<Rightarrow> typing_store" where
  "setTypingRows now ttl rows st = st\<lparr>typingByScope := foldl (typing_row now ttl) [] rows\<rparr>"

definition default_ttl :: int where
  "default_ttl = 4500"

definition pruneExpired :: "int \<Rightarrow> typing_store \<Rightarrow> typing_store" where
  "pruneExpired now st = (let
     live = map (\<lambda>(scope, es). (scope, es, filter (\<lambda>(i, expiresAt). expiresAt > now) es)) (typingByScope st);
     nxt = map (\<lambda>(scope, es, f). (scope, f)) (filter (\<lambda>(scope, es, f). length f > 0) live);
     changed = list_ex (\<lambda>(scope, es, f). length f \<noteq> length es) live
   in if changed then st\<lparr>typingByScope := nxt\<rparr> else st)"

definition typing_reset :: "typing_store \<Rightarrow> typing_store" where
  "typing_reset st = st\<lparr>typingByScope := []\<rparr>"

section \<open>Read cursors\<close>

record read_store =
  rowsByScope :: "(string, read_state) rec"

definition read_row :: "(string, read_state) rec \<Rightarrow> (string, read_state) rec \<Rightarrow> read_state
    \<Rightarrow> (string, read_state) rec" where
  "read_row old acc row = rec_set (rd_scopeKey row)
     (case map_of old (rd_scopeKey row) of None \<Rightarrow> row
      | Some existing \<Rightarrow>
          if date_geq (date_parse (rd_lastReadAt row)) (date_parse (rd_lastReadAt existing)) then row
          else existing) acc"

definition setReadRows :: "read_state list \<Rightarrow> read_store \<Rightarrow> read_store" where
  "setReadRows rows st = \<lparr>rowsByScope = foldl (read_row (rowsByScope st)) [] rows\<rparr>"

definition getLastReadAt :: "string \<Rightarrow> read_store \<Rightarrow> string option" where
  "getLastReadAt scope st = map_option rd_lastReadAt (map_of (rowsByScope st) scope)"

definition read_reset :: "read_store \<Rightarrow> read_store" where
  "read_reset st = st\<lparr>rowsByScope := []\<rparr>"

section \<open>Facts\<close>

text \<open>When a user of a scope stops being shown as typing; \<open>None\<close> if he is not shown.\<close>

definition typing_until :: "typing_store \<Rightarrow> string \<Rightarrow> string \<Rightarrow> int option" where
  "typing_until st scope i = map_of (rec_or (typingByScope st) scope []) i"

definition entries_ok :: "(string, (string, int) rec) rec \<Rightarrow> bool" where
  "entries_ok r \<longleftrightarrow> rec_ok r \<and> (\<forall>(scope, es) \<in> set r. rec_ok es \<and> es \<noteq> [])"

definition typing_ok :: "typing_store \<Rightarrow> bool" where
  "typing_ok st \<longleftrightarrow> entries_ok (typingByScope st)"

text \<open>The expiry the last unexpired row of a user in a scope gives.\<close>

definition row_expiry :: "int \<Rightarrow> int \<Rightarrow> typing_state \<Rightarrow> int option" where
  "row_expiry now ttl row = (case date_parse (ty_updatedAt row) of None \<Rightarrow> None
     | Some t \<Rightarrow> if t + ttl \<le> now then None else Some (t + ttl))"

fun last_expiry :: "int \<Rightarrow> int \<Rightarrow> string \<Rightarrow> string \<Rightarrow> typing_state list \<Rightarrow> int option" where
  "last_expiry now ttl scope i [] = None"
| "last_expiry now ttl scope i (row # rows) = (case last_expiry now ttl scope i rows of Some e \<Rightarrow> Some e
     | None \<Rightarrow> if ty_scopeKey row = scope \<and> normalizeIdentity (ty_userIdentity row) = i
               then row_expiry now ttl row else None)"

lemma foldl_typing_row:
  "map_of (rec_or (foldl (typing_row now ttl) acc rows) scope []) i
     = (case last_expiry now ttl scope i rows of Some e \<Rightarrow> Some e | None \<Rightarrow> map_of (rec_or acc scope []) i)"
proof (induction rows arbitrary: acc)
  case (Cons row rows)
  have "map_of (rec_or (typing_row now ttl acc row) scope []) i
      = (if ty_scopeKey row = scope \<and> normalizeIdentity (ty_userIdentity row) = i
         then (case row_expiry now ttl row of Some e \<Rightarrow> Some e | None \<Rightarrow> map_of (rec_or acc scope []) i)
         else map_of (rec_or acc scope []) i)"
    by (auto simp: typing_row_def row_expiry_def Let_def split: option.splits)
  with Cons.IH[of "typing_row now ttl acc row"] show ?case
    by (auto split: option.splits)
qed simp

lemma last_expiry_future: "last_expiry now ttl scope i rows = Some e \<Longrightarrow> now < e"
  by (induction rows) (auto simp: row_expiry_def split: option.splits if_splits)

lemma entries_ok_lookup:
  "entries_ok r \<longleftrightarrow> rec_ok r \<and> (\<forall>scope es. map_of r scope = Some es \<longrightarrow> rec_ok es \<and> es \<noteq> [])"
  unfolding entries_ok_def by (metis (mono_tags, lifting) case_prodD case_prodI2 rec_get_iff)

lemma rec_set_nonempty [simp]: "rec_set k v r \<noteq> []"
  by (cases r) auto

lemma entries_ok_set:
  "entries_ok acc \<Longrightarrow> entries_ok (rec_set s (rec_set k v (rec_or acc s [])) acc)"
  by (auto simp: entries_ok_lookup rec_or_def split: option.splits)

lemma typing_row_ok: "entries_ok acc \<Longrightarrow> entries_ok (typing_row now ttl acc row)"
  by (auto simp: typing_row_def Let_def entries_ok_set split: option.splits)

lemma setTypingRows_ok: "typing_ok (setTypingRows now ttl rows st)"
proof -
  have "entries_ok acc \<Longrightarrow> entries_ok (foldl (typing_row now ttl) acc rows)" for acc
    by (induction rows arbitrary: acc) (auto simp: typing_row_ok)
  from this[of "[]"] show ?thesis by (simp add: typing_ok_def setTypingRows_def entries_ok_def)
qed

lemma filter_length_same: "length (filter P xs) = length xs \<Longrightarrow> filter P xs = xs"
  by (metis filter_True length_filter_less nat_neq_iff)

lemma prune_entries:
  assumes "rec_ok r" and "\<forall>(scope, es) \<in> set r. rec_ok es"
  shows "map_of (rec_or (map (\<lambda>(scope, es, f). (scope, f)) (filter (\<lambda>(scope, es, f). length f > 0)
      (map (\<lambda>(scope, es). (scope, es, filter (\<lambda>(i, x). x > now) es)) r))) scope []) i
   = (case map_of (rec_or r scope []) i of Some e \<Rightarrow> if now < e then Some e else None | None \<Rightarrow> None)"
  using assms
proof (induction r)
  case (Cons a r)
  obtain s es where a: "a = (s, es)" by (cases a)
  have r: "rec_ok r" "s \<notin> fst ` set r" using Cons.prems(1) by (auto simp: rec_ok_def a)
  have IH: "map_of (rec_or (map (\<lambda>(scope, es, f). (scope, f)) (filter (\<lambda>(scope, es, f). length f > 0)
      (map (\<lambda>(scope, es). (scope, es, filter (\<lambda>(i, x). x > now) es)) r))) scope []) i
   = (case map_of (rec_or r scope []) i of Some e \<Rightarrow> if now < e then Some e else None | None \<Rightarrow> None)"
    using Cons.IH[OF r(1)] Cons.prems(2) by auto
  have es: "map_of (filter (\<lambda>(i, x). x > now) es) i
      = (case map_of es i of Some e \<Rightarrow> if now < e then Some e else None | None \<Rightarrow> None)"
    using Cons.prems(2) by (intro map_of_filter_value) (auto simp: a)
  show ?case
  proof (cases "scope = s")
    case True
    have "rec_or r s [] = []" using r(2) by (simp add: rec_or_not_key)
    with True IH es show ?thesis by (auto simp: a split: option.splits)
  next
    case False
    with IH show ?thesis by (auto simp: a)
  qed
qed (simp split: option.splits)

lemma typing_until_prune:
  assumes "typing_ok st"
  shows "typing_until (pruneExpired now st) scope i
    = (case typing_until st scope i of Some e \<Rightarrow> if now < e then Some e else None | None \<Rightarrow> None)"
proof -
  let ?live = "map (\<lambda>(scope, es). (scope, es, filter (\<lambda>(i, expiresAt). expiresAt > now) es)) (typingByScope st)"
  have ok: "rec_ok (typingByScope st)" "\<forall>(scope, es) \<in> set (typingByScope st). rec_ok es"
    using assms by (auto simp: typing_ok_def entries_ok_def)
  note P = prune_entries[OF ok, of now scope i]
  show ?thesis
  proof (cases "list_ex (\<lambda>(scope, es, f). length f \<noteq> length es) ?live")
    case True
    with P show ?thesis by (simp add: pruneExpired_def typing_until_def Let_def)
  next
    case False
    have same: "filter (\<lambda>(i, x). x > now) es = es" if "(s, es) \<in> set (typingByScope st)" for s es
      using False that by (intro filter_length_same) (force simp: list_ex_iff)
    have "now < e" if "typing_until st scope i = Some e" for e
    proof -
      from that obtain es where es: "map_of (typingByScope st) scope = Some es" "map_of es i = Some e"
        by (auto simp: typing_until_def rec_or_def split: option.splits)
      then have "(i, e) \<in> set es" by (auto dest: map_of_SomeD)
      moreover have "filter (\<lambda>(i, x). x > now) es = es"
        using es(1) by (auto dest: map_of_SomeD intro: same)
      ultimately show ?thesis by (metis (mono_tags, lifting) case_prodD mem_Collect_eq set_filter)
    qed
    with False show ?thesis by (auto simp: pruneExpired_def Let_def split: option.splits)
  qed
qed

text \<open>While typing rows are shown, each user is shown exactly until the time his last unexpired
  row of the scope gives, and pruning at any later time hides exactly the entries that have run out.\<close>

theorem typing_shown_until_expiry:
  "typing_until (setTypingRows now ttl rows st) scope i = last_expiry now ttl scope i rows
   \<and> typing_until (pruneExpired later (setTypingRows now ttl rows st)) scope i
      = (case last_expiry now ttl scope i rows of
           Some e \<Rightarrow> if later < e then Some e else None | None \<Rightarrow> None)"
proof -
  have "typing_until (setTypingRows now ttl rows st) scope i = last_expiry now ttl scope i rows"
    by (simp add: typing_until_def setTypingRows_def foldl_typing_row split: option.splits)
  then show ?thesis by (simp add: typing_until_prune[OF setTypingRows_ok])
qed

section \<open>Read cursors only move forward\<close>

lemma foldl_read_row:
  assumes "distinct (map rd_scopeKey rows)"
  shows "map_of (foldl (read_row old) acc rows) scope
    = (case find (\<lambda>r. rd_scopeKey r = scope) rows of
         Some row \<Rightarrow> map_of (read_row old [] row) scope | None \<Rightarrow> map_of acc scope)"
  using assms
proof (induction rows arbitrary: acc)
  case (Cons row rows)
  have "find (\<lambda>r. rd_scopeKey r = rd_scopeKey row) rows = None"
    using Cons.prems by (auto simp: find_None_iff image_iff)
  with Cons show ?case by (auto simp: read_row_def split: option.splits)
qed simp

text \<open>C11: a refresh never moves the read cursor of a scope back: where the new rows still mention the
  scope and both time stamps are dates, the cursor afterwards is at least as late as before, and it
  is the later of the stored and the delivered row.\<close>

theorem read_cursor_monotone:
  assumes "distinct (map rd_scopeKey rows)" and "row \<in> set rows" and "rd_scopeKey row = scope"
    and "map_of (rowsByScope st) scope = Some existing"
    and "date_parse (rd_lastReadAt existing) = Some t" and "date_parse (rd_lastReadAt row) = Some t'"
  shows "\<exists>r. map_of (rowsByScope (setReadRows rows st)) scope = Some r
    \<and> date_parse (rd_lastReadAt r) = Some (max t t') \<and> r \<in> {existing, row}"
proof -
  have "find (\<lambda>r. rd_scopeKey r = scope) rows = Some row"
    using assms(1-3) by (induction rows) (auto simp: image_iff)
  then show ?thesis
    using assms(4-6) by (simp add: setReadRows_def foldl_read_row[OF assms(1)])
      (auto simp: read_row_def assms(3) date_geq_def)
qed

definition sample_read :: "string \<Rightarrow> read_state" where
  "sample_read t = \<lparr>rd_readKey = ''k'', rd_scopeKey = ''channel:1'', rd_userIdentity = ''aa'',
     rd_lastReadAt = t, rd_updatedAt = t\<rparr>"

theorem read_cursor_monotone_witness:
  "\<exists>r. map_of (rowsByScope (setReadRows [sample_read ''2026-09-10T00:26:40.123Z'']
      \<lparr>rowsByScope = [(''channel:1'', sample_read ''2026-09-11T00:26:40.123Z'')]\<rparr>)) ''channel:1'' = Some r
    \<and> date_parse (rd_lastReadAt r) = Some (max 1789086400123 1789000000123)
    \<and> r \<in> {sample_read ''2026-09-11T00:26:40.123Z'', sample_read ''2026-09-10T00:26:40.123Z''}"
  by (rule read_cursor_monotone)
    (simp_all add: sample_read_def, code_simp+)

end
