(* ===== verification/SmallStores.thy ===== *)
theory SmallStores
  imports Mappers
begin

text \<open>
  The stores of \<open>src/stores\<close> that hold one value or one list: \<open>serversStore.ts\<close>, \<open>usersStore.ts\<close>,
  \<open>selfStore.ts\<close>, \<open>discoverStore.ts\<close>, \<open>joinRequestStore.ts\<close>, \<open>friendsStore.ts\<close>,
  \<open>dmServerInvitesStore.ts\<close>, \<open>connectionStore.ts\<close>, \<open>voiceSessionStore.ts\<close>,
  \<open>dmVoiceSessionStore.ts\<close>, \<open>mediaDeviceStore.ts\<close> and \<open>noiseFilterStore.ts\<close>, and the two option
  tables of \<open>src/lib\<close> they feed: \<open>permissions.ts\<close> and \<open>screenShare.ts\<close>.
\<close>

section \<open>Spaces\<close>

record servers_state =
  ss_servers :: "server list"
  ss_activeServerId :: "u64 option"

definition servers_init :: servers_state where
  "servers_init = \<lparr>ss_servers = [], ss_activeServerId = None\<rparr>"

definition setServers :: "server list \<Rightarrow> servers_state \<Rightarrow> servers_state" where
  "setServers servers st = (let
     activeServerStillExists = (ss_activeServerId st \<noteq> None
       \<and> list_ex (\<lambda>s. Some (sv_id s) = ss_activeServerId st) servers)
   in st\<lparr>ss_servers := servers,
         ss_activeServerId := (if activeServerStillExists then ss_activeServerId st else None)\<rparr>)"

definition setActiveServerId :: "u64 option \<Rightarrow> servers_state \<Rightarrow> servers_state" where
  "setActiveServerId i st = (if ss_activeServerId st = i then st else st\<lparr>ss_activeServerId := i\<rparr>)"

text \<open>Loading the persisted part: only \<open>activeServerId\<close> is ever taken over; \<open>None\<close> when storage
  holds nothing.\<close>

definition servers_merge :: "u64 option option \<Rightarrow> servers_state \<Rightarrow> servers_state" where
  "servers_merge persisted current = (case persisted of None \<Rightarrow> current
     | Some i \<Rightarrow> current\<lparr>ss_activeServerId := i\<rparr>)"

lemma setServers_active:
  "ss_activeServerId (setServers servers st) = Some i \<longleftrightarrow>
     ss_activeServerId st = Some i \<and> i \<in> sv_id ` set servers"
  by (auto simp: setServers_def Let_def list_ex_iff)

section \<open>Users and self\<close>

record users_state =
  us_users :: "user list"
  byIdentity :: "(identity, user) rec"

definition users_init :: users_state where
  "users_init = \<lparr>us_users = [], byIdentity = []\<rparr>"

definition setUsers :: "user list \<Rightarrow> users_state \<Rightarrow> users_state" where
  "setUsers users st = \<lparr>us_users = users,
     byIdentity = foldl (\<lambda>by user. rec_set (u_identity user) user by) [] users\<rparr>"

definition getByIdentity :: "identity \<Rightarrow> users_state \<Rightarrow> user option" where
  "getByIdentity i st = map_of (byIdentity st) i"

record self_state =
  self_user :: "user option"

definition setUser :: "user option \<Rightarrow> self_state \<Rightarrow> self_state" where
  "setUser u st = st\<lparr>self_user := u\<rparr>"

text \<open>The lookup finds the last row of an identity.\<close>

lemma getByIdentity_setUsers:
  "getByIdentity i (setUsers users st) = find (\<lambda>u. u_identity u = i) (rev users)"
proof -
  have "map_of (foldl (\<lambda>by user. rec_set (u_identity user) user by) acc users) i
      = (case find (\<lambda>u. u_identity u = i) (rev users) of Some u \<Rightarrow> Some u | None \<Rightarrow> map_of acc i)" for acc
  proof (induction users rule: rev_induct)
    case (snoc u us)
    then show ?case by (auto split: option.splits)
  qed simp
  from this[of "[]"] show ?thesis
    by (auto simp: getByIdentity_def setUsers_def split: option.splits)
qed

section \<open>Discovery and join requests\<close>

record discover_state =
  dc_servers :: "discover_server list"

definition setDiscoverServers :: "discover_server list \<Rightarrow> discover_state \<Rightarrow> discover_state" where
  "setDiscoverServers servers st = st\<lparr>dc_servers := servers\<rparr>"

record join_request_state =
  myStatusByServer :: "(u64, join_request_status) rec"
  requestsByServer :: "(u64, join_request_with_user list) rec"

definition setRequests :: "(u64, join_request_status) rec \<Rightarrow> (u64, join_request_with_user list) rec
    \<Rightarrow> join_request_state \<Rightarrow> join_request_state" where
  "setRequests mine byServer st = st\<lparr>myStatusByServer := mine, requestsByServer := byServer\<rparr>"

section \<open>Friends\<close>

record friends_state =
  fs_friends :: "friend list"
  fs_blocked :: "user_block list"

definition setFriends :: "friend list \<Rightarrow> friends_state \<Rightarrow> friends_state" where
  "setFriends friends st = st\<lparr>fs_friends := friends\<rparr>"

definition setBlocked :: "user_block list \<Rightarrow> friends_state \<Rightarrow> friends_state" where
  "setBlocked blocked st = st\<lparr>fs_blocked := blocked\<rparr>"

section \<open>Invitations sent by direct message\<close>

record dm_server_invites_state =
  dsi_invites :: "dm_server_invite list"

definition setDmInvites :: "dm_server_invite list \<Rightarrow> dm_server_invites_state \<Rightarrow> dm_server_invites_state" where
  "setDmInvites invites st = st\<lparr>dsi_invites := invites\<rparr>"

definition addDmInvite :: "dm_server_invite \<Rightarrow> dm_server_invites_state \<Rightarrow> dm_server_invites_state" where
  "addDmInvite invite st = st\<lparr>dsi_invites := filter (\<lambda>i. di_id i \<noteq> di_id invite) (dsi_invites st) @ [invite]\<rparr>"

definition updateDmInvite :: "dm_server_invite \<Rightarrow> dm_server_invites_state \<Rightarrow> dm_server_invites_state" where
  "updateDmInvite invite st =
     st\<lparr>dsi_invites := map (\<lambda>i. if di_id i = di_id invite then invite else i) (dsi_invites st)\<rparr>"

definition removeDmInvite :: "u64 \<Rightarrow> dm_server_invites_state \<Rightarrow> dm_server_invites_state" where
  "removeDmInvite i st = st\<lparr>dsi_invites := filter (\<lambda>inv. di_id inv \<noteq> i) (dsi_invites st)\<rparr>"

definition pendingReceivedInvites :: "identity \<Rightarrow> dm_server_invites_state \<Rightarrow> dm_server_invite list" where
  "pendingReceivedInvites self st =
     filter (\<lambda>i. di_recipientIdentity i = self \<and> di_status i = InvPending) (dsi_invites st)"

section \<open>Connection status\<close>

datatype connection_status = Connecting | Connected | Disconnected | ConnError

record connection_state =
  cs_status :: connection_status
  cs_errorMessage :: "string option"
  cs_identity :: "identity option"
  cs_synced :: bool

definition connection_init :: connection_state where
  "connection_init = \<lparr>cs_status = Disconnected, cs_errorMessage = None, cs_identity = None, cs_synced = False\<rparr>"

definition setConnStatus :: "connection_status \<Rightarrow> string option \<Rightarrow> connection_state \<Rightarrow> connection_state" where
  "setConnStatus status msg st = st\<lparr>cs_status := status, cs_errorMessage := msg\<rparr>"

definition setConnIdentity :: "identity option \<Rightarrow> connection_state \<Rightarrow> connection_state" where
  "setConnIdentity i st = st\<lparr>cs_identity := i\<rparr>"

definition setSynced :: "bool \<Rightarrow> connection_state \<Rightarrow> connection_state" where
  "setSynced b st = st\<lparr>cs_synced := b\<rparr>"

section \<open>Voice sessions\<close>

text \<open>A LiveKit room is known by a number.\<close>

record voice_session_state =
  vss_room :: "nat option"
  joinedChannelId :: "u64 option"
  vss_joining :: bool
  vss_error :: "string option"

definition voice_session_init :: voice_session_state where
  "voice_session_init = \<lparr>vss_room = None, joinedChannelId = None, vss_joining = False, vss_error = None\<rparr>"

definition setRoom :: "nat option \<Rightarrow> voice_session_state \<Rightarrow> voice_session_state" where
  "setRoom r st = (if vss_room st = r then st else st\<lparr>vss_room := r\<rparr>)"

definition setJoinedChannelId :: "u64 option \<Rightarrow> voice_session_state \<Rightarrow> voice_session_state" where
  "setJoinedChannelId c st = (if joinedChannelId st = c then st else st\<lparr>joinedChannelId := c\<rparr>)"

definition setJoining :: "bool \<Rightarrow> voice_session_state \<Rightarrow> voice_session_state" where
  "setJoining b st = (if vss_joining st = b then st else st\<lparr>vss_joining := b\<rparr>)"

definition setVoiceError :: "string option \<Rightarrow> voice_session_state \<Rightarrow> voice_session_state" where
  "setVoiceError e st = (if vss_error st = e then st else st\<lparr>vss_error := e\<rparr>)"

definition voice_session_reset :: "voice_session_state \<Rightarrow> voice_session_state" where
  "voice_session_reset st = st\<lparr>vss_room := None, joinedChannelId := None, vss_joining := False, vss_error := None\<rparr>"

record dm_voice_session_state =
  dvs_room :: "nat option"
  joinedPartnerIdentity :: "identity option"
  answered :: bool
  dvs_joining :: bool
  dvs_error :: "string option"

definition dm_voice_session_init :: dm_voice_session_state where
  "dm_voice_session_init = \<lparr>dvs_room = None, joinedPartnerIdentity = None, answered = False,
     dvs_joining = False, dvs_error = None\<rparr>"

definition setDmRoom :: "nat option \<Rightarrow> dm_voice_session_state \<Rightarrow> dm_voice_session_state" where
  "setDmRoom r st = (if dvs_room st = r then st else st\<lparr>dvs_room := r\<rparr>)"

definition setJoinedPartnerIdentity :: "identity option \<Rightarrow> dm_voice_session_state \<Rightarrow> dm_voice_session_state" where
  "setJoinedPartnerIdentity i st = (if joinedPartnerIdentity st = i then st else st\<lparr>joinedPartnerIdentity := i\<rparr>)"

definition setAnswered :: "bool \<Rightarrow> dm_voice_session_state \<Rightarrow> dm_voice_session_state" where
  "setAnswered b st = (if answered st = b then st else st\<lparr>answered := b\<rparr>)"

definition setDmJoining :: "bool \<Rightarrow> dm_voice_session_state \<Rightarrow> dm_voice_session_state" where
  "setDmJoining b st = (if dvs_joining st = b then st else st\<lparr>dvs_joining := b\<rparr>)"

definition setDmVoiceError :: "string option \<Rightarrow> dm_voice_session_state \<Rightarrow> dm_voice_session_state" where
  "setDmVoiceError e st = (if dvs_error st = e then st else st\<lparr>dvs_error := e\<rparr>)"

definition dm_voice_session_reset :: "dm_voice_session_state \<Rightarrow> dm_voice_session_state" where
  "dm_voice_session_reset st = st\<lparr>dvs_room := None, joinedPartnerIdentity := None, answered := False,
     dvs_joining := False, dvs_error := None\<rparr>"

text \<open>The guards only spare a notification: every setter stores its argument.\<close>

lemma session_setters [simp]:
  "setRoom r st = st\<lparr>vss_room := r\<rparr>" "setJoinedChannelId c st = st\<lparr>joinedChannelId := c\<rparr>"
  "setJoining b st = st\<lparr>vss_joining := b\<rparr>" "setVoiceError e st = st\<lparr>vss_error := e\<rparr>"
  by (auto simp: setRoom_def setJoinedChannelId_def setJoining_def setVoiceError_def)

lemma dm_session_setters [simp]:
  "setDmRoom r st = st\<lparr>dvs_room := r\<rparr>" "setJoinedPartnerIdentity i st = st\<lparr>joinedPartnerIdentity := i\<rparr>"
  "setAnswered b st = st\<lparr>answered := b\<rparr>" "setDmJoining b st = st\<lparr>dvs_joining := b\<rparr>"
  "setDmVoiceError e st = st\<lparr>dvs_error := e\<rparr>"
  by (auto simp: setDmRoom_def setJoinedPartnerIdentity_def setAnswered_def setDmJoining_def setDmVoiceError_def)

section \<open>Media devices\<close>

datatype noise_filter_model = Rnnoise | Deepfilternet

record media_device_state =
  audioInputId :: "string option"
  audioOutputId :: "string option"
  videoInputId :: "string option"
  noiseFilterEnabled :: bool
  noiseFilterModel :: noise_filter_model
  screenShareQuality :: string
  screenShareAudio :: bool

definition media_device_init :: media_device_state where
  "media_device_init = \<lparr>audioInputId = None, audioOutputId = None, videoInputId = None,
     noiseFilterEnabled = True, noiseFilterModel = Rnnoise, screenShareQuality = ''auto'', screenShareAudio = False\<rparr>"

definition setAudioInputId :: "string option \<Rightarrow> media_device_state \<Rightarrow> media_device_state" where
  "setAudioInputId d st = (if audioInputId st = d then st else st\<lparr>audioInputId := d\<rparr>)"

definition setAudioOutputId :: "string option \<Rightarrow> media_device_state \<Rightarrow> media_device_state" where
  "setAudioOutputId d st = (if audioOutputId st = d then st else st\<lparr>audioOutputId := d\<rparr>)"

definition setVideoInputId :: "string option \<Rightarrow> media_device_state \<Rightarrow> media_device_state" where
  "setVideoInputId d st = (if videoInputId st = d then st else st\<lparr>videoInputId := d\<rparr>)"

definition setNoiseFilterEnabled :: "bool \<Rightarrow> media_device_state \<Rightarrow> media_device_state" where
  "setNoiseFilterEnabled b st = (if noiseFilterEnabled st = b then st else st\<lparr>noiseFilterEnabled := b\<rparr>)"

definition setNoiseFilterModel :: "noise_filter_model \<Rightarrow> media_device_state \<Rightarrow> media_device_state" where
  "setNoiseFilterModel m st = (if noiseFilterModel st = m then st else st\<lparr>noiseFilterModel := m\<rparr>)"

definition setScreenShareQuality :: "string \<Rightarrow> media_device_state \<Rightarrow> media_device_state" where
  "setScreenShareQuality q st = st\<lparr>screenShareQuality := q\<rparr>"

definition setScreenShareAudio :: "bool \<Rightarrow> media_device_state \<Rightarrow> media_device_state" where
  "setScreenShareAudio b st = st\<lparr>screenShareAudio := b\<rparr>"

definition toggleNoiseFilter :: "media_device_state \<Rightarrow> media_device_state" where
  "toggleNoiseFilter st = st\<lparr>noiseFilterEnabled := \<not> noiseFilterEnabled st\<rparr>"

datatype noise_filter_status = NfIdle | NfLoading | NfActive | NfOff | NfError

record noise_filter_state =
  nf_status :: noise_filter_status
  nf_error :: "string option"

definition noise_filter_init :: noise_filter_state where
  "noise_filter_init = \<lparr>nf_status = NfIdle, nf_error = None\<rparr>"

section \<open>Permissions\<close>

definition canManageChannels :: "role \<Rightarrow> bool" where
  "canManageChannels r \<longleftrightarrow> r \<noteq> Member"

definition canKickOrBanMembers :: "role \<Rightarrow> bool" where
  "canKickOrBanMembers r \<longleftrightarrow> r \<noteq> Member"

definition canKickOrBanModerators :: "role \<Rightarrow> bool" where
  "canKickOrBanModerators r \<longleftrightarrow> r = Owner"

definition canRenameServer :: "role \<Rightarrow> bool" where
  "canRenameServer r \<longleftrightarrow> r = Owner"

definition canSetRoles :: "role \<Rightarrow> bool" where
  "canSetRoles r \<longleftrightarrow> r = Owner"

definition canPostInModOnlyChannel :: "role \<Rightarrow> bool" where
  "canPostInModOnlyChannel r \<longleftrightarrow> r \<noteq> Member"

definition canInviteUsers :: "role \<Rightarrow> server_invite_policy \<Rightarrow> bool" where
  "canInviteUsers r p \<longleftrightarrow> p = Everyone \<or> r \<noteq> Member"

section \<open>Screen sharing options\<close>

record screen_share_profile =
  sp_label :: string
  sp_width :: int
  sp_height :: int
  sp_fps :: int
  sp_bitrate :: int

definition screenShareProfiles :: "(string, screen_share_profile) rec" where
  "screenShareProfiles = (let p = (\<lambda>label w h f b. \<lparr>sp_label = label, sp_width = w, sp_height = h, sp_fps = f, sp_bitrate = b\<rparr>) in
   [(''auto'', p ''Auto'' 1920 1080 60 8000000),
    (''720p30'', p (''1280 '' @ [CHR 0xD7] @ '' 720 / 30 FPS'') 1280 720 30 2000000),
    (''720p60'', p (''1280 '' @ [CHR 0xD7] @ '' 720 / 60 FPS'') 1280 720 60 4000000),
    (''1080p15'', p (''1920 '' @ [CHR 0xD7] @ '' 1080 / 15 FPS'') 1920 1080 15 2500000),
    (''1080p30'', p (''1920 '' @ [CHR 0xD7] @ '' 1080 / 30 FPS'') 1920 1080 30 5000000),
    (''1080p60'', p (''1920 '' @ [CHR 0xD7] @ '' 1080 / 60 FPS'') 1920 1080 60 8000000)])"

record video_preset =
  vpr_width :: int
  vpr_height :: int
  vpr_maxBitrate :: int
  vpr_maxFramerate :: int

datatype content_hint = HintNone | HintDetail | HintMotion
datatype degradation = Balanced | MaintainFramerate | MaintainResolution

text \<open>\<open>cap_audio\<close> is the channel count of the capture when sound is shared; its three processing
  switches are all off in that case and there is nothing else in the record.\<close>

record screen_share_options =
  cap_width :: int
  cap_height :: int
  cap_frameRate :: int
  cap_contentHint :: content_hint
  cap_audio :: "int option"
  cap_systemAudio :: bool
  pub_maxBitrate :: int
  pub_maxFramerate :: int
  pub_layers :: "video_preset list"
  pub_degradation :: degradation
  pub_audioMaxBitrate :: int

definition screenShareOptions :: "string \<Rightarrow> bool \<Rightarrow> screen_share_options" where
  "screenShareOptions quality audio = (let
     quality = (if quality \<in> set (rec_keys screenShareProfiles) then quality else ''auto'');
     profile = the (map_of screenShareProfiles quality);
     fps = sp_fps profile;
     layers = [\<lparr>vpr_width = 640, vpr_height = 360, vpr_maxBitrate = (if fps = 15 then 400000 else 800000),
       vpr_maxFramerate = min 30 fps\<rparr>];
     layers = (if sp_height profile > 720
       then layers @ [\<lparr>vpr_width = 1280, vpr_height = 720,
         vpr_maxBitrate = (if fps = 60 then 4000000 else if fps = 30 then 2000000 else 1500000), vpr_maxFramerate = fps\<rparr>]
       else layers)
   in \<lparr>cap_width = sp_width profile, cap_height = sp_height profile, cap_frameRate = fps,
       cap_contentHint = (if quality = ''auto'' then HintNone else if fps = 15 then HintDetail else HintMotion),
       cap_audio = (if audio then Some 2 else None), cap_systemAudio = audio,
       pub_maxBitrate = sp_bitrate profile, pub_maxFramerate = fps, pub_layers = layers,
       pub_degradation = (if quality = ''auto'' then Balanced else if fps = 60 then MaintainFramerate else MaintainResolution),
       pub_audioMaxBitrate = 96000\<rparr>)"

text \<open>whatever quality string storage holds, the published simulcast layers are a ladder below the
  main encoding: strictly fewer pixels, less than the main bit rate even when all layers of the ladder
  are added up, and no frame rate above the captured one.\<close>

theorem screen_share_ladder:
  "(let o1 = screenShareOptions quality audio in
     pub_layers o1 \<noteq> []
     \<and> list_all (\<lambda>l. vpr_height l < cap_height o1 \<and> vpr_width l < cap_width o1
         \<and> 0 < vpr_maxFramerate l \<and> vpr_maxFramerate l \<le> cap_frameRate o1) (pub_layers o1)
     \<and> sum_list (map vpr_maxBitrate (pub_layers o1)) < pub_maxBitrate o1
     \<and> sorted_wrt (\<lambda>a b. vpr_height a < vpr_height b \<and> vpr_maxBitrate a < vpr_maxBitrate b) (pub_layers o1)
     \<and> pub_maxFramerate o1 = cap_frameRate o1
     \<and> (cap_audio o1 = None \<longleftrightarrow> \<not> audio))"
proof (cases "quality \<in> set (rec_keys screenShareProfiles)")
  case True
  then have "quality \<in> {''auto'', ''720p30'', ''720p60'', ''1080p15'', ''1080p30'', ''1080p60''}"
    by (simp add: screenShareProfiles_def Let_def)
  then show ?thesis
    by (elim insertE emptyE; simp add: screenShareOptions_def screenShareProfiles_def Let_def)
next
  case False
  then have "screenShareOptions quality audio = screenShareOptions ''auto'' audio"
    by (simp add: screenShareOptions_def screenShareProfiles_def Let_def)
  then show ?thesis
    by (simp add: screenShareOptions_def screenShareProfiles_def Let_def)
qed

end
