(* ===== verification/UiStore.thy ===== *)
theory UiStore
  imports Mappers
begin

text \<open>
  \<open>src/stores/uiStore.ts\<close>: what is open, the unread counters, what is muted and the notification
  settings.
\<close>

section \<open>State\<close>

definition normalizeIdentityKey :: "identity \<Rightarrow> identity" where
  "normalizeIdentityKey i = js_lower (js_trim i)"

datatype notification_event =
    ChannelMessages | DirectMessages | FriendRequests | FriendAcceptedEvent | IncomingCalls | MissedCalls | Mentions

text \<open>\<open>eventToggles\<close> is a total record over the seven events.\<close>

record notification_settings =
  nt_enabled :: bool
  eventToggles :: "notification_event \<Rightarrow> bool"
  showPreviews :: bool
  quietHoursEnabled :: bool
  quietHoursStart :: string
  quietHoursEnd :: string

definition DEFAULT_NOTIFICATION_SETTINGS :: notification_settings where
  "DEFAULT_NOTIFICATION_SETTINGS = \<lparr>nt_enabled = True, eventToggles = (\<lambda>_. True), showPreviews = True,
     quietHoursEnabled = False, quietHoursStart = ''22:00'', quietHoursEnd = ''07:00''\<rparr>"

record ui_state =
  ui_activeChannelId :: "u64 option"
  ui_activeDmPartner :: "identity option"
  rightPanelOpen :: bool
  modals :: "(string, bool) rec"
  unreadByChannel :: "(u64, nat) rec"
  unreadByDmPartner :: "(identity, nat) rec"
  mutedChannels :: "(u64, bool) rec"
  mutedServers :: "(u64, bool) rec"
  mutedUsers :: "(identity, bool) rec"
  notificationSettings :: notification_settings

definition ui_init :: ui_state where
  "ui_init = \<lparr>ui_activeChannelId = None, ui_activeDmPartner = None, rightPanelOpen = False, modals = [],
     unreadByChannel = [], unreadByDmPartner = [], mutedChannels = [], mutedServers = [], mutedUsers = [],
     notificationSettings = DEFAULT_NOTIFICATION_SETTINGS\<rparr>"

section \<open>Operations\<close>

definition ui_setActiveChannelId :: "u64 option \<Rightarrow> ui_state \<Rightarrow> ui_state" where
  "ui_setActiveChannelId c st = (if ui_activeChannelId st = c then st else st\<lparr>ui_activeChannelId := c\<rparr>)"

definition setActiveDmPartner :: "identity option \<Rightarrow> ui_state \<Rightarrow> ui_state" where
  "setActiveDmPartner i st = (if ui_activeDmPartner st = i then st else st\<lparr>ui_activeDmPartner := i\<rparr>)"

definition toggleRightPanel :: "ui_state \<Rightarrow> ui_state" where
  "toggleRightPanel st = st\<lparr>rightPanelOpen := \<not> rightPanelOpen st\<rparr>"

definition setModal :: "string \<Rightarrow> bool \<Rightarrow> ui_state \<Rightarrow> ui_state" where
  "setModal name open st = (if map_of (modals st) name = Some open then st
     else st\<lparr>modals := rec_set name open (modals st)\<rparr>)"

definition incrementUnread :: "u64 \<Rightarrow> ui_state \<Rightarrow> ui_state" where
  "incrementUnread c st = st\<lparr>unreadByChannel := rec_set c (rec_or (unreadByChannel st) c 0 + 1) (unreadByChannel st)\<rparr>"

definition clearUnread :: "u64 \<Rightarrow> ui_state \<Rightarrow> ui_state" where
  "clearUnread c st = (if rec_or (unreadByChannel st) c 0 = 0 then st
     else st\<lparr>unreadByChannel := rec_set c 0 (unreadByChannel st)\<rparr>)"

definition incrementDmUnread :: "identity \<Rightarrow> ui_state \<Rightarrow> ui_state" where
  "incrementDmUnread i st = (let key = normalizeIdentityKey i in
     st\<lparr>unreadByDmPartner := rec_set key (rec_or (unreadByDmPartner st) key 0 + 1) (unreadByDmPartner st)\<rparr>)"

definition clearDmUnread :: "identity \<Rightarrow> ui_state \<Rightarrow> ui_state" where
  "clearDmUnread i st = (let key = normalizeIdentityKey i in
     if rec_or (unreadByDmPartner st) key 0 = 0 then st
     else st\<lparr>unreadByDmPartner := rec_set key 0 (unreadByDmPartner st)\<rparr>)"

definition toggleMutedChannel :: "u64 \<Rightarrow> ui_state \<Rightarrow> ui_state" where
  "toggleMutedChannel c st =
     st\<lparr>mutedChannels := rec_set c (\<not> rec_or (mutedChannels st) c False) (mutedChannels st)\<rparr>"

definition toggleMutedServer :: "u64 \<Rightarrow> ui_state \<Rightarrow> ui_state" where
  "toggleMutedServer s st =
     st\<lparr>mutedServers := rec_set s (\<not> rec_or (mutedServers st) s False) (mutedServers st)\<rparr>"

definition toggleMutedUser :: "identity \<Rightarrow> ui_state \<Rightarrow> ui_state" where
  "toggleMutedUser i st = (let key = normalizeIdentityKey i in
     st\<lparr>mutedUsers := rec_set key (\<not> rec_or (mutedUsers st) key False) (mutedUsers st)\<rparr>)"

definition setNotificationsEnabled :: "bool \<Rightarrow> ui_state \<Rightarrow> ui_state" where
  "setNotificationsEnabled b st = (if nt_enabled (notificationSettings st) = b then st
     else st\<lparr>notificationSettings := (notificationSettings st)\<lparr>nt_enabled := b\<rparr>\<rparr>)"

definition setNotificationEventEnabled :: "notification_event \<Rightarrow> bool \<Rightarrow> ui_state \<Rightarrow> ui_state" where
  "setNotificationEventEnabled e b st = (if eventToggles (notificationSettings st) e = b then st
     else st\<lparr>notificationSettings := (notificationSettings st)
       \<lparr>eventToggles := (eventToggles (notificationSettings st))(e := b)\<rparr>\<rparr>)"

definition setNotificationPreviewsEnabled :: "bool \<Rightarrow> ui_state \<Rightarrow> ui_state" where
  "setNotificationPreviewsEnabled b st = (if showPreviews (notificationSettings st) = b then st
     else st\<lparr>notificationSettings := (notificationSettings st)\<lparr>showPreviews := b\<rparr>\<rparr>)"

definition setNotificationQuietHoursEnabled :: "bool \<Rightarrow> ui_state \<Rightarrow> ui_state" where
  "setNotificationQuietHoursEnabled b st = (if quietHoursEnabled (notificationSettings st) = b then st
     else st\<lparr>notificationSettings := (notificationSettings st)\<lparr>quietHoursEnabled := b\<rparr>\<rparr>)"

definition setNotificationQuietHoursRange :: "string \<Rightarrow> string \<Rightarrow> ui_state \<Rightarrow> ui_state" where
  "setNotificationQuietHoursRange start finish st = (let
     normalizedStart = (if js_trim start = '''' then quietHoursStart DEFAULT_NOTIFICATION_SETTINGS else js_trim start);
     normalizedEnd = (if js_trim finish = '''' then quietHoursEnd DEFAULT_NOTIFICATION_SETTINGS else js_trim finish)
   in if quietHoursStart (notificationSettings st) = normalizedStart
         \<and> quietHoursEnd (notificationSettings st) = normalizedEnd then st
      else st\<lparr>notificationSettings := (notificationSettings st)
        \<lparr>quietHoursStart := normalizedStart, quietHoursEnd := normalizedEnd\<rparr>\<rparr>)"

text \<open>What is written to storage: everything but the open dialogs.\<close>

definition ui_partialize :: "ui_state \<Rightarrow> ui_state" where
  "ui_partialize st = st\<lparr>modals := []\<rparr>"

section \<open>What the store can be asked\<close>

datatype ui_op =
    SetActiveChannel "u64 option" | SetActiveDm "identity option" | ToggleRightPanel | SetModal string bool
  | IncrementUnread u64 | ClearUnread u64 | IncrementDmUnread identity | ClearDmUnread identity
  | ToggleMutedChannel u64 | ToggleMutedServer u64 | ToggleMutedUser identity
  | SetNotificationsEnabled bool | SetEventEnabled notification_event bool | SetPreviewsEnabled bool
  | SetQuietHoursEnabled bool | SetQuietHoursRange string string

fun ui_step :: "ui_op \<Rightarrow> ui_state \<Rightarrow> ui_state" where
  "ui_step (SetActiveChannel c) = ui_setActiveChannelId c"
| "ui_step (SetActiveDm i) = setActiveDmPartner i"
| "ui_step ToggleRightPanel = toggleRightPanel"
| "ui_step (SetModal n b) = setModal n b"
| "ui_step (IncrementUnread c) = incrementUnread c"
| "ui_step (ClearUnread c) = clearUnread c"
| "ui_step (IncrementDmUnread i) = incrementDmUnread i"
| "ui_step (ClearDmUnread i) = clearDmUnread i"
| "ui_step (ToggleMutedChannel c) = toggleMutedChannel c"
| "ui_step (ToggleMutedServer s) = toggleMutedServer s"
| "ui_step (ToggleMutedUser i) = toggleMutedUser i"
| "ui_step (SetNotificationsEnabled b) = setNotificationsEnabled b"
| "ui_step (SetEventEnabled e b) = setNotificationEventEnabled e b"
| "ui_step (SetPreviewsEnabled b) = setNotificationPreviewsEnabled b"
| "ui_step (SetQuietHoursEnabled b) = setNotificationQuietHoursEnabled b"
| "ui_step (SetQuietHoursRange s e) = setNotificationQuietHoursRange s e"

definition ui_run :: "ui_op list \<Rightarrow> ui_state \<Rightarrow> ui_state" where
  "ui_run ops st = foldl (\<lambda>st p. ui_step p st) st ops"

lemma ui_run_snoc [simp]: "ui_run (ops @ [p]) st = ui_step p (ui_run ops st)"
  by (simp add: ui_run_def)

lemma ui_run_Nil [simp]: "ui_run [] st = st"
  by (simp add: ui_run_def)

definition channel_unread :: "ui_state \<Rightarrow> u64 \<Rightarrow> nat" where
  "channel_unread st c = rec_or (unreadByChannel st) c 0"

definition dm_unread :: "ui_state \<Rightarrow> identity \<Rightarrow> nat" where
  "dm_unread st i = rec_or (unreadByDmPartner st) (normalizeIdentityKey i) 0"

definition channel_muted :: "ui_state \<Rightarrow> u64 \<Rightarrow> bool" where
  "channel_muted st c = rec_or (mutedChannels st) c False"

definition user_muted :: "ui_state \<Rightarrow> identity \<Rightarrow> bool" where
  "user_muted st i = rec_or (mutedUsers st) (normalizeIdentityKey i) False"

text \<open>The operations since the last one that clears.\<close>

definition since :: "('a \<Rightarrow> bool) \<Rightarrow> 'a list \<Rightarrow> 'a list" where
  "since clears ops = takeWhile (\<lambda>p. \<not> clears p) (rev ops)"

lemma since_snoc [simp]: "since P (ops @ [p]) = (if P p then [] else p # since P ops)"
  by (simp add: since_def)

lemma since_Nil [simp]: "since P [] = []"
  by (simp add: since_def)

definition counts_for_dm :: "identity \<Rightarrow> ui_op \<Rightarrow> bool" where
  "counts_for_dm i p \<longleftrightarrow> (case p of IncrementDmUnread j \<Rightarrow> normalizeIdentityKey j = normalizeIdentityKey i | _ \<Rightarrow> False)"

definition clears_dm :: "identity \<Rightarrow> ui_op \<Rightarrow> bool" where
  "clears_dm i p \<longleftrightarrow> (case p of ClearDmUnread j \<Rightarrow> normalizeIdentityKey j = normalizeIdentityKey i | _ \<Rightarrow> False)"

named_theorems ui_defs

lemmas [ui_defs] = ui_setActiveChannelId_def setActiveDmPartner_def toggleRightPanel_def setModal_def
  incrementUnread_def clearUnread_def incrementDmUnread_def clearDmUnread_def toggleMutedChannel_def
  toggleMutedServer_def toggleMutedUser_def setNotificationsEnabled_def setNotificationEventEnabled_def
  setNotificationPreviewsEnabled_def setNotificationQuietHoursEnabled_def setNotificationQuietHoursRange_def

lemma channel_unread_step:
  "channel_unread (ui_step p st) c = (if p = IncrementUnread c then channel_unread st c + 1
     else if p = ClearUnread c then 0 else channel_unread st c)"
  by (cases p) (simp_all add: channel_unread_def ui_defs Let_def)

lemma dm_unread_step:
  "dm_unread (ui_step p st) i = (if counts_for_dm i p then dm_unread st i + 1
     else if clears_dm i p then 0 else dm_unread st i)"
  by (cases p) (simp_all add: dm_unread_def ui_defs Let_def counts_for_dm_def clears_dm_def)


lemma channel_muted_step:
  "channel_muted (ui_step p st) c = (channel_muted st c \<noteq> (p = ToggleMutedChannel c))"
  by (cases p) (auto simp: channel_muted_def ui_defs Let_def)

text \<open>A channel is muted exactly when it has been toggled an odd number of times, and no other
  operation of the interface mutes or unmutes it.\<close>

lemma channel_muted_parity:
  "channel_muted (ui_run ops ui_init) c \<longleftrightarrow> odd (count_list ops (ToggleMutedChannel c))"
proof (induction ops rule: rev_induct)
  case (snoc p ops)
  then show ?case by (auto simp: channel_muted_step)
qed (simp add: channel_muted_def ui_init_def)

section \<open>Quiet hours\<close>

lemma quiet_hours_step:
  assumes "js_trim (quietHoursStart (notificationSettings st)) \<noteq> ''''"
    and "js_trim (quietHoursEnd (notificationSettings st)) \<noteq> ''''"
  shows "js_trim (quietHoursStart (notificationSettings (ui_step p st))) \<noteq> ''''
    \<and> js_trim (quietHoursEnd (notificationSettings (ui_step p st))) \<noteq> ''''"
proof -
  have d: "js_trim ''22:00'' = ''22:00''" "js_trim ''07:00'' = ''07:00''" by code_simp+
  show ?thesis
    using assms by (cases p) (simp_all add: ui_defs Let_def DEFAULT_NOTIFICATION_SETTINGS_def d)
qed

text \<open>The quiet hours are never blank, whatever was typed.\<close>

lemma quiet_hours_never_blank:
  "js_trim (quietHoursStart (notificationSettings (ui_run ops ui_init))) \<noteq> ''''
    \<and> js_trim (quietHoursEnd (notificationSettings (ui_run ops ui_init))) \<noteq> ''''"
proof (induction ops rule: rev_induct)
  case Nil
  have "js_trim ''22:00'' = ''22:00''" "js_trim ''07:00'' = ''07:00''" by code_simp+
  then show ?case by (simp add: ui_init_def DEFAULT_NOTIFICATION_SETTINGS_def)
qed (simp add: quiet_hours_step)

end
