(* ===== verification/ServerRail.thy ===== *)
theory ServerRail
  imports JsLib
begin

text \<open>
  \<open>src/stores/serverRailStore.ts\<close>: the order of the spaces in the rail and the groups they are
  folded into, with the gestures of \<open>src/layouts/app-layout/AppRail.tsx\<close> that drive it.
\<close>

section \<open>State and operations\<close>

record server_group =
  sg_id :: string
  sg_label :: string
  serverIds :: "u64 list"
  collapsed :: bool

datatype rail_item = RailServer u64 | RailGroup string

record rail_state =
  rail_order :: "rail_item list"
  rail_groups :: "(string, server_group) rec"

definition rail_init :: rail_state where
  "rail_init = \<lparr>rail_order = [], rail_groups = []\<rparr>"

text \<open>\<open>Date.now().toString(36)\<close>.\<close>

definition digit36 :: "nat \<Rightarrow> char" where
  "digit36 d = (if d < 10 then char_of (48 + d) else char_of (87 + d))"

fun show_base36 :: "nat \<Rightarrow> string" where
  "show_base36 n = (if n < 36 then [digit36 n] else show_base36 (n div 36) @ [digit36 (n mod 36)])"

declare show_base36.simps [simp del]

definition nextGroupId :: "nat \<Rightarrow> string" where
  "nextGroupId now = ''g_'' @ show_base36 now"

definition item_servers :: "(string, server_group) rec \<Rightarrow> rail_item \<Rightarrow> u64 list" where
  "item_servers gs item = (case item of RailServer i \<Rightarrow> [i]
     | RailGroup g \<Rightarrow> (case map_of gs g of Some gr \<Rightarrow> serverIds gr | None \<Rightarrow> []))"

definition sync_group :: "u64 list \<Rightarrow> (string, server_group) rec \<times> string list \<Rightarrow> string \<times> server_group
    \<Rightarrow> (string, server_group) rec \<times> string list" where
  "sync_group removed acc entry = (case (acc, entry) of ((gs, dissolve), (gid, g)) \<Rightarrow>
     let filtered = filter (\<lambda>i. i \<notin> set removed) (serverIds g) in
     if length filtered < 2 then (gs, dissolve @ [gid])
     else (rec_set gid (g\<lparr>serverIds := filtered\<rparr>) gs, dissolve))"

definition dissolve_group :: "u64 list \<Rightarrow> (string, server_group) rec
    \<Rightarrow> rail_item list \<times> (string, server_group) rec \<Rightarrow> string \<Rightarrow> rail_item list \<times> (string, server_group) rec" where
  "dissolve_group removed old acc gid = (case acc of (order, gs) \<Rightarrow>
     ((case map_of old gid of None \<Rightarrow> order
       | Some g \<Rightarrow> order @ map RailServer (filter (\<lambda>i. i \<notin> set removed) (serverIds g))),
      rec_del gid gs))"

definition syncServers :: "u64 list \<Rightarrow> rail_state \<Rightarrow> rail_state" where
  "syncServers ids st = (let
     known = concat (map (item_servers (rail_groups st)) (rail_order st));
     added = filter (\<lambda>i. i \<notin> set known) ids;
     removed = filter (\<lambda>i. i \<notin> set ids) known
   in if added = [] \<and> removed = [] then st else let
     (gs, dissolve) = foldl (sync_group removed) (rail_groups st, []) (rail_groups st);
     newOrder = filter (\<lambda>item. case item of RailServer i \<Rightarrow> i \<notin> set removed
       | RailGroup g \<Rightarrow> g \<notin> set dissolve) (rail_order st);
     (newOrder, gs) = foldl (dissolve_group removed (rail_groups st)) (newOrder, gs) dissolve
   in \<lparr>rail_order = newOrder @ map RailServer added, rail_groups = gs\<rparr>)"

definition setOrderAndGroups :: "rail_item list \<Rightarrow> (string, server_group) rec \<Rightarrow> rail_state \<Rightarrow> rail_state" where
  "setOrderAndGroups order gs st = \<lparr>rail_order = order, rail_groups = gs\<rparr>"

text \<open>\<open>newOrder.splice(Math.max(0, targetIndex), targetIndex < 0 ? 0 : 1, id)\<close>.\<close>

definition createGroup :: "nat \<Rightarrow> u64 \<Rightarrow> u64 \<Rightarrow> rail_state \<Rightarrow> rail_state" where
  "createGroup now source target st = (let gid = nextGroupId now;
     group = \<lparr>sg_id = gid, sg_label = ''Group'', serverIds = [target, source], collapsed = False\<rparr>;
     newOrder = filter (\<lambda>item. item \<noteq> RailServer source) (rail_order st);
     newOrder = (case find_index (\<lambda>item. item = RailServer target) newOrder of
        None \<Rightarrow> RailGroup gid # newOrder
      | Some i \<Rightarrow> take i newOrder @ RailGroup gid # drop (i + 1) newOrder)
   in \<lparr>rail_order = newOrder, rail_groups = rec_set gid group (rail_groups st)\<rparr>)"

definition addToGroup :: "u64 \<Rightarrow> string \<Rightarrow> rail_state \<Rightarrow> rail_state" where
  "addToGroup i gid st = (case map_of (rail_groups st) gid of None \<Rightarrow> st
     | Some g \<Rightarrow> if i \<in> set (serverIds g) then st
       else \<lparr>rail_order = filter (\<lambda>item. item \<noteq> RailServer i) (rail_order st),
             rail_groups = rec_set gid (g\<lparr>serverIds := serverIds g @ [i]\<rparr>) (rail_groups st)\<rparr>)"

definition removeFromGroup :: "u64 \<Rightarrow> string \<Rightarrow> rail_state \<Rightarrow> rail_state" where
  "removeFromGroup i gid st = (case map_of (rail_groups st) gid of None \<Rightarrow> st
     | Some g \<Rightarrow> if i \<notin> set (serverIds g) then st else let
         remaining = filter (\<lambda>x. x \<noteq> i) (serverIds g);
         idx = find_index (\<lambda>item. item = RailGroup gid) (rail_order st)
       in if length remaining \<ge> 2 then let
           at = (case idx of None \<Rightarrow> 0 | Some k \<Rightarrow> k + 1)
         in \<lparr>rail_order = take at (rail_order st) @ RailServer i # drop at (rail_order st),
             rail_groups = rec_set gid (g\<lparr>serverIds := remaining\<rparr>) (rail_groups st)\<rparr>
       else let
           before = (case idx of None \<Rightarrow> rail_order st | Some k \<Rightarrow> take k (rail_order st));
           after = (case idx of None \<Rightarrow> [] | Some k \<Rightarrow> drop (k + 1) (rail_order st))
         in \<lparr>rail_order = before @ map RailServer remaining @ [RailServer i] @ after,
             rail_groups = rec_del gid (rail_groups st)\<rparr>)"

definition toggleGroupCollapsed :: "string \<Rightarrow> rail_state \<Rightarrow> rail_state" where
  "toggleGroupCollapsed gid st = (case map_of (rail_groups st) gid of None \<Rightarrow> st
     | Some g \<Rightarrow> st\<lparr>rail_groups := rec_set gid (g\<lparr>collapsed := \<not> collapsed g\<rparr>) (rail_groups st)\<rparr>)"

definition renameGroup :: "string \<Rightarrow> string \<Rightarrow> rail_state \<Rightarrow> rail_state" where
  "renameGroup gid label st = (case map_of (rail_groups st) gid of None \<Rightarrow> st
     | Some g \<Rightarrow> if sg_label g = label then st
       else st\<lparr>rail_groups := rec_set gid (g\<lparr>sg_label := label\<rparr>) (rail_groups st)\<rparr>)"

section \<open>Every space is placed once\<close>

definition rail_servers :: "rail_state \<Rightarrow> u64 list" where
  "rail_servers st = concat (map (item_servers (rail_groups st)) (rail_order st))"

definition rail_wf :: "rail_state \<Rightarrow> bool" where
  "rail_wf st \<longleftrightarrow> rec_ok (rail_groups st) \<and> distinct (rail_order st) \<and> distinct (rail_servers st)
     \<and> (\<forall>g. RailGroup g \<in> set (rail_order st) \<longleftrightarrow> map_of (rail_groups st) g \<noteq> None)
     \<and> (\<forall>(k, g) \<in> set (rail_groups st). length (serverIds g) \<ge> 2)"

lemma item_servers_simps [simp]:
  "item_servers gs (RailServer i) = [i]"
  "item_servers gs (RailGroup g) = (case map_of gs g of Some gr \<Rightarrow> serverIds gr | None \<Rightarrow> [])"
  by (simp_all add: item_servers_def)

definition placed :: "(string, server_group) rec \<Rightarrow> rail_item list \<Rightarrow> u64 multiset" where
  "placed gs items = (\<Sum>item \<in># mset items. mset (item_servers gs item))"

lemma placed_simps [simp]:
  "placed gs [] = {#}" "placed gs (x # xs) = mset (item_servers gs x) + placed gs xs"
  "placed gs (xs @ ys) = placed gs xs + placed gs ys"
  by (simp_all add: placed_def)

lemma placed_servers [simp]: "placed gs (map RailServer xs) = mset xs"
  by (induction xs) simp_all

lemma mset_rail_servers: "mset (rail_servers st) = placed (rail_groups st) (rail_order st)"
  by (simp add: rail_servers_def placed_def mset_concat comp_def sum_mset_sum_list[symmetric])

lemma placed_cong: "(\<And>x. x \<in> set xs \<Longrightarrow> mset (item_servers gs x) = mset (item_servers gs' x)) \<Longrightarrow>
    placed gs xs = placed gs' xs"
  by (induction xs) simp_all

lemma placed_mset: "mset xs = mset ys \<Longrightarrow> placed gs xs = placed gs ys"
  by (simp add: placed_def)

lemma placed_split: "placed gs xs = placed gs (filter P xs) + placed gs (filter (\<lambda>x. \<not> P x) xs)"
  by (induction xs) (simp_all add: ac_simps)

lemma rail_wf_lookup: "rail_wf st \<Longrightarrow> map_of (rail_groups st) g = Some gr \<Longrightarrow>
    length (serverIds gr) \<ge> 2 \<and> RailGroup g \<in> set (rail_order st)
    \<and> set (serverIds gr) \<subseteq> set (rail_servers st) \<and> distinct (serverIds gr)"
proof -
  assume wf: "rail_wf st" and g: "map_of (rail_groups st) g = Some gr"
  then have o: "RailGroup g \<in> set (rail_order st)" by (auto simp: rail_wf_def)
  then obtain xs ys where "rail_order st = xs @ RailGroup g # ys" by (auto simp: in_set_conv_decomp)
  with wf g o show ?thesis
    by (auto simp: rail_wf_def rail_servers_def dest: map_of_SomeD)
qed

text \<open>Well-formedness through the multiset of placed spaces.\<close>

lemma rail_wf_iff:
  "rail_wf st \<longleftrightarrow> rec_ok (rail_groups st) \<and> distinct (rail_order st)
     \<and> (\<forall>i. count (placed (rail_groups st) (rail_order st)) i \<le> 1)
     \<and> (\<forall>g. RailGroup g \<in> set (rail_order st) \<longleftrightarrow> map_of (rail_groups st) g \<noteq> None)
     \<and> (\<forall>k g. map_of (rail_groups st) k = Some g \<longrightarrow> length (serverIds g) \<ge> 2)"
proof -
  have "distinct (rail_servers st) \<longleftrightarrow> (\<forall>i. count (placed (rail_groups st) (rail_order st)) i \<le> 1)"
    unfolding mset_rail_servers[symmetric] distinct_count_atmost_1
    by (metis count_greater_zero_iff count_mset_0_iff le_0_eq less_one linorder_not_le nat_less_le order.refl zero_le set_mset_mset)
  moreover have "rec_ok (rail_groups st) \<Longrightarrow> (\<forall>(k, g) \<in> set (rail_groups st). length (serverIds g) \<ge> 2)
      \<longleftrightarrow> (\<forall>k g. map_of (rail_groups st) k = Some g \<longrightarrow> length (serverIds g) \<ge> 2)"
    by (metis (mono_tags, lifting) case_prodD case_prodI2 rec_get_iff)
  ultimately show ?thesis by (auto simp: rail_wf_def)
qed

lemma distinct_count_list: "distinct xs \<Longrightarrow> count_list xs x \<le> 1"
  by (induction xs) (auto simp: count_list_0_iff)

lemma count_list_servers [simp]: "count_list (map RailServer xs) (RailGroup k) = 0"
  by (auto simp: count_list_0_iff)

lemma distinct_orderI:
  assumes "\<And>i. count (placed gs items) i \<le> 1" and "\<And>k. count_list items (RailGroup k) \<le> 1"
  shows "distinct items"
proof -
  have "count_list items (RailServer i) \<le> count (placed gs items) i" for i
    by (induction items) (auto split: rail_item.splits)
  with assms have "count_list items x \<le> 1" for x by (cases x) (auto intro: order_trans)
  then show ?thesis
  proof (induction items)
    case (Cons x xs)
    have "count_list xs y \<le> 1" for y using Cons.prems[of y] by (simp split: if_splits)
    moreover have "count_list xs x = 0" using Cons.prems[of x] by simp
    ultimately show ?case using Cons.IH by (auto simp: count_list_0_iff)
  qed simp
qed

lemma rail_wfI:
  assumes "rec_ok (rail_groups st)" and "\<And>k. count_list (rail_order st) (RailGroup k) \<le> 1"
    and "mset (rail_servers st) = mset ids" and "distinct ids"
    and "\<And>g. RailGroup g \<in> set (rail_order st) \<longleftrightarrow> map_of (rail_groups st) g \<noteq> None"
    and "\<And>k g. map_of (rail_groups st) k = Some g \<Longrightarrow> length (serverIds g) \<ge> 2"
  shows "rail_wf st"
proof -
  have c: "count (placed (rail_groups st) (rail_order st)) i \<le> 1" for i
    using assms(3,4) unfolding mset_rail_servers by (simp add: distinct_count_atmost_1)
  from distinct_orderI[OF c assms(2)] show ?thesis
    unfolding rail_wf_iff using assms c by auto
qed

section \<open>Synchronising with the joined spaces\<close>

abbreviation kept :: "u64 list \<Rightarrow> server_group \<Rightarrow> u64 list" where
  "kept removed g \<equiv> filter (\<lambda>i. i \<notin> set removed) (serverIds g)"

lemma sync_group_keys:
  "fst ` set (fst (foldl (sync_group removed) (gs, d) es)) \<subseteq> fst ` set gs \<union> fst ` set es
   \<and> (rec_ok gs \<longrightarrow> rec_ok (fst (foldl (sync_group removed) (gs, d) es)))
   \<and> snd (foldl (sync_group removed) (gs, d) es) = d @ map fst (filter (\<lambda>(k, g). length (kept removed g) < 2) es)"
proof (induction es arbitrary: gs d)
  case (Cons e es)
  obtain k g where e: "e = (k, g)" by (cases e)
  from Cons.IH[of gs "d @ [k]"] Cons.IH[of "rec_set k (g\<lparr>serverIds := kept removed g\<rparr>) gs" d]
  show ?case by (simp add: e sync_group_def Let_def) blast
qed simp

lemma sync_group_lookup:
  assumes "distinct (map fst es)"
  shows "map_of (fst (foldl (sync_group removed) (gs, d) es)) k
    = (case map_of es k of Some g \<Rightarrow> if length (kept removed g) < 2 then map_of gs k
         else Some (g\<lparr>serverIds := kept removed g\<rparr>) | None \<Rightarrow> map_of gs k)"
  using assms
proof (induction es arbitrary: gs d)
  case (Cons e es)
  obtain k' g where e: "e = (k', g)" by (cases e)
  with Cons.prems have "map_of es k' = None" by (simp add: map_of_eq_None_iff)
  with Cons e show ?case by (auto simp: sync_group_def Let_def split: option.splits)
qed simp

lemma dissolve_groups:
  "foldl (dissolve_group removed old) (order, gs) ks
    = (order @ concat (map (\<lambda>k. case map_of old k of None \<Rightarrow> []
         | Some g \<Rightarrow> map RailServer (kept removed g)) ks), foldl (\<lambda>gs k. rec_del k gs) gs ks)"
  by (induction ks arbitrary: order gs) (auto simp: dissolve_group_def split: option.splits)

lemma foldl_del: "map_of (foldl (\<lambda>gs k. rec_del k gs) gs ks) k = (if k \<in> set ks then None else map_of gs k)"
  by (induction ks arbitrary: gs) auto

lemma foldl_del_ok: "rec_ok gs \<Longrightarrow> rec_ok (foldl (\<lambda>gs k. rec_del k gs) gs ks)"
  by (induction ks arbitrary: gs) auto

text \<open>The result of a pass that changes something, in closed form.\<close>

lemma syncServers_result:
  assumes ok: "rec_ok (rail_groups st)"
    and change: "filter (\<lambda>i. i \<notin> set (rail_servers st)) ids \<noteq> [] \<or> filter (\<lambda>i. i \<notin> set ids) (rail_servers st) \<noteq> []"
  defines "removed \<equiv> filter (\<lambda>i. i \<notin> set ids) (rail_servers st)"
  defines "gone \<equiv> map fst (filter (\<lambda>(k, g). length (kept removed g) < 2) (rail_groups st))"
  shows "rail_order (syncServers ids st) = filter (\<lambda>item. case item of RailServer i \<Rightarrow> i \<notin> set removed
         | RailGroup g \<Rightarrow> g \<notin> set gone) (rail_order st)
       @ concat (map (\<lambda>k. case map_of (rail_groups st) k of None \<Rightarrow> []
           | Some g \<Rightarrow> map RailServer (kept removed g)) gone)
       @ map RailServer (filter (\<lambda>i. i \<notin> set (rail_servers st)) ids)"
    and "map_of (rail_groups (syncServers ids st)) k = (case map_of (rail_groups st) k of None \<Rightarrow> None
         | Some g \<Rightarrow> if length (kept removed g) < 2 then None else Some (g\<lparr>serverIds := kept removed g\<rparr>))"
    and "rec_ok (rail_groups (syncServers ids st))"
proof -
  let ?f = "foldl (sync_group removed) (rail_groups st, []) (rail_groups st)"
  have gone: "snd ?f = gone" using sync_group_keys[of removed "rail_groups st" "[]" "rail_groups st"] by (simp add: gone_def)
  have d: "distinct (map fst (rail_groups st))" using ok by (simp add: rec_ok_def)
  have c: "(filter (\<lambda>i. i \<notin> set (rail_servers st)) ids = [] \<and> removed = []) = False"
    using change by (auto simp: removed_def)
  have S: "syncServers ids st = (let (o2, g2) = foldl (dissolve_group removed (rail_groups st))
      (filter (\<lambda>item. case item of RailServer i \<Rightarrow> i \<notin> set removed | RailGroup g \<Rightarrow> g \<notin> set gone) (rail_order st), fst ?f) gone
    in \<lparr>rail_order = o2 @ map RailServer (filter (\<lambda>i. i \<notin> set (rail_servers st)) ids), rail_groups = g2\<rparr>)"
    unfolding syncServers_def Let_def rail_servers_def[symmetric] removed_def[symmetric] c if_False
    by (simp add: case_prod_beta gone)
  show "rail_order (syncServers ids st) = filter (\<lambda>item. case item of RailServer i \<Rightarrow> i \<notin> set removed
         | RailGroup g \<Rightarrow> g \<notin> set gone) (rail_order st)
       @ concat (map (\<lambda>k. case map_of (rail_groups st) k of None \<Rightarrow> []
           | Some g \<Rightarrow> map RailServer (kept removed g)) gone)
       @ map RailServer (filter (\<lambda>i. i \<notin> set (rail_servers st)) ids)"
    unfolding S dissolve_groups by simp
  have "k \<in> set gone \<longleftrightarrow> (\<exists>g. map_of (rail_groups st) k = Some g \<and> length (kept removed g) < 2)"
    using rec_get_iff[OF ok] by (force simp: gone_def)
  then show "map_of (rail_groups (syncServers ids st)) k = (case map_of (rail_groups st) k of None \<Rightarrow> None
         | Some g \<Rightarrow> if length (kept removed g) < 2 then None else Some (g\<lparr>serverIds := kept removed g\<rparr>))"
    unfolding S dissolve_groups by (auto simp: foldl_del sync_group_lookup[OF d] split: option.splits)
  show "rec_ok (rail_groups (syncServers ids st))"
    unfolding S dissolve_groups using sync_group_keys[of removed "rail_groups st" "[]" "rail_groups st"] ok
    by (simp add: foldl_del_ok)
qed

lemma mset_map_RailServer_concat:
  "placed gs (concat (map (\<lambda>k. case map_of old k of None \<Rightarrow> [] | Some g \<Rightarrow> map RailServer (f g)) ks))
    = (\<Sum>k \<in># mset ks. case map_of old k of None \<Rightarrow> {#} | Some g \<Rightarrow> mset (f g))"
  by (induction ks) (auto split: option.splits)

text \<open>
  The spaces placed afterwards: the joined ones among those placed before, and the new ones.
\<close>

lemma syncServers_placed:
  assumes wf: "rail_wf st"
    and change: "filter (\<lambda>i. i \<notin> set (rail_servers st)) ids \<noteq> [] \<or> filter (\<lambda>i. i \<notin> set ids) (rail_servers st) \<noteq> []"
  shows "placed (rail_groups (syncServers ids st)) (rail_order (syncServers ids st))
    = filter_mset (\<lambda>i. i \<in> set ids) (placed (rail_groups st) (rail_order st))
      + mset (filter (\<lambda>i. i \<notin> set (rail_servers st)) ids)"
proof -
  define removed where "removed = filter (\<lambda>i. i \<notin> set ids) (rail_servers st)"
  define gone where "gone = map fst (filter (\<lambda>(k, g). length (kept removed g) < 2) (rail_groups st))"
  define stays where "stays = (\<lambda>item. case item of RailServer i \<Rightarrow> i \<notin> set removed | RailGroup g \<Rightarrow> g \<notin> set gone)"
  have ok: "rec_ok (rail_groups st)" using wf by (simp add: rail_wf_def)
  note R = syncServers_result[OF ok change, folded removed_def, folded gone_def]
  let ?G = "rail_groups st" and ?G' = "rail_groups (syncServers ids st)"
  have gone: "k \<in> set gone \<longleftrightarrow> (\<exists>g. map_of ?G k = Some g \<and> length (kept removed g) < 2)" for k
    using rec_get_iff[OF ok] by (force simp: gone_def)
  have dgone: "distinct gone"
    using ok unfolding gone_def rec_ok_def by (simp add: distinct_map_filter)
  let ?P = "\<lambda>items. \<Sum>item \<in># mset items. filter_mset (\<lambda>i. i \<in> set ids) (mset (item_servers ?G item))"
  have kept_in: "kept removed g = filter (\<lambda>i. i \<in> set ids) (serverIds g)" if "map_of ?G k = Some g" for k g
    using rail_wf_lookup[OF wf that] by (auto simp: removed_def intro!: filter_cong)
  have in_srv: "i \<in> set (rail_servers st)" if "RailServer i \<in> set (rail_order st)" for i
    using that by (force simp: rail_servers_def)
  have stay: "placed ?G' (filter stays (rail_order st)) = ?P (filter stays (rail_order st))"
    unfolding placed_def
  proof (intro arg_cong[of _ _ sum_mset] image_mset_cong)
    fix x assume "x \<in># mset (filter stays (rail_order st))"
    then have x: "x \<in> set (rail_order st)" "stays x" by auto
    show "mset (item_servers ?G' x) = filter_mset (\<lambda>i. i \<in> set ids) (mset (item_servers ?G x))"
    proof (cases x)
      case (RailServer i)
      with x in_srv show ?thesis by (auto simp: stays_def removed_def)
    next
      case (RailGroup g)
      with x wf obtain gr where gr: "map_of ?G g = Some gr" by (auto simp: rail_wf_def)
      with x RailGroup have "\<not> length (kept removed gr) < 2" by (auto simp: stays_def gone)
      with gr show ?thesis using kept_in[OF gr] by (simp add: RailGroup R(2) mset_filter)
    qed
  qed
  have Psplit: "?P items = ?P (filter Q items) + ?P (filter (\<lambda>x. \<not> Q x) items)" for Q items
    by (induction items) (simp_all add: ac_simps)
  let ?N = "filter (\<lambda>x. \<not> stays x) (rail_order st)"
  let ?isg = "\<lambda>x. case x of RailGroup g \<Rightarrow> True | RailServer i \<Rightarrow> False"
  have "set (filter ?isg ?N) = set (map RailGroup gone)"
  proof (intro set_eqI iffI)
    fix x assume "x \<in> set (filter ?isg ?N)"
    then have "?isg x" "\<not> stays x" unfolding set_filter by blast+
    then show "x \<in> set (map RailGroup gone)" by (cases x) (simp_all add: stays_def)
  next
    fix x assume "x \<in> set (map RailGroup gone)"
    then obtain g where g: "x = RailGroup g" "g \<in> set gone" by auto
    then have "RailGroup g \<in> set (rail_order st)" using gone rail_wf_lookup[OF wf] by blast
    with g show "x \<in> set (filter ?isg ?N)" by (simp add: stays_def)
  qed
  then have m: "mset (filter ?isg ?N) = mset (map RailGroup gone)"
    using wf dgone by (subst set_eq_iff_mset_eq_distinct[symmetric]) (simp_all add: rail_wf_def distinct_map inj_on_def)
  have z: "?P (filter (\<lambda>x. \<not> ?isg x) (filter (\<lambda>x. \<not> stays x) items)) = {#}" for items
  proof (rule sum_mset.neutral, intro ballI)
    fix y assume "y \<in># image_mset (\<lambda>x. filter_mset (\<lambda>i. i \<in> set ids) (mset (item_servers ?G x)))
      (mset (filter (\<lambda>x. \<not> ?isg x) (filter (\<lambda>x. \<not> stays x) items)))"
    then obtain x where x: "y = filter_mset (\<lambda>i. i \<in> set ids) (mset (item_servers ?G x))"
        "x \<in> set (filter (\<lambda>x. \<not> ?isg x) (filter (\<lambda>x. \<not> stays x) items))"
      unfolding set_image_mset set_mset_mset by (rule imageE)
    then have "\<not> ?isg x" "\<not> stays x" unfolding set_filter by blast+
    then show "y = {#}" unfolding x(1) by (cases x) (simp_all add: stays_def removed_def)
  qed
  have go: "(\<Sum>k \<in># mset gone. case map_of ?G k of None \<Rightarrow> {#} | Some g \<Rightarrow> mset (kept removed g)) = ?P ?N"
  proof -
    have "?P ?N = ?P (filter ?isg ?N)" by (subst Psplit[of ?N ?isg]) (simp only: z add.right_neutral)
    also have "\<dots> = ?P (map RailGroup gone)" unfolding m ..
    also have "\<dots> = (\<Sum>k \<in># mset gone. filter_mset (\<lambda>i. i \<in> set ids) (mset (item_servers ?G (RailGroup k))))"
      by (simp add: image_mset.compositionality comp_def)
    also have "\<dots> = (\<Sum>k \<in># mset gone. case map_of ?G k of None \<Rightarrow> {#} | Some g \<Rightarrow> mset (kept removed g))"
      using kept_in by (intro arg_cong[of _ _ sum_mset] image_mset_cong) (auto simp: mset_filter split: option.splits)
    finally show ?thesis by simp
  qed
  have all: "filter_mset (\<lambda>i. i \<in> set ids) (placed ?G items) = ?P items" for items
    by (induction items) simp_all
  show ?thesis
    unfolding all Psplit[of "rail_order st" stays] R(1)[folded stays_def] placed_simps mset_map_RailServer_concat placed_servers stay go
    by simp
qed

lemma syncServers_unchanged:
  "filter (\<lambda>i. i \<notin> set (rail_servers st)) ids = [] \<Longrightarrow> filter (\<lambda>i. i \<notin> set ids) (rail_servers st) = []
    \<Longrightarrow> syncServers ids st = st"
  by (simp add: syncServers_def Let_def rail_servers_def)

lemma syncServers_wf:
  assumes wf: "rail_wf st" and ids: "distinct ids"
  shows "rail_wf (syncServers ids st) \<and> mset (rail_servers (syncServers ids st)) = mset ids"
proof (cases "filter (\<lambda>i. i \<notin> set (rail_servers st)) ids = [] \<and> filter (\<lambda>i. i \<notin> set ids) (rail_servers st) = []")
  case True
  then have "set ids = set (rail_servers st)" by (auto simp: filter_empty_conv)
  moreover have "distinct (rail_servers st)" using wf by (simp add: rail_wf_def)
  ultimately have "mset ids = mset (rail_servers st)"
    using ids by (simp add: set_eq_iff_mset_eq_distinct)
  moreover have "syncServers ids st = st" using True by (intro syncServers_unchanged) blast+
  ultimately show ?thesis using wf by simp
next
  case False
  then have change: "filter (\<lambda>i. i \<notin> set (rail_servers st)) ids \<noteq> [] \<or> filter (\<lambda>i. i \<notin> set ids) (rail_servers st) \<noteq> []"
    by blast
  have ok: "rec_ok (rail_groups st)" using wf by (simp add: rail_wf_def)
  define removed where "removed = filter (\<lambda>i. i \<notin> set ids) (rail_servers st)"
  define gone where "gone = map fst (filter (\<lambda>(k, g). length (kept removed g) < 2) (rail_groups st))"
  note R = syncServers_result[OF ok change, folded removed_def, folded gone_def]
  have gone: "k \<in> set gone \<longleftrightarrow> (\<exists>g. map_of (rail_groups st) k = Some g \<and> length (kept removed g) < 2)" for k
    using rec_get_iff[OF ok] by (force simp: gone_def)
  have P: "mset (rail_servers (syncServers ids st)) = mset ids"
  proof -
    have "filter_mset (\<lambda>i. i \<in> set ids) (mset (rail_servers st)) = mset (filter (\<lambda>i. i \<in> set (rail_servers st)) ids)"
      using wf ids unfolding mset_filter[symmetric]
      by (subst set_eq_iff_mset_eq_distinct[symmetric]) (auto simp: rail_wf_def)
    then show ?thesis
      using syncServers_placed[OF wf change] by (simp add: mset_rail_servers[symmetric] multiset_partition[symmetric])
  qed
  have groups: "RailGroup g \<in> set (rail_order (syncServers ids st)) \<longleftrightarrow> map_of (rail_groups (syncServers ids st)) g \<noteq> None" for g
    using wf by (auto simp: R(1,2) rail_wf_def gone split: option.splits if_splits)
  have two: "length (serverIds gr) \<ge> 2" if "map_of (rail_groups (syncServers ids st)) g = Some gr" for g gr
    using that unfolding R(2) by (auto split: option.splits if_splits)
  have g: "count_list (rail_order (syncServers ids st)) (RailGroup k) \<le> 1" for k
  proof -
    have "count_list (concat (map (\<lambda>k. case map_of (rail_groups st) k of None \<Rightarrow> []
         | Some g \<Rightarrow> map RailServer (kept removed g)) ks)) (RailGroup k) = 0" for ks
      by (induction ks) (auto split: option.splits simp: count_list_0_iff)
    moreover have "count_list (filter P (rail_order st)) (RailGroup k) \<le> 1" for P
      using wf by (intro distinct_count_list) (simp add: rail_wf_def)
    ultimately show ?thesis by (simp add: R(1) count_list_servers)
  qed
  have "rail_wf (syncServers ids st)"
    by (rule rail_wfI[OF R(3) g P ids groups two])
  with P show ?thesis by simp
qed

section \<open>Dragging\<close>

lemma find_index_split: "x \<notin> set xs \<Longrightarrow> find_index (\<lambda>y. y = x) (xs @ x # ys) = Some (length xs)"
  by (induction xs) auto

lemma placed_set_fresh [simp]: "RailGroup gid \<notin> set xs \<Longrightarrow> placed (rec_set gid g gs) xs = placed gs xs"
  by (rule placed_cong) (auto simp: item_servers_def split: rail_item.splits)

lemma placed_del_fresh [simp]: "RailGroup gid \<notin> set xs \<Longrightarrow> placed (rec_del gid gs) xs = placed gs xs"
  by (rule placed_cong) (auto simp: item_servers_def split: rail_item.splits)

lemma placed_take_server:
  "distinct items \<Longrightarrow> RailServer i \<in> set items \<Longrightarrow>
    placed gs items = {#i#} + placed gs (filter (\<lambda>x. x \<noteq> RailServer i) items)"
proof (induction items)
  case (Cons x xs)
  then show ?case
  proof (cases "x = RailServer i")
    case True
    with Cons.prems have "filter (\<lambda>x. x \<noteq> RailServer i) xs = xs" by (intro filter_True) auto
    with True show ?thesis by simp
  qed auto
qed simp

lemma order_split:
  assumes "distinct items" and "x \<in> set items"
  obtains xs ys where "items = xs @ x # ys" "x \<notin> set xs" "x \<notin> set ys"
proof -
  from assms(2) obtain xs ys where "items = xs @ x # ys" by (auto simp: in_set_conv_decomp)
  with assms(1) show ?thesis by (intro that) auto
qed

lemma mset_remove_one: "distinct xs \<Longrightarrow> i \<in> set xs \<Longrightarrow> mset (filter (\<lambda>x. x \<noteq> i) xs) + {#i#} = mset xs"
proof (induction xs)
  case (Cons x xs)
  then show ?case
  proof (cases "x = i")
    case True
    with Cons.prems have "filter (\<lambda>x. x \<noteq> i) xs = xs" by (intro filter_True) auto
    with True show ?thesis by simp
  qed auto
qed simp

text \<open>What a step of a drag has to show.\<close>

lemma rail_stepI:
  assumes wf: "rail_wf st" and "rec_ok (rail_groups st')"
    and "\<And>k. count_list (rail_order st') (RailGroup k) \<le> 1"
    and "placed (rail_groups st') (rail_order st') = placed (rail_groups st) (rail_order st)"
    and "\<And>g. RailGroup g \<in> set (rail_order st') \<longleftrightarrow> map_of (rail_groups st') g \<noteq> None"
    and "\<And>k g. map_of (rail_groups st') k = Some g \<Longrightarrow> length (serverIds g) \<ge> 2"
  shows "rail_wf st' \<and> mset (rail_servers st') = mset (rail_servers st)"
proof -
  have m: "mset (rail_servers st') = mset (rail_servers st)" unfolding mset_rail_servers by (rule assms(4))
  have "distinct (rail_servers st)" using wf by (simp add: rail_wf_def)
  from rail_wfI[OF assms(2,3) m this assms(5,6)] m show ?thesis by simp
qed

lemma removeFromGroup_step:
  assumes wf: "rail_wf st"
  shows "rail_wf (removeFromGroup i gid st) \<and> mset (rail_servers (removeFromGroup i gid st)) = mset (rail_servers st)"
proof (cases "\<exists>g. map_of (rail_groups st) gid = Some g \<and> i \<in> set (serverIds g)")
  case False
  then have "removeFromGroup i gid st = st" by (auto simp: removeFromGroup_def split: option.splits)
  with wf show ?thesis by simp
next
  case True
  then obtain g where g: "map_of (rail_groups st) gid = Some g" "i \<in> set (serverIds g)" by blast
  note L = rail_wf_lookup[OF wf g(1)]
  have ok: "rec_ok (rail_groups st)" and d: "distinct (rail_order st)"
    and iff: "\<And>g. RailGroup g \<in> set (rail_order st) \<longleftrightarrow> map_of (rail_groups st) g \<noteq> None"
    and two: "\<And>k g. map_of (rail_groups st) k = Some g \<Longrightarrow> length (serverIds g) \<ge> 2"
    using wf by (auto simp: rail_wf_iff)
  from order_split[OF d, of "RailGroup gid"] L obtain xs ys
    where o: "rail_order st = xs @ RailGroup gid # ys" "RailGroup gid \<notin> set xs" "RailGroup gid \<notin> set ys" by blast
  have f: "find_index (\<lambda>item. item = RailGroup gid) (xs @ RailGroup gid # ys) = Some (length xs)"
    by (rule find_index_split[OF o(2)])
  have c: "count_list (rail_order st) (RailGroup k) \<le> 1" for k by (rule distinct_count_list[OF d])
  define rem where "rem = filter (\<lambda>x. x \<noteq> i) (serverIds g)"
  have m: "mset rem + {#i#} = mset (serverIds g)" unfolding rem_def using L g(2) by (intro mset_remove_one) blast+
  show ?thesis
  proof (cases "length rem \<ge> 2")
    case True
    then have st': "removeFromGroup i gid st = \<lparr>rail_order = xs @ RailGroup gid # RailServer i # ys,
        rail_groups = rec_set gid (g\<lparr>serverIds := rem\<rparr>) (rail_groups st)\<rparr>"
      by (simp add: removeFromGroup_def g Let_def f o(1) rem_def)
    show ?thesis unfolding st'
    proof (rule rail_stepI[OF wf], simp_all only: rail_state.simps)
      show "placed (rec_set gid (g\<lparr>serverIds := rem\<rparr>) (rail_groups st)) (xs @ RailGroup gid # RailServer i # ys)
          = placed (rail_groups st) (rail_order st)"
        using o(2,3) by (simp add: o(1) g(1) m[symmetric])
      show "count_list (xs @ RailGroup gid # RailServer i # ys) (RailGroup k) \<le> 1" for k
        using c[of k] by (simp add: o(1) split: if_splits)
      show "(RailGroup k \<in> set (xs @ RailGroup gid # RailServer i # ys)) =
          (map_of (rec_set gid (g\<lparr>serverIds := rem\<rparr>) (rail_groups st)) k \<noteq> None)" for k
        using iff[of k] by (auto simp: o(1))
      show "length (serverIds g') \<ge> 2"
        if "map_of (rec_set gid (g\<lparr>serverIds := rem\<rparr>) (rail_groups st)) k = Some g'" for k g'
        using that True two by (auto split: if_splits)
    qed (rule rec_ok_set[OF ok])
  next
    case False
    then have st': "removeFromGroup i gid st = \<lparr>rail_order = xs @ map RailServer rem @ [RailServer i] @ ys,
        rail_groups = rec_del gid (rail_groups st)\<rparr>"
      by (simp add: removeFromGroup_def g Let_def f o(1) rem_def)
    have mr: "placed gs (map RailServer rem) = mset rem" for gs by (rule placed_servers)
    have cr: "count_list (map RailServer rem) (RailGroup k) = 0" for k by (rule count_list_servers)
    have nr: "RailGroup k \<notin> set (map RailServer rem)" for k by auto
    show ?thesis unfolding st'
    proof (rule rail_stepI[OF wf], simp_all only: rail_state.simps)
      show "placed (rec_del gid (rail_groups st)) (xs @ map RailServer rem @ [RailServer i] @ ys)
          = placed (rail_groups st) (rail_order st)"
        using o(2,3) unfolding placed_simps mr o(1) by (simp add: g(1) m[symmetric] ac_simps)
      show "count_list (xs @ map RailServer rem @ [RailServer i] @ ys) (RailGroup k) \<le> 1" for k
        using c[of k] unfolding o(1) count_list_append cr by (simp split: if_splits)
      show "(RailGroup k \<in> set (xs @ map RailServer rem @ [RailServer i] @ ys)) =
          (map_of (rec_del gid (rail_groups st)) k \<noteq> None)" for k
        using iff[of k] o(2,3) nr[of k] unfolding o(1) set_append by auto
      show "length (serverIds g') \<ge> 2" if "map_of (rec_del gid (rail_groups st)) k = Some g'" for k g'
        using that two by (auto split: if_splits)
    qed (rule rec_ok_del[OF ok])
  qed
qed

lemma grouped_not_bare:
  assumes "rail_wf st" and "map_of (rail_groups st) gid = Some g" and "RailServer i \<in> set (rail_order st)"
  shows "i \<notin> set (serverIds g)"
proof
  assume i: "i \<in> set (serverIds g)"
  have c: "count (placed (rail_groups st) (rail_order st)) i \<le> 1" and d: "distinct (rail_order st)"
    using assms(1) by (auto simp: rail_wf_iff)
  have "RailGroup gid \<in> set (filter (\<lambda>x. x \<noteq> RailServer i) (rail_order st))"
    using rail_wf_lookup[OF assms(1,2)] by simp
  then obtain xs ys where "filter (\<lambda>x. x \<noteq> RailServer i) (rail_order st) = xs @ RailGroup gid # ys"
    by (auto simp: in_set_conv_decomp)
  with placed_take_server[OF d assms(3), of "rail_groups st"] c assms(2) i show False
    by (simp add: count_list_0_iff flip: count_mset)
qed

lemma addToGroup_step:
  assumes wf: "rail_wf st" and bare: "RailServer i \<in> set (rail_order st)"
  shows "rail_wf (addToGroup i gid st) \<and> mset (rail_servers (addToGroup i gid st)) = mset (rail_servers st)"
proof (cases "map_of (rail_groups st) gid")
  case None
  with wf show ?thesis by (simp add: addToGroup_def)
next
  case (Some g)
  have ok: "rec_ok (rail_groups st)" and d: "distinct (rail_order st)"
    and iff: "\<And>g. RailGroup g \<in> set (rail_order st) \<longleftrightarrow> map_of (rail_groups st) g \<noteq> None"
    and two: "\<And>k g. map_of (rail_groups st) k = Some g \<Longrightarrow> length (serverIds g) \<ge> 2"
    using wf by (auto simp: rail_wf_iff)
  let ?O = "filter (\<lambda>item. item \<noteq> RailServer i) (rail_order st)"
  let ?G = "rec_set gid (g\<lparr>serverIds := serverIds g @ [i]\<rparr>) (rail_groups st)"
  have st': "addToGroup i gid st = \<lparr>rail_order = ?O, rail_groups = ?G\<rparr>"
    using grouped_not_bare[OF wf Some bare] by (simp add: addToGroup_def Some)
  have "distinct ?O" "RailGroup gid \<in> set ?O" using d rail_wf_lookup[OF wf Some] by auto
  from order_split[OF this] obtain xs ys
    where o: "?O = xs @ RailGroup gid # ys" "RailGroup gid \<notin> set xs" "RailGroup gid \<notin> set ys" by blast
  show ?thesis unfolding st'
  proof (rule rail_stepI[OF wf], simp_all only: rail_state.simps)
    show "placed ?G ?O = placed (rail_groups st) (rail_order st)"
      unfolding placed_take_server[OF d bare] o(1) using o(2,3) by (simp add: Some)
    show "count_list ?O (RailGroup k) \<le> 1" for k using d by (intro distinct_count_list) simp
    show "(RailGroup k \<in> set ?O) = (map_of ?G k \<noteq> None)" for k using iff[of k] iff[of gid] Some by auto
    show "length (serverIds g') \<ge> 2" if "map_of ?G k = Some g'" for k g'
      using that two Some by (fastforce split: if_splits)
  qed (rule rec_ok_set[OF ok])
qed

lemma createGroup_step:
  assumes wf: "rail_wf st" and bare: "RailServer i \<in> set (rail_order st)" "RailServer t \<in> set (rail_order st)"
    and neq: "i \<noteq> t" and fresh: "map_of (rail_groups st) (nextGroupId now) = None"
  shows "rail_wf (createGroup now i t st) \<and> mset (rail_servers (createGroup now i t st)) = mset (rail_servers st)"
proof -
  have ok: "rec_ok (rail_groups st)" and d: "distinct (rail_order st)"
    and iff: "\<And>g. RailGroup g \<in> set (rail_order st) \<longleftrightarrow> map_of (rail_groups st) g \<noteq> None"
    and two: "\<And>k g. map_of (rail_groups st) k = Some g \<Longrightarrow> length (serverIds g) \<ge> 2"
    using wf by (auto simp: rail_wf_iff)
  let ?O = "filter (\<lambda>item. item \<noteq> RailServer i) (rail_order st)"
  let ?g = "nextGroupId now"
  let ?G = "rec_set ?g \<lparr>sg_id = ?g, sg_label = ''Group'', serverIds = [t, i], collapsed = False\<rparr> (rail_groups st)"
  have "distinct ?O" "RailServer t \<in> set ?O" using d bare neq by auto
  from order_split[OF this] obtain xs ys
    where o: "?O = xs @ RailServer t # ys" "RailServer t \<notin> set xs" "RailServer t \<notin> set ys" by blast
  have st': "createGroup now i t st = \<lparr>rail_order = xs @ RailGroup ?g # ys, rail_groups = ?G\<rparr>"
    using find_index_split[OF o(2), of ys] by (simp add: createGroup_def Let_def o(1))
  have new: "RailGroup ?g \<notin> set ?O" using iff[of ?g] fresh by simp
  have mem: "RailGroup k \<in> set (rail_order st) \<longleftrightarrow> RailGroup k \<in> set xs \<or> RailGroup k \<in> set ys" for k
  proof -
    have "RailGroup k \<in> set (rail_order st) \<longleftrightarrow> RailGroup k \<in> set ?O" by simp
    then show ?thesis unfolding o(1) by simp
  qed
  show ?thesis unfolding st'
  proof (rule rail_stepI[OF wf], simp_all only: rail_state.simps)
    show "placed ?G (xs @ RailGroup ?g # ys) = placed (rail_groups st) (rail_order st)"
      unfolding placed_take_server[OF d bare(1)] o(1) using new unfolding o(1) by simp
    show "count_list (xs @ RailGroup ?g # ys) (RailGroup k) \<le> 1" for k
    proof -
      have "count_list ?O (RailGroup k) \<le> 1" by (rule distinct_count_list) (simp add: d)
      moreover have "RailGroup ?g \<notin> set xs" "RailGroup ?g \<notin> set ys" using new unfolding o(1) by auto
      ultimately show ?thesis unfolding o(1) by (auto simp: count_list_0_iff)
    qed
    show "(RailGroup k \<in> set (xs @ RailGroup ?g # ys)) = (map_of ?G k \<noteq> None)" for k
      using iff[of k] mem[of k] by auto
    show "length (serverIds g') \<ge> 2" if "map_of ?G k = Some g'" for k g'
      using that two by (auto split: if_splits)
  qed (rule rec_ok_set[OF ok])
qed

text \<open>
  The drop of a space on another space or on a group (the \<open>group\<close> intent of \<open>handleDragEnd\<close>): a
  space dragged out of a group leaves it first.
\<close>

datatype drop_target = OnServer u64 | OnGroup string

definition drop_into :: "nat \<Rightarrow> u64 \<Rightarrow> string option \<Rightarrow> drop_target \<Rightarrow> rail_state \<Rightarrow> rail_state" where
  "drop_into now source sourceGroup target st = (let
     st = (case sourceGroup of Some g \<Rightarrow> removeFromGroup source g st | None \<Rightarrow> st)
   in case target of OnGroup g \<Rightarrow> addToGroup source g st | OnServer t \<Rightarrow> createGroup now source t st)"

text \<open>What can be picked up and dropped: a bare space or a member of the group it is shown in, on
  another bare space or on a group, at a time stamp that names no group yet.\<close>

definition can_drop :: "nat \<Rightarrow> u64 \<Rightarrow> string option \<Rightarrow> drop_target \<Rightarrow> rail_state \<Rightarrow> bool" where
  "can_drop now source sourceGroup target st \<longleftrightarrow>
     (case sourceGroup of None \<Rightarrow> RailServer source \<in> set (rail_order st)
      | Some g \<Rightarrow> (case map_of (rail_groups st) g of None \<Rightarrow> False | Some gr \<Rightarrow> source \<in> set (serverIds gr)))
     \<and> (case target of OnGroup g \<Rightarrow> True | OnServer t \<Rightarrow> RailServer t \<in> set (rail_order st) \<and> t \<noteq> source)
     \<and> map_of (rail_groups st) (nextGroupId now) = None"

lemma removeFromGroup_order:
  assumes "map_of (rail_groups st) gid = Some g" and "i \<in> set (serverIds g)"
  shows "RailServer i \<in> set (rail_order (removeFromGroup i gid st))"
    and "RailServer t \<in> set (rail_order st) \<Longrightarrow> RailServer t \<in> set (rail_order (removeFromGroup i gid st))"
    and "map_of (rail_groups st) k = None \<Longrightarrow> map_of (rail_groups (removeFromGroup i gid st)) k = None"
proof -
  show "RailServer i \<in> set (rail_order (removeFromGroup i gid st))"
    by (simp add: removeFromGroup_def assms Let_def)
  show "map_of (rail_groups st) k = None \<Longrightarrow> map_of (rail_groups (removeFromGroup i gid st)) k = None"
    using assms by (auto simp: removeFromGroup_def Let_def)
  assume t: "RailServer t \<in> set (rail_order st)"
  have cut: "RailServer t \<in> set (take n (rail_order st)) \<or> RailServer t \<in> set (drop n (rail_order st))" for n
    using t by (metis UnE append_take_drop_id set_append)
  show "RailServer t \<in> set (rail_order (removeFromGroup i gid st))"
  proof (cases "find_index (\<lambda>item. item = RailGroup gid) (rail_order st)")
    case None
    with t show ?thesis by (simp add: removeFromGroup_def assms Let_def)
  next
    case (Some k)
    then have k: "k < length (rail_order st)" "rail_order st ! k = RailGroup gid"
      using find_index_Some[OF Some] by auto
    have "set (take (k + 1) (rail_order st)) = insert (RailGroup gid) (set (take k (rail_order st)))"
      using k by (simp add: take_Suc_conv_app_nth)
    with cut[of "k + 1"] Some show ?thesis
      by (auto simp: removeFromGroup_def assms Let_def)
  qed
qed

lemma drop_into_step:
  assumes wf: "rail_wf st" and ok: "can_drop now i sg t st"
  shows "rail_wf (drop_into now i sg t st) \<and> mset (rail_servers (drop_into now i sg t st)) = mset (rail_servers st)"
proof -
  define st1 where "st1 = (case sg of Some g \<Rightarrow> removeFromGroup i g st | None \<Rightarrow> st)"
  have 1: "rail_wf st1 \<and> mset (rail_servers st1) = mset (rail_servers st)"
    using wf removeFromGroup_step[OF wf] by (auto simp: st1_def split: option.splits)
  have bare: "RailServer i \<in> set (rail_order st1)"
    using ok removeFromGroup_order(1) by (auto simp: st1_def can_drop_def split: option.splits)
  have other: "RailServer s \<in> set (rail_order st1)" if "RailServer s \<in> set (rail_order st)" for s
    using that ok removeFromGroup_order(2) by (auto simp: st1_def can_drop_def split: option.splits)
  have fresh: "map_of (rail_groups st1) (nextGroupId now) = None"
    using ok removeFromGroup_order(3) by (auto simp: st1_def can_drop_def split: option.splits)
  show ?thesis
  proof (cases t)
    case (OnGroup g)
    then show ?thesis using addToGroup_step[OF _ bare] 1 by (simp add: drop_into_def st1_def)
  next
    case (OnServer s)
    with ok have "RailServer s \<in> set (rail_order st1)" "i \<noteq> s" using other by (auto simp: can_drop_def)
    then show ?thesis
      using createGroup_step[OF _ bare _ _ fresh] 1 OnServer by (simp add: drop_into_def st1_def)
  qed
qed

lemma same_members_step:
  assumes wf: "rail_wf st" and g: "map_of (rail_groups st) gid = Some g" and "serverIds g' = serverIds g"
  shows "rail_wf (st\<lparr>rail_groups := rec_set gid g' (rail_groups st)\<rparr>)
    \<and> mset (rail_servers (st\<lparr>rail_groups := rec_set gid g' (rail_groups st)\<rparr>)) = mset (rail_servers st)"
proof (rule rail_stepI[OF wf])
  have two: "\<And>k g. map_of (rail_groups st) k = Some g \<Longrightarrow> length (serverIds g) \<ge> 2" and d: "distinct (rail_order st)"
    using wf by (auto simp: rail_wf_iff)
  show "placed (rail_groups (st\<lparr>rail_groups := rec_set gid g' (rail_groups st)\<rparr>))
      (rail_order (st\<lparr>rail_groups := rec_set gid g' (rail_groups st)\<rparr>)) = placed (rail_groups st) (rail_order st)"
    by (simp, rule placed_cong) (auto simp: item_servers_def g assms(3) split: rail_item.splits)
  show "length (serverIds h) \<ge> 2"
    if "map_of (rail_groups (st\<lparr>rail_groups := rec_set gid g' (rail_groups st)\<rparr>)) k = Some h" for k h
    using that two[OF g] two assms(3) by (auto split: if_splits)
  show "count_list (rail_order (st\<lparr>rail_groups := rec_set gid g' (rail_groups st)\<rparr>)) (RailGroup k) \<le> 1" for k
    using distinct_count_list[OF d] by simp
qed (use wf g in \<open>auto simp: rail_wf_iff\<close>)

lemma toggle_step:
  "rail_wf st \<Longrightarrow> rail_wf (toggleGroupCollapsed gid st)
    \<and> mset (rail_servers (toggleGroupCollapsed gid st)) = mset (rail_servers st)"
  by (simp add: toggleGroupCollapsed_def same_members_step split: option.split)

lemma rename_step:
  "rail_wf st \<Longrightarrow> rail_wf (renameGroup gid l st) \<and> mset (rail_servers (renameGroup gid l st)) = mset (rail_servers st)"
  by (simp add: renameGroup_def same_members_step split: option.split)

section \<open>The rail in use\<close>

text \<open>\<open>rail_reaches ids st\<close>: the rail can be in state \<open>st\<close> when \<open>ids\<close> are the joined spaces it was
  last synchronised with.\<close>

inductive rail_reaches :: "u64 list \<Rightarrow> rail_state \<Rightarrow> bool" where
  start: "rail_reaches [] rail_init"
| sync: "rail_reaches ids st \<Longrightarrow> distinct ids' \<Longrightarrow> rail_reaches ids' (syncServers ids' st)"
| drop_on: "rail_reaches ids st \<Longrightarrow> can_drop now i sg t st \<Longrightarrow> rail_reaches ids (drop_into now i sg t st)"
| drag_out: "rail_reaches ids st \<Longrightarrow> rail_reaches ids (removeFromGroup i gid st)"
| toggle: "rail_reaches ids st \<Longrightarrow> rail_reaches ids (toggleGroupCollapsed gid st)"
| rename: "rail_reaches ids st \<Longrightarrow> rail_reaches ids (renameGroup gid l st)"

text \<open>C8: however spaces are joined, left, grouped, dragged out and renamed, the rail shows every joined
  space exactly once, in the open or in one group, shows no other space, and keeps at least two spaces
  in every group.\<close>

theorem rail_places_each_space_once:
  assumes "rail_reaches ids st"
  shows "rail_wf st \<and> mset (rail_servers st) = mset ids"
  using assms
proof (induction rule: rail_reaches.induct)
  case start
  show ?case by (simp add: rail_wf_def rail_init_def rail_servers_def)
qed (use syncServers_wf drop_into_step removeFromGroup_step toggle_step rename_step in auto)

definition sample_rail :: rail_state where
  "sample_rail = drop_into 36 3 None (OnServer 1) (syncServers [1, 2, 3, 4] rail_init)"

theorem rail_places_each_space_once_witness:
  "rail_wf (syncServers [4, 1, 5] sample_rail) \<and> mset (rail_servers (syncServers [4, 1, 5] sample_rail)) = mset [4, 1, 5]
   \<and> rail_order sample_rail = [RailGroup ''g_10'', RailServer 2, RailServer 4]
   \<and> rail_order (syncServers [4, 1, 5] sample_rail) = [RailServer 4, RailServer 1, RailServer 5]"
proof -
  have "can_drop 36 3 None (OnServer 1) (syncServers [1, 2, 3, 4] rail_init)" by code_simp
  then have "rail_reaches [1, 2, 3, 4] sample_rail"
    unfolding sample_rail_def by (intro rail_reaches.drop_on rail_reaches.sync[OF rail_reaches.start]) simp_all
  then have r: "rail_reaches [4, 1, 5] (syncServers [4, 1, 5] sample_rail)"
    by (intro rail_reaches.sync) simp_all
  have "rail_order sample_rail = [RailGroup ''g_10'', RailServer 2, RailServer 4]" by code_simp
  moreover have "rail_order (syncServers [4, 1, 5] sample_rail) = [RailServer 4, RailServer 1, RailServer 5]"
    by code_simp
  ultimately show ?thesis using rail_places_each_space_once[OF r] by blast
qed

text \<open>C9: synchronising the rail leaves the order of what stays alone: the spaces that were in the open and
  are still joined keep their order, newly joined ones come last in the order given, and a second pass
  over the same spaces changes nothing.\<close>

theorem rail_sync_stable:
  assumes "rail_wf st" and "distinct ids"
  shows "syncServers ids (syncServers ids st) = syncServers ids st
    \<and> (\<exists>moved. set moved \<inter> set (rail_order st) = {} \<and> rail_order (syncServers ids st)
        = filter (\<lambda>item. item \<in> set (rail_order (syncServers ids st))) (rail_order st) @ moved
          @ map RailServer (filter (\<lambda>i. i \<notin> set (rail_servers st)) ids))"
proof
  from syncServers_wf[OF assms] have "set (rail_servers (syncServers ids st)) = set ids"
    by (metis set_mset_mset)
  then show "syncServers ids (syncServers ids st) = syncServers ids st"
    by (intro syncServers_unchanged) (simp_all add: filter_empty_conv)
  show "\<exists>moved. set moved \<inter> set (rail_order st) = {} \<and> rail_order (syncServers ids st)
        = filter (\<lambda>item. item \<in> set (rail_order (syncServers ids st))) (rail_order st) @ moved
          @ map RailServer (filter (\<lambda>i. i \<notin> set (rail_servers st)) ids)"
  proof (cases "filter (\<lambda>i. i \<notin> set (rail_servers st)) ids = [] \<and> filter (\<lambda>i. i \<notin> set ids) (rail_servers st) = []")
    case True
    then have "syncServers ids st = st" by (intro syncServers_unchanged) blast+
    with True show ?thesis by (intro exI[of _ "[]"]) simp
  next
    case False
    then have change: "filter (\<lambda>i. i \<notin> set (rail_servers st)) ids \<noteq> [] \<or> filter (\<lambda>i. i \<notin> set ids) (rail_servers st) \<noteq> []"
      by blast
    have ok: "rec_ok (rail_groups st)" using assms(1) by (simp add: rail_wf_def)
    note R = syncServers_result(1)[OF ok change]
    obtain P moved where o: "rail_order (syncServers ids st) = filter P (rail_order st) @ moved
        @ map RailServer (filter (\<lambda>i. i \<notin> set (rail_servers st)) ids)"
      and m: "\<forall>x \<in> set moved. \<exists>i k g. x = RailServer i \<and> map_of (rail_groups st) k = Some g \<and> i \<in> set (serverIds g)"
      by (rule that[OF R]) (auto split: option.splits; metis)
    have dis: "set moved \<inter> set (rail_order st) = {}"
      using m grouped_not_bare[OF assms(1)] by fast
    have "\<And>i. RailServer i \<in> set (rail_order st) \<Longrightarrow> i \<in> set (rail_servers st)"
      by (force simp: rail_servers_def)
    then have "filter (\<lambda>item. item \<in> set (rail_order (syncServers ids st))) (rail_order st) = filter P (rail_order st)"
      unfolding o using dis by (intro filter_cong) auto
    with o dis show ?thesis by (intro exI[of _ moved]) simp
  qed
qed

theorem rail_sync_stable_witness:
  "syncServers [2, 5, 4] (syncServers [2, 5, 4] sample_rail) = syncServers [2, 5, 4] sample_rail
   \<and> rail_order (syncServers [2, 5, 4] sample_rail) = [RailServer 2, RailServer 4, RailServer 5]"
proof -
  have "rail_wf rail_init" by (simp add: rail_wf_def rail_init_def rail_servers_def)
  then have "rail_wf (syncServers [1, 2, 3, 4] rail_init)" using syncServers_wf by simp
  moreover have "can_drop 36 3 None (OnServer 1) (syncServers [1, 2, 3, 4] rail_init)" by code_simp
  ultimately have "rail_wf sample_rail" unfolding sample_rail_def using drop_into_step by blast
  have "rail_order (syncServers [2, 5, 4] sample_rail) = [RailServer 2, RailServer 4, RailServer 5]" by code_simp
  with rail_sync_stable[OF \<open>rail_wf sample_rail\<close>, of "[2, 5, 4]"] show ?thesis by simp
qed

end
