(* ===== verification/ServerConfig.thy ===== *)
theory ServerConfig
  imports JsLib
begin

text \<open>
  \<open>src/stores/serverConfigStore.ts\<close>: the host the client is on, the hosts it has been on, the gate in
  front of a connection, and the join links that carry a host.
\<close>

section \<open>State\<close>

record server_config =
  spacetimedbUri :: string
  spacetimedbDatabase :: string
  authServiceUrl :: string
  livekitUrl :: string
  uploadPartSizeBytes :: "int option"
  uploadMaxFileSizeBytes :: "int option"
  dailyUploadQuotaBytes :: "int option"
  userStorageLimitBytes :: "int option"
  instanceStorageLimitBytes :: "int option"

definition hostKey :: "server_config \<Rightarrow> string" where
  "hostKey c = authServiceUrl c"

definition rememberHost :: "server_config list \<Rightarrow> server_config \<Rightarrow> server_config list" where
  "rememberHost hosts c = c # filter (\<lambda>h. hostKey h \<noteq> hostKey c) hosts"

datatype pinned_field = PinSpacetimedbUri | PinLivekitUrl | PinSpacetimedbDatabase

record host_change =
  hc_field :: pinned_field
  hc_stored :: string
  hc_incoming :: string

definition PINNED_FIELDS :: "pinned_field list" where
  "PINNED_FIELDS = [PinSpacetimedbUri, PinLivekitUrl, PinSpacetimedbDatabase]"

fun pinned_value :: "pinned_field \<Rightarrow> server_config \<Rightarrow> string" where
  "pinned_value PinSpacetimedbUri c = spacetimedbUri c"
| "pinned_value PinLivekitUrl c = livekitUrl c"
| "pinned_value PinSpacetimedbDatabase c = spacetimedbDatabase c"

definition diffKnownHost :: "server_config list \<Rightarrow> server_config \<Rightarrow> host_change list option" where
  "diffKnownHost hosts incoming = (case find (\<lambda>h. hostKey h = hostKey incoming) hosts of None \<Rightarrow> None
     | Some stored \<Rightarrow> Some (concat (map (\<lambda>field.
         if pinned_value field stored = pinned_value field incoming then []
         else [\<lparr>hc_field = field, hc_stored = pinned_value field stored, hc_incoming = pinned_value field incoming\<rparr>])
         PINNED_FIELDS)))"

text \<open>The host part of a URL, \<open>None\<close> where the constructor throws, is the parameter \<open>url_host\<close>.\<close>

definition hostLabel :: "(string \<Rightarrow> string option) \<Rightarrow> server_config \<Rightarrow> string" where
  "hostLabel url_host c = (case url_host (authServiceUrl c) of Some h \<Rightarrow> h | None \<Rightarrow> authServiceUrl c)"

datatype pending_reason = HostChanged | HostUnknown

record pending_host =
  ph_config :: server_config
  ph_changes :: "host_change list"
  ph_reason :: pending_reason

text \<open>\<open>sessionToken\<close> is the entry of \<open>localStorage\<close> under \<open>AUTH_SESSION_KEY\<close>.\<close>

record server_config_state =
  sc_config :: "server_config option"
  knownHosts :: "server_config list"
  hasHydrated :: bool
  pendingHost :: "pending_host option"
  sessionToken :: "string option"

definition server_config_init :: "string option \<Rightarrow> server_config_state" where
  "server_config_init token = \<lparr>sc_config = None, knownHosts = [], hasHydrated = False, pendingHost = None,
     sessionToken = token\<rparr>"

section \<open>Operations\<close>

text \<open>What storage holds: a field is \<open>None\<close> when the stored object lacks it.\<close>

record persisted_config =
  pc_config :: "server_config option option"
  pc_knownHosts :: "server_config list option"

definition sc_partialize :: "server_config_state \<Rightarrow> persisted_config" where
  "sc_partialize st = \<lparr>pc_config = Some (sc_config st), pc_knownHosts = Some (knownHosts st)\<rparr>"

definition mergePersisted :: "persisted_config option \<Rightarrow> server_config_state \<Rightarrow> server_config_state" where
  "mergePersisted persisted current = (let
     merged = (case persisted of None \<Rightarrow> current
       | Some p \<Rightarrow> current\<lparr>sc_config := (case pc_config p of None \<Rightarrow> sc_config current | Some c \<Rightarrow> c),
           knownHosts := (case pc_knownHosts p of None \<Rightarrow> knownHosts current | Some h \<Rightarrow> h)\<rparr>)
   in case sc_config merged of Some c \<Rightarrow> if knownHosts merged = [] then merged\<lparr>knownHosts := [c]\<rparr> else merged
      | None \<Rightarrow> merged)"

definition setConfig :: "server_config \<Rightarrow> server_config_state \<Rightarrow> server_config_state" where
  "setConfig c st = (let
     st' = (case sc_config st of Some old \<Rightarrow> if hostKey old \<noteq> hostKey c then st\<lparr>sessionToken := None\<rparr> else st
       | None \<Rightarrow> st)
   in st'\<lparr>sc_config := Some c, knownHosts := rememberHost (knownHosts st) c\<rparr>)"

definition requestConnect :: "server_config \<Rightarrow> bool \<Rightarrow> server_config_state \<Rightarrow> bool \<times> server_config_state" where
  "requestConnect c confirmUnknown st = (case diffKnownHost (knownHosts st) c of
       None \<Rightarrow> if \<not> confirmUnknown then (True, st)
         else (False, st\<lparr>pendingHost := Some \<lparr>ph_config = c, ph_changes = [], ph_reason = HostUnknown\<rparr>\<rparr>)
     | Some changes \<Rightarrow> if changes = [] then (True, st)
         else (False, st\<lparr>pendingHost := Some \<lparr>ph_config = c, ph_changes = changes, ph_reason = HostChanged\<rparr>\<rparr>))"

definition resolvePendingHost :: "bool \<Rightarrow> server_config_state \<Rightarrow> server_config option \<times> server_config_state" where
  "resolvePendingHost accept st = (let pending = pendingHost st; st = st\<lparr>pendingHost := None\<rparr> in
     case pending of None \<Rightarrow> (None, st)
     | Some p \<Rightarrow> if \<not> accept then (None, st) else (Some (ph_config p), setConfig (ph_config p) st))"

definition forgetHost :: "string \<Rightarrow> server_config_state \<Rightarrow> server_config_state" where
  "forgetHost url st = st\<lparr>knownHosts := filter (\<lambda>h. authServiceUrl h \<noteq> url) (knownHosts st)\<rparr>"

definition clearConfig :: "server_config_state \<Rightarrow> server_config_state" where
  "clearConfig st = st\<lparr>sc_config := None,
     knownHosts := (case sc_config st of Some c \<Rightarrow> rememberHost (knownHosts st) c | None \<Rightarrow> knownHosts st)\<rparr>"

definition setHasHydrated :: "bool \<Rightarrow> server_config_state \<Rightarrow> server_config_state" where
  "setHasHydrated v st = st\<lparr>hasHydrated := v\<rparr>"

lemmas sc_defs = setConfig_def requestConnect_def resolvePendingHost_def forgetHost_def clearConfig_def
  setHasHydrated_def mergePersisted_def

section \<open>Known hosts\<close>

definition hosts_ok :: "server_config list \<Rightarrow> bool" where
  "hosts_ok hosts \<longleftrightarrow> distinct (map hostKey hosts)"

lemma hosts_ok_remember: "hosts_ok hosts \<Longrightarrow> hosts_ok (rememberHost hosts c)"
  by (auto simp: hosts_ok_def rememberHost_def distinct_map_filter)

lemma find_remember:
  "find (\<lambda>h. hostKey h = k) (rememberHost hosts c) = (if k = hostKey c then Some c else find (\<lambda>h. hostKey h = k) hosts)"
proof -
  have "find (\<lambda>h. hostKey h = k) (filter (\<lambda>h. hostKey h \<noteq> hostKey c) hosts) = find (\<lambda>h. hostKey h = k) hosts"
    if "k \<noteq> hostKey c" using that by (induction hosts) auto
  then show ?thesis by (simp add: rememberHost_def)
qed

lemma diffKnownHost_same: "diffKnownHost hosts c = Some [] \<longleftrightarrow>
    (\<exists>h. find (\<lambda>h. hostKey h = hostKey c) hosts = Some h \<and> spacetimedbUri h = spacetimedbUri c
       \<and> livekitUrl h = livekitUrl c \<and> spacetimedbDatabase h = spacetimedbDatabase c)"
  by (auto simp: diffKnownHost_def PINNED_FIELDS_def split: option.splits)

text \<open>C5: the gate lets a connection through without asking exactly when the host is known and still
  advertises the realtime URI, call URI and database it was last used with, or is unknown and the user
  typed it; otherwise the state keeps its host, its token and its known hosts and only parks the request,
  accepting it connects to exactly the parked host, and that host is then let through unasked.\<close>

theorem host_gate:
  "(fst (requestConnect c confirm st) \<longleftrightarrow>
      (case find (\<lambda>h. hostKey h = hostKey c) (knownHosts st) of None \<Rightarrow> \<not> confirm
       | Some h \<Rightarrow> spacetimedbUri h = spacetimedbUri c \<and> livekitUrl h = livekitUrl c
           \<and> spacetimedbDatabase h = spacetimedbDatabase c))
   \<and> (let st1 = snd (requestConnect c confirm st) in
      sc_config st1 = sc_config st \<and> sessionToken st1 = sessionToken st \<and> knownHosts st1 = knownHosts st
      \<and> (if fst (requestConnect c confirm st) then st1 = st
         else map_option ph_config (pendingHost st1) = Some c
            \<and> snd (resolvePendingHost False st1) = st\<lparr>pendingHost := None\<rparr>
            \<and> fst (resolvePendingHost True st1) = Some c
            \<and> sc_config (snd (resolvePendingHost True st1)) = Some c
            \<and> pendingHost (snd (resolvePendingHost True st1)) = None
            \<and> fst (requestConnect c confirm (snd (resolvePendingHost True st1)))))"
proof -
  have again: "diffKnownHost (knownHosts (setConfig c s)) c = Some []" for s :: server_config_state
    by (auto simp: diffKnownHost_same setConfig_def Let_def find_remember)
  have fields: "sc_config (setConfig c s) = Some c" "pendingHost (setConfig c s) = pendingHost s"
    for s :: server_config_state
    by (auto simp: setConfig_def Let_def split: option.split)
  show ?thesis
  proof (cases "diffKnownHost (knownHosts st) c")
    case None
    then have "find (\<lambda>h. hostKey h = hostKey c) (knownHosts st) = None"
      by (auto simp: diffKnownHost_def split: option.splits)
    with None show ?thesis using again fields by (simp add: requestConnect_def resolvePendingHost_def)
  next
    case (Some changes)
    then obtain h where h: "find (\<lambda>h. hostKey h = hostKey c) (knownHosts st) = Some h"
      by (auto simp: diffKnownHost_def split: option.splits)
    have "changes = [] \<longleftrightarrow> spacetimedbUri h = spacetimedbUri c \<and> livekitUrl h = livekitUrl c
        \<and> spacetimedbDatabase h = spacetimedbDatabase c"
      using diffKnownHost_same[of "knownHosts st" c] Some h by auto
    with Some h show ?thesis using again fields by (simp add: requestConnect_def resolvePendingHost_def)
  qed
qed

section \<open>The session token and a change of host\<close>

text \<open>Moving straight from one host to another drops the session token, and setting the same host
  again keeps it; but leaving the host first (\<open>clearConfig\<close>, the \<open>Change server\<close> buttons) and then
  choosing another one hands the token of the first host over to the second.\<close>

theorem token_survives_change_server:
  assumes "sc_config st = Some a" and "hostKey a \<noteq> hostKey b" and "hostKey a' = hostKey a"
  shows "sessionToken (setConfig b st) = None \<and> sessionToken (setConfig a' st) = sessionToken st
    \<and> sessionToken (setConfig b (clearConfig st)) = sessionToken st
    \<and> sc_config (setConfig b (clearConfig st)) = Some b"
  using assms by (auto simp: setConfig_def clearConfig_def Let_def)

definition sample_host :: "string \<Rightarrow> server_config" where
  "sample_host h = \<lparr>spacetimedbUri = ''wss://'' @ h, spacetimedbDatabase = ''letschat'', authServiceUrl = ''https://'' @ h,
     livekitUrl = ''wss://lk.'' @ h, uploadPartSizeBytes = None, uploadMaxFileSizeBytes = None,
     dailyUploadQuotaBytes = None, userStorageLimitBytes = None, instanceStorageLimitBytes = None\<rparr>"

theorem token_survives_change_server_witness:
  "sessionToken (setConfig (sample_host ''b'') (setConfig (sample_host ''a'') (server_config_init (Some ''t'')))) = None
   \<and> sessionToken (setConfig (sample_host ''b'') (clearConfig (setConfig (sample_host ''a'') (server_config_init (Some ''t''))))) = Some ''t''"
proof -
  define st where "st = setConfig (sample_host ''a'') (server_config_init (Some ''t''))"
  have "sc_config st = Some (sample_host ''a'')" "sessionToken st = Some ''t''"
    unfolding st_def by code_simp+
  moreover have "hostKey (sample_host ''a'') \<noteq> hostKey (sample_host ''b'')" by code_simp
  ultimately show ?thesis
    using token_survives_change_server[of st "sample_host ''a''" "sample_host ''b''"] unfolding st_def[symmetric] by simp
qed

section \<open>What can be reached\<close>

datatype host_op =
    SetConfig server_config | RequestConnect server_config bool | ResolvePending bool | ForgetHost string
  | ClearConfig | SetHydrated bool | Reload

fun host_step :: "host_op \<Rightarrow> server_config_state \<Rightarrow> server_config_state" where
  "host_step (SetConfig c) st = setConfig c st"
| "host_step (RequestConnect c b) st = snd (requestConnect c b st)"
| "host_step (ResolvePending b) st = snd (resolvePendingHost b st)"
| "host_step (ForgetHost u) st = forgetHost u st"
| "host_step ClearConfig st = clearConfig st"
| "host_step (SetHydrated b) st = setHasHydrated b st"
| "host_step Reload st = mergePersisted (Some (sc_partialize st)) (server_config_init (sessionToken st))"

definition host_run :: "host_op list \<Rightarrow> server_config_state \<Rightarrow> server_config_state" where
  "host_run ops st = foldl (\<lambda>st p. host_step p st) st ops"

lemma host_run_snoc [simp]: "host_run (ops @ [p]) st = host_step p (host_run ops st)"
  by (simp add: host_run_def)

lemma setConfig_fields [simp]: "knownHosts (setConfig c st) = rememberHost (knownHosts st) c"
  "sc_config (setConfig c st) = Some c" "pendingHost (setConfig c st) = pendingHost st"
  by (auto simp: setConfig_def Let_def split: option.splits)

lemma requestConnect_fields [simp]: "knownHosts (snd (requestConnect c b st)) = knownHosts st"
  "sc_config (snd (requestConnect c b st)) = sc_config st"
  by (auto simp: requestConnect_def split: option.splits)

lemma resolve_fields: "knownHosts (snd (resolvePendingHost b st))
    = (case pendingHost st of Some p \<Rightarrow> if b then rememberHost (knownHosts st) (ph_config p) else knownHosts st
       | None \<Rightarrow> knownHosts st)"
  by (auto simp: resolvePendingHost_def Let_def split: option.splits)

text \<open>What is pinned for a host is the configuration it was last set or left with.\<close>

definition pinned :: "server_config_state \<Rightarrow> string \<Rightarrow> server_config option" where
  "pinned st k = find (\<lambda>h. hostKey h = k) (knownHosts st)"

lemma hosts_ok_reload: "hosts_ok (knownHosts st) \<Longrightarrow> hosts_ok (knownHosts (host_step Reload st))"
  by (auto simp: mergePersisted_def sc_partialize_def server_config_init_def Let_def hosts_ok_def split: option.splits)


section \<open>Join links\<close>

text \<open>
  \<open>URLSearchParams\<close>: form encoding of the UTF-8 bytes, and its decoding.  Decoding bytes to text is
  the platform's UTF-8 decoder, the parameter \<open>utf8\<close>; splitting a URL is the platform's URL parser, the
  parameter \<open>url_query\<close> (the query without its question mark, \<open>None\<close> where the constructor throws).
\<close>

definition utf8_bytes :: "char \<Rightarrow> nat list" where
  "utf8_bytes c = (let n = of_char c in if n < 128 then [n] else [192 + n div 64, 128 + n mod 64])"

definition hex_digit :: "nat \<Rightarrow> char" where
  "hex_digit d = (if d < 10 then char_of (48 + d) else char_of (55 + d))"

definition hex_value :: "char \<Rightarrow> nat option" where
  "hex_value c = (let n = of_char c :: nat in if 48 \<le> n \<and> n \<le> 57 then Some (n - 48)
     else if 65 \<le> n \<and> n \<le> 70 then Some (n - 55) else if 97 \<le> n \<and> n \<le> 102 then Some (n - 87) else None)"

definition form_plain :: "char \<Rightarrow> bool" where
  "form_plain c \<longleftrightarrow> (let n = of_char c :: nat in (48 \<le> n \<and> n \<le> 57) \<or> (65 \<le> n \<and> n \<le> 90) \<or> (97 \<le> n \<and> n \<le> 122)
     \<or> n \<in> {42, 45, 46, 95})"

definition form_char :: "char \<Rightarrow> string" where
  "form_char c = (if form_plain c then [c] else if c = CHR '' '' then ''+''
     else concat (map (\<lambda>b. [CHR ''%'', hex_digit (b div 16), hex_digit (b mod 16)]) (utf8_bytes c)))"

definition form_encode :: "string \<Rightarrow> string" where
  "form_encode s = concat (map form_char s)"

fun form_decode :: "string \<Rightarrow> nat list" where
  "form_decode [] = []"
| "form_decode (c # s) = (if c = CHR ''+'' then 32 # form_decode s
     else if c = CHR ''%'' then
       (case s of a # b # r \<Rightarrow> (case hex_value a of None \<Rightarrow> 37 # form_decode s
          | Some x \<Rightarrow> (case hex_value b of None \<Rightarrow> 37 # form_decode s | Some y \<Rightarrow> (16 * x + y) # form_decode r))
        | _ \<Rightarrow> 37 # form_decode s)
     else utf8_bytes c @ form_decode s)"

fun split_on :: "char \<Rightarrow> string \<Rightarrow> string list" where
  "split_on d [] = [[]]"
| "split_on d (c # s) = (if c = d then [] # split_on d s
     else (case split_on d s of [] \<Rightarrow> [[c]] | w # ws \<Rightarrow> (c # w) # ws))"

definition params_to_string :: "(string \<times> string) list \<Rightarrow> string" where
  "params_to_string ps = (case map (\<lambda>(k, v). form_encode k @ ''='' @ form_encode v) ps of [] \<Rightarrow> []
     | w # ws \<Rightarrow> w @ concat (map (\<lambda>w. CHR ''&'' # w) ws))"

definition params_of_string :: "(nat list \<Rightarrow> string) \<Rightarrow> string \<Rightarrow> (string \<times> string) list" where
  "params_of_string utf8 q = map (\<lambda>w. (utf8 (form_decode (takeWhile (\<lambda>c. c \<noteq> CHR ''='') w)),
       utf8 (form_decode (drop 1 (dropWhile (\<lambda>c. c \<noteq> CHR ''='') w)))))
     (filter (\<lambda>w. w \<noteq> []) (split_on (CHR ''&'') q))"

definition buildJoinLink :: "server_config \<Rightarrow> string" where
  "buildJoinLink c = ''letschat://join?'' @ params_to_string
     [(''s'', spacetimedbUri c), (''a'', authServiceUrl c), (''l'', livekitUrl c), (''d'', spacetimedbDatabase c)]"

definition parseJoinLink :: "(string \<Rightarrow> string option) \<Rightarrow> (nat list \<Rightarrow> string) \<Rightarrow> string \<Rightarrow> server_config option" where
  "parseJoinLink url_query utf8 raw = (case url_query (if starts_with ''letschat://'' raw
       then ''http://letschat/'' @ drop (length ''letschat://'') raw else raw) of
     None \<Rightarrow> None
   | Some q \<Rightarrow> let params = params_of_string utf8 q; get = map_of params;
       s = get ''s''; a = get ''a''; l = get ''l''; d = get ''d''
     in case (s, a, l, d) of (Some s, Some a, Some l, Some d) \<Rightarrow>
          if s = [] \<or> a = [] \<or> l = [] \<or> d = [] then None
          else Some \<lparr>spacetimedbUri = s, spacetimedbDatabase = d, authServiceUrl = a, livekitUrl = l,
            uploadPartSizeBytes = None, uploadMaxFileSizeBytes = None, dailyUploadQuotaBytes = None,
            userStorageLimitBytes = None, instanceStorageLimitBytes = None\<rparr>
        | _ \<Rightarrow> None)"

lemma hex_value_digit [simp]: "d < 16 \<Longrightarrow> hex_value (hex_digit d) = Some d"
proof -
  assume d: "d < 16"
  then have "of_char (hex_digit d) = (if d < 10 then 48 + d else 55 + d)"
    by (simp add: hex_digit_def)
  with d show ?thesis by (simp add: hex_value_def)
qed

lemma of_char_256: "of_char c < (256 :: nat)"
  by (metis of_char_mod_256 mod_less_divisor zero_less_numeral)

lemma utf8_bytes_bound: "b \<in> set (utf8_bytes c) \<Longrightarrow> b < 256"
proof -
  have "of_char c < (64 * 64 :: nat)" using of_char_256[of c] by linarith
  then have "of_char c div 64 < (64 :: nat)" by (rule less_mult_imp_div_less)
  then show "b \<in> set (utf8_bytes c) \<Longrightarrow> b < 256" by (auto simp: utf8_bytes_def Let_def split: if_splits)
qed

lemma form_decode_percent: "b < 256 \<Longrightarrow>
    form_decode (CHR ''%'' # hex_digit (b div 16) # hex_digit (b mod 16) # s) = b # form_decode s"
  by (simp add: less_mult_imp_div_less)

lemma form_decode_bytes: "\<forall>b \<in> set bs. b < 256 \<Longrightarrow>
    form_decode (concat (map (\<lambda>b. [CHR ''%'', hex_digit (b div 16), hex_digit (b mod 16)]) bs) @ s) = bs @ form_decode s"
  by (induction bs) (simp_all add: form_decode_percent del: form_decode.simps(2))

lemma form_decode_char: "form_decode (form_char c @ s) = utf8_bytes c @ form_decode s"
proof -
  consider "form_plain c" | "\<not> form_plain c" "c = CHR '' ''" | "\<not> form_plain c" "c \<noteq> CHR '' ''" by blast
  then show ?thesis
  proof cases
    case 1
    then have "c \<noteq> CHR ''+''" "c \<noteq> CHR ''%''" by (auto simp: form_plain_def)
    with 1 show ?thesis by (simp add: form_char_def)
  next
    case 2
    then show ?thesis by (simp add: form_char_def utf8_bytes_def)
  next
    case 3
    then show ?thesis by (simp add: form_char_def form_decode_bytes utf8_bytes_bound del: form_decode.simps)
  qed
qed

text \<open>Decoding undoes encoding, byte for byte.\<close>

lemma form_decode_encode [simp]: "form_decode (form_encode s) = concat (map utf8_bytes s)"
  by (induction s) (simp_all add: form_encode_def form_decode_char del: form_decode.simps(2))

lemma hex_digit_safe: "d < 16 \<Longrightarrow> hex_digit d \<noteq> CHR ''&'' \<and> hex_digit d \<noteq> CHR ''=''"
  using hex_value_digit[of d] by (force simp: hex_value_def)

lemma form_encode_safe: "CHR ''&'' \<notin> set (form_encode s)" "CHR ''='' \<notin> set (form_encode s)"
proof -
  have "CHR ''&'' \<notin> set (form_char c) \<and> CHR ''='' \<notin> set (form_char c)" for c
  proof (cases "form_plain c")
    case True
    then show ?thesis by (auto simp: form_char_def form_plain_def)
  next
    case False
    have "hex_digit (b div 16) \<noteq> CHR ''&'' \<and> hex_digit (b div 16) \<noteq> CHR ''=''
        \<and> hex_digit (b mod 16) \<noteq> CHR ''&'' \<and> hex_digit (b mod 16) \<noteq> CHR ''=''" if "b \<in> set (utf8_bytes c)" for b
      using utf8_bytes_bound[OF that] hex_digit_safe[of "b div 16"] hex_digit_safe[of "b mod 16"]
      by (simp add: less_mult_imp_div_less)
    then show ?thesis using False by (auto simp: form_char_def) (metis)+
  qed
  then show "CHR ''&'' \<notin> set (form_encode s)" "CHR ''='' \<notin> set (form_encode s)"
    by (auto simp: form_encode_def)
qed

lemma split_on_skip: "d \<notin> set a \<Longrightarrow> split_on d (a @ d # b) = a # split_on d b"
  by (induction a) auto

lemma split_on_none: "d \<notin> set a \<Longrightarrow> split_on d a = [a]"
  by (induction a) auto

definition param_word :: "string \<times> string \<Rightarrow> string" where
  "param_word p = form_encode (fst p) @ ''='' @ form_encode (snd p)"

lemma param_word_safe: "CHR ''&'' \<notin> set (param_word p)"
  using form_encode_safe by (simp add: param_word_def)

lemma split_params: "ps \<noteq> [] \<Longrightarrow> split_on (CHR ''&'') (params_to_string ps) = map param_word ps"
proof -
  have w: "split_on (CHR ''&'') (param_word p @ concat (map (\<lambda>w. CHR ''&'' # w) (map param_word ps)))
      = param_word p # map param_word ps" for p ps
    by (induction ps arbitrary: p) (simp_all add: split_on_none split_on_skip param_word_safe)
  assume "ps \<noteq> []"
  then obtain p ps' where "ps = p # ps'" by (cases ps) auto
  with w[of p ps'] show ?thesis
    by (simp add: params_to_string_def param_word_def case_prod_beta comp_def)
qed

lemma takeWhile_word: "takeWhile (\<lambda>c. c \<noteq> CHR ''='') (param_word p) = form_encode (fst p)"
  and dropWhile_word: "dropWhile (\<lambda>c. c \<noteq> CHR ''='') (param_word p) = CHR ''='' # form_encode (snd p)"
proof -
  have "\<forall>c \<in> set (form_encode (fst p)). c \<noteq> CHR ''=''" using form_encode_safe(2) by metis
  then show "takeWhile (\<lambda>c. c \<noteq> CHR ''='') (param_word p) = form_encode (fst p)"
    and "dropWhile (\<lambda>c. c \<noteq> CHR ''='') (param_word p) = CHR ''='' # form_encode (snd p)"
    by (simp_all add: param_word_def)
qed

lemma params_roundtrip:
  assumes "ps \<noteq> []" and "\<And>s. utf8 (concat (map utf8_bytes s)) = s"
  shows "params_of_string utf8 (params_to_string ps) = ps"
proof -
  have "filter (\<lambda>w. w \<noteq> []) (map param_word ps) = map param_word ps"
    by (intro filter_True) (auto simp: param_word_def)
  then show ?thesis
    by (simp add: params_of_string_def split_params[OF assms(1)] takeWhile_word dropWhile_word assms(2) comp_def)
qed

text \<open>C7: a join link built from a host parses back to that host's four addresses, whatever characters
  they contain, as long as none of them is empty; with an empty one the link is refused.  The platform is
  assumed to decode UTF-8 and to return the query of such a URL unchanged.\<close>

theorem join_link_roundtrip:
  assumes "\<And>s. utf8 (concat (map utf8_bytes s)) = s"
    and "\<And>ps. url_query (''http://letschat/join?'' @ params_to_string ps) = Some (params_to_string ps)"
  shows "parseJoinLink url_query utf8 (buildJoinLink c)
    = (if spacetimedbUri c = [] \<or> authServiceUrl c = [] \<or> livekitUrl c = [] \<or> spacetimedbDatabase c = [] then None
       else Some (c\<lparr>uploadPartSizeBytes := None, uploadMaxFileSizeBytes := None, dailyUploadQuotaBytes := None,
         userStorageLimitBytes := None, instanceStorageLimitBytes := None\<rparr>))"
proof -
  let ?ps = "[(''s'', spacetimedbUri c), (''a'', authServiceUrl c), (''l'', livekitUrl c), (''d'', spacetimedbDatabase c)]"
  have "starts_with ''letschat://'' (buildJoinLink c)" by (simp add: buildJoinLink_def starts_with_def)
  moreover have "''http://letschat/'' @ drop (length ''letschat://'') (buildJoinLink c)
      = ''http://letschat/join?'' @ params_to_string ?ps"
    by (simp add: buildJoinLink_def)
  ultimately have "parseJoinLink url_query utf8 (buildJoinLink c) = (let get = map_of ?ps in
      case (get ''s'', get ''a'', get ''l'', get ''d'') of (Some s, Some a, Some l, Some d) \<Rightarrow>
          if s = [] \<or> a = [] \<or> l = [] \<or> d = [] then None
          else Some \<lparr>spacetimedbUri = s, spacetimedbDatabase = d, authServiceUrl = a, livekitUrl = l,
            uploadPartSizeBytes = None, uploadMaxFileSizeBytes = None, dailyUploadQuotaBytes = None,
            userStorageLimitBytes = None, instanceStorageLimitBytes = None\<rparr>
        | _ \<Rightarrow> None)"
    using params_roundtrip[OF _ assms(1), of ?ps] unfolding parseJoinLink_def
    by (simp only: if_True assms(2) option.case Let_def list.distinct not_False_eq_True simp_thms)
  then show ?thesis by (simp add: Let_def)
qed

text \<open>Concrete platform functions: a decoder for the bytes Latin-1 text gives, and the text behind the
  first question mark.\<close>

fun latin1_utf8 :: "nat list \<Rightarrow> string" where
  "latin1_utf8 [] = []"
| "latin1_utf8 (b # bs) = (if b < 128 then char_of b # latin1_utf8 bs
     else case bs of [] \<Rightarrow> [] | b' # bs' \<Rightarrow> char_of ((b - 192) * 64 + (b' - 128)) # latin1_utf8 bs')"

definition after_question_mark :: "string \<Rightarrow> string option" where
  "after_question_mark u = Some (drop 1 (dropWhile (\<lambda>c. c \<noteq> CHR ''?'') u))"

lemma latin1_utf8_bytes: "latin1_utf8 (concat (map utf8_bytes s)) = s"
proof (induction s)
  case (Cons c s)
  have "of_char c < (256 :: nat)" by (rule of_char_256)
  with Cons show ?case
    by (auto simp: utf8_bytes_def Let_def)
qed simp

theorem join_link_roundtrip_witness:
  "parseJoinLink after_question_mark latin1_utf8 (buildJoinLink (sample_host ''x.org:8443/a&b=c d''))
     = Some (sample_host ''x.org:8443/a&b=c d'')"
proof -
  have "after_question_mark (''http://letschat/join?'' @ params_to_string ps) = Some (params_to_string ps)" for ps
    by (simp add: after_question_mark_def)
  from join_link_roundtrip[OF latin1_utf8_bytes this, of "sample_host ''x.org:8443/a&b=c d''"]
  show ?thesis by (simp add: sample_host_def)
qed

end
