(* ===== verification/Composer.thy ===== *)
theory Composer
  imports Complex_Main JsLib
begin

text \<open>
  \<open>src/stores/composerStore.ts\<close> and \<open>src/features/chat/submitComposer.ts\<close>: the drafts of the message
  composer, and the sending of one, which uploads its files one after the other and may be overtaken by
  edits, by a sign-out and by later sends.  Each step of the world below is what the code does between
  two awaits.
\<close>

section \<open>Drafts\<close>

record chat_attachment =
  ca_storageKey :: string
  ca_fileName :: string
  ca_fileSize :: int
  ca_mimeType :: string

datatype upload_stage = StRequesting | StUploading | StConfirming | StDone | StFailed

text \<open>A browser \<open>File\<close> is known by a number.\<close>

record queued_file =
  qf_id :: string
  qf_file :: nat
  qf_attachment :: "chat_attachment option"

record outgoing_message =
  om_text :: string
  om_files :: "queued_file list"
  om_stages :: "(string, upload_stage) rec"
  om_progress :: "(string, rat) rec"
  om_error :: "string option"

record composer_draft =
  d_outgoing :: "outgoing_message option"
  d_text :: string
  d_files :: "queued_file list"
  d_stages :: "(string, upload_stage) rec"
  d_progress :: "(string, rat) rec"
  d_error :: "string option"
  d_submitting :: bool
  d_operation :: nat
  d_sent :: nat

definition EMPTY_DRAFT :: composer_draft where
  "EMPTY_DRAFT = \<lparr>d_outgoing = None, d_text = [], d_files = [], d_stages = [], d_progress = [], d_error = None,
     d_submitting = False, d_operation = 0, d_sent = 0\<rparr>"

text \<open>\<open>Partial<ComposerDraft>\<close>, as far as callers use it: \<open>None\<close> leaves a field alone.\<close>

record draft_patch =
  p_outgoing :: "outgoing_message option option"
  p_text :: "string option"
  p_files :: "queued_file list option"
  p_stages :: "(string, upload_stage) rec option"
  p_progress :: "(string, rat) rec option"
  p_error :: "string option option"
  p_submitting :: "bool option"
  p_sent :: "nat option"

definition no_patch :: draft_patch where
  "no_patch = \<lparr>p_outgoing = None, p_text = None, p_files = None, p_stages = None, p_progress = None,
     p_error = None, p_submitting = None, p_sent = None\<rparr>"

definition or_else :: "'a option \<Rightarrow> 'a \<Rightarrow> 'a" where
  "or_else p x = (case p of None \<Rightarrow> x | Some y \<Rightarrow> y)"

definition apply_patch :: "draft_patch \<Rightarrow> composer_draft \<Rightarrow> composer_draft" where
  "apply_patch p d = d\<lparr>d_outgoing := or_else (p_outgoing p) (d_outgoing d), d_text := or_else (p_text p) (d_text d),
     d_files := or_else (p_files p) (d_files d), d_stages := or_else (p_stages p) (d_stages d),
     d_progress := or_else (p_progress p) (d_progress d), d_error := or_else (p_error p) (d_error d),
     d_submitting := or_else (p_submitting p) (d_submitting d), d_sent := or_else (p_sent p) (d_sent d)\<rparr>"

record composer_state =
  drafts :: "(string, composer_draft) rec"
  nextOperation :: nat

definition composer_init :: composer_state where
  "composer_init = \<lparr>drafts = [], nextOperation = 0\<rparr>"

definition draft_of :: "composer_state \<Rightarrow> string \<Rightarrow> composer_draft" where
  "draft_of st scope = rec_or (drafts st) scope EMPTY_DRAFT"

definition composer_update :: "string \<Rightarrow> draft_patch \<Rightarrow> nat option \<Rightarrow> composer_state \<Rightarrow> composer_state" where
  "composer_update scope patch operation st = (let draft = draft_of st scope in
     if operation \<noteq> None \<and> operation \<noteq> Some (d_operation draft) then st
     else st\<lparr>drafts := rec_set scope (apply_patch patch draft) (drafts st)\<rparr>)"

definition beginSend :: "string \<Rightarrow> bool \<Rightarrow> composer_state \<Rightarrow> composer_draft option \<times> composer_state" where
  "beginSend scope retry st = (let draft = draft_of st scope in
     if d_submitting draft \<or> (d_outgoing draft \<noteq> None \<and> \<not> retry) then (None, st)
     else let content = (if retry then d_outgoing draft
        else Some \<lparr>om_text = d_text draft, om_files = d_files draft, om_stages = d_stages draft,
          om_progress = d_progress draft, om_error = d_error draft\<rparr>)
     in case content of None \<Rightarrow> (None, st)
      | Some content \<Rightarrow> if js_trim (om_text content) = [] \<and> om_files content = [] then (None, st)
        else let outgoing = content\<lparr>om_error := None\<rparr>;
          kept = (if retry then draft else draft\<lparr>d_text := [], d_files := [], d_stages := [], d_progress := []\<rparr>);
          sending = kept\<lparr>d_outgoing := Some outgoing, d_submitting := True, d_error := None,
            d_operation := nextOperation st + 1\<rparr>
        in (Some (sending\<lparr>d_text := om_text outgoing, d_files := om_files outgoing, d_stages := om_stages outgoing,
              d_progress := om_progress outgoing, d_error := om_error outgoing\<rparr>),
            st\<lparr>drafts := rec_set scope sending (drafts st), nextOperation := nextOperation st + 1\<rparr>))"

definition composer_reset :: "composer_state \<Rightarrow> composer_state" where
  "composer_reset st = st\<lparr>drafts := []\<rparr>"

section \<open>Sending\<close>

datatype submit_phase = Uploading nat | Submitting

record submit_task =
  tk_scope :: string
  tk_operation :: nat
  tk_text :: string
  tk_sent :: nat
  tk_files :: "queued_file list"
  tk_phase :: submit_phase

record composer_world =
  cw_store :: composer_state
  cw_tasks :: "submit_task list"
  cw_delivered :: "(string \<times> string \<times> chat_attachment option list) list"

definition is_current :: "submit_task \<Rightarrow> composer_state \<Rightarrow> bool" where
  "is_current t st = (case map_of (drafts st) (tk_scope t) of None \<Rightarrow> False | Some d \<Rightarrow> d_operation d = tk_operation t)"

definition updateOutgoing :: "submit_task \<Rightarrow> (outgoing_message \<Rightarrow> outgoing_message) \<Rightarrow> composer_state \<Rightarrow> composer_state" where
  "updateOutgoing t f st = (case map_of (drafts st) (tk_scope t) of None \<Rightarrow> st
     | Some d \<Rightarrow> (case d_outgoing d of None \<Rightarrow> st
        | Some o1 \<Rightarrow> composer_update (tk_scope t) (no_patch\<lparr>p_outgoing := Some (Some (f o1))\<rparr>) (Some (tk_operation t)) st))"

definition drop_task :: "nat \<Rightarrow> submit_task list \<Rightarrow> submit_task list" where
  "drop_task op ts = filter (\<lambda>t. tk_operation t \<noteq> op) ts"

definition put_task :: "submit_task \<Rightarrow> composer_world \<Rightarrow> composer_world" where
  "put_task t w = w\<lparr>cw_tasks := t # drop_task (tk_operation t) (cw_tasks w)\<rparr>"

text \<open>The \<open>finally\<close> block.\<close>

definition finish_task :: "submit_task \<Rightarrow> composer_world \<Rightarrow> composer_world" where
  "finish_task t w = w\<lparr>cw_store := composer_update (tk_scope t) (no_patch\<lparr>p_submitting := Some False\<rparr>)
     (Some (tk_operation t)) (cw_store w), cw_tasks := drop_task (tk_operation t) (cw_tasks w)\<rparr>"

definition next_upload :: "queued_file list \<Rightarrow> nat \<Rightarrow> nat option" where
  "next_upload files i = map_option (\<lambda>k. i + k) (find_index (\<lambda>f. qf_attachment f = None) (drop i files))"

text \<open>The loop from index \<open>i\<close> up to its next upload, or past its end up to the call of \<open>onSubmit\<close>.\<close>

definition advance_task :: "submit_task \<Rightarrow> nat \<Rightarrow> composer_world \<Rightarrow> composer_world" where
  "advance_task t i w = (if \<not> is_current t (cw_store w) then finish_task t w
     else case next_upload (tk_files t) i of
       Some j \<Rightarrow> put_task (t\<lparr>tk_phase := Uploading j\<rparr>) w
     | None \<Rightarrow> put_task (t\<lparr>tk_phase := Submitting\<rparr>) w)"

definition begin_submit :: "string \<Rightarrow> bool \<Rightarrow> composer_world \<Rightarrow> composer_world" where
  "begin_submit scope retry w = (case beginSend scope retry (cw_store w) of
     (None, st) \<Rightarrow> w\<lparr>cw_store := st\<rparr>
   | (Some draft, st) \<Rightarrow> advance_task \<lparr>tk_scope = scope, tk_operation = d_operation draft, tk_text = d_text draft,
        tk_sent = d_sent draft, tk_files = d_files draft, tk_phase = Submitting\<rparr> 0 (w\<lparr>cw_store := st\<rparr>))"

definition uploaded :: "submit_task \<Rightarrow> nat \<Rightarrow> chat_attachment \<Rightarrow> composer_world \<Rightarrow> composer_world" where
  "uploaded t i a w = (let files = (tk_files t)[i := (tk_files t ! i)\<lparr>qf_attachment := Some a\<rparr>];
     t = t\<lparr>tk_files := files\<rparr>;
     w = w\<lparr>cw_store := updateOutgoing t (\<lambda>o1. o1\<lparr>om_files := files\<rparr>) (cw_store w)\<rparr>
   in advance_task t (i + 1) w)"

definition delivered :: "submit_task \<Rightarrow> composer_world \<Rightarrow> composer_world" where
  "delivered t w = finish_task t (w\<lparr>cw_store := composer_update (tk_scope t)
       (no_patch\<lparr>p_outgoing := Some None, p_error := Some None, p_sent := Some (tk_sent t + 1)\<rparr>)
       (Some (tk_operation t)) (cw_store w),
     cw_delivered := cw_delivered w @ [(tk_scope t, js_trim (tk_text t), map qf_attachment (tk_files t))]\<rparr>)"

text \<open>The \<open>catch\<close> block.\<close>

definition task_failed :: "submit_task \<Rightarrow> string \<Rightarrow> composer_world \<Rightarrow> composer_world" where
  "task_failed t errorText w = (case map_of (drafts (cw_store w)) (tk_scope t) of
     None \<Rightarrow> finish_task t w
   | Some current \<Rightarrow> if d_operation current \<noteq> tk_operation t then finish_task t w
     else finish_task t (w\<lparr>cw_store := (case d_outgoing current of
         Some o1 \<Rightarrow> if d_text current = [] \<and> d_files current = []
           then composer_update (tk_scope t) (no_patch\<lparr>p_text := Some (om_text o1), p_files := Some (om_files o1),
             p_stages := Some (om_stages o1), p_progress := Some (om_progress o1), p_outgoing := Some None,
             p_error := Some (Some errorText)\<rparr>) (Some (tk_operation t)) (cw_store w)
           else updateOutgoing t (\<lambda>o1. o1\<lparr>om_error := Some errorText\<rparr>) (cw_store w)
       | None \<Rightarrow> updateOutgoing t (\<lambda>o1. o1\<lparr>om_error := Some errorText\<rparr>) (cw_store w))\<rparr>))"

section \<open>The composer in use\<close>

text \<open>\<open>EditDraft\<close> is what the form writes: text, queued files and the local error; \<open>DiscardFailed\<close> is the
  button shown beside a failed message.\<close>

datatype composer_event =
    EditDraft string "string option" "queued_file list option" "string option option"
  | DiscardFailed string
  | BeginSubmit string bool
  | StageReported nat string upload_stage
  | ProgressReported nat string rat
  | Uploaded nat chat_attachment
  | Delivered nat
  | TaskFailed nat string
  | ResetDrafts

definition task_of :: "nat \<Rightarrow> composer_world \<Rightarrow> submit_task option" where
  "task_of op w = find (\<lambda>t. tk_operation t = op) (cw_tasks w)"

fun composer_step :: "composer_event \<Rightarrow> composer_world \<Rightarrow> composer_world" where
  "composer_step (EditDraft scope t fs e) w = w\<lparr>cw_store := composer_update scope
     (no_patch\<lparr>p_text := t, p_files := fs, p_error := e\<rparr>) None (cw_store w)\<rparr>"
| "composer_step (DiscardFailed scope) w = (case d_outgoing (draft_of (cw_store w) scope) of
     Some o1 \<Rightarrow> if om_error o1 = None then w
       else w\<lparr>cw_store := composer_update scope (no_patch\<lparr>p_outgoing := Some None\<rparr>) None (cw_store w)\<rparr>
   | None \<Rightarrow> w)"
| "composer_step (BeginSubmit scope retry) w = begin_submit scope retry w"
| "composer_step (StageReported op fid stage) w = (case task_of op w of None \<Rightarrow> w
     | Some t \<Rightarrow> w\<lparr>cw_store := updateOutgoing t (\<lambda>o1. o1\<lparr>om_stages := rec_set fid stage (om_stages o1)\<rparr>) (cw_store w)\<rparr>)"
| "composer_step (ProgressReported op fid x) w = (case task_of op w of None \<Rightarrow> w
     | Some t \<Rightarrow> w\<lparr>cw_store := updateOutgoing t (\<lambda>o1. o1\<lparr>om_progress := rec_set fid x (om_progress o1)\<rparr>) (cw_store w)\<rparr>)"
| "composer_step (Uploaded op a) w = (case task_of op w of None \<Rightarrow> w
     | Some t \<Rightarrow> (case tk_phase t of Uploading i \<Rightarrow> uploaded t i a w | Submitting \<Rightarrow> w))"
| "composer_step (Delivered op) w = (case task_of op w of None \<Rightarrow> w
     | Some t \<Rightarrow> (case tk_phase t of Submitting \<Rightarrow> delivered t w | Uploading i \<Rightarrow> w))"
| "composer_step (TaskFailed op msg) w = (case task_of op w of None \<Rightarrow> w | Some t \<Rightarrow> task_failed t msg w)"
| "composer_step ResetDrafts w = w\<lparr>cw_store := composer_reset (cw_store w)\<rparr>"

definition composer_run :: "composer_event list \<Rightarrow> composer_world" where
  "composer_run es = foldl (\<lambda>w e. composer_step e w) \<lparr>cw_store = composer_init, cw_tasks = [], cw_delivered = []\<rparr> es"

lemma composer_run_Nil [simp]: "composer_run [] = \<lparr>cw_store = composer_init, cw_tasks = [], cw_delivered = []\<rparr>"
  by (simp add: composer_run_def)

lemma composer_run_snoc [simp]: "composer_run (es @ [e]) = composer_step e (composer_run es)"
  by (simp add: composer_run_def)

section \<open>One live task per draft being sent\<close>

definition file_ids :: "queued_file list \<Rightarrow> string list" where
  "file_ids fs = map qf_id fs"

definition carries :: "submit_task \<Rightarrow> composer_draft \<Rightarrow> bool" where
  "carries t d \<longleftrightarrow> d_submitting d \<and> (\<exists>o1. d_outgoing d = Some o1 \<and> om_text o1 = tk_text t
     \<and> file_ids (om_files o1) = file_ids (tk_files t) \<and> om_error o1 = None)"

definition task_ok :: "submit_task \<Rightarrow> bool" where
  "task_ok t \<longleftrightarrow> (case tk_phase t of
     Submitting \<Rightarrow> \<forall>f \<in> set (tk_files t). qf_attachment f \<noteq> None
   | Uploading i \<Rightarrow> i < length (tk_files t) \<and> (\<forall>f \<in> set (take i (tk_files t)). qf_attachment f \<noteq> None))"

definition draft_ok :: "composer_draft \<Rightarrow> bool" where
  "draft_ok d \<longleftrightarrow> (case d_outgoing d of None \<Rightarrow> True | Some o1 \<Rightarrow> om_text o1 \<noteq> [] \<or> om_files o1 \<noteq> [])"

definition composer_inv :: "composer_world \<Rightarrow> bool" where
  "composer_inv w \<longleftrightarrow> (let st = cw_store w; ts = cw_tasks w in
     distinct (map tk_operation ts)
     \<and> (\<forall>t \<in> set ts. 0 < tk_operation t \<and> tk_operation t \<le> nextOperation st \<and> task_ok t
          \<and> (\<forall>d. map_of (drafts st) (tk_scope t) = Some d \<longrightarrow> d_operation d = tk_operation t \<longrightarrow> carries t d))
     \<and> (\<forall>s d. map_of (drafts st) s = Some d \<longrightarrow> d_operation d \<le> nextOperation st \<and> draft_ok d
          \<and> (d_submitting d \<longrightarrow> (\<exists>t \<in> set ts. tk_scope t = s \<and> tk_operation t = d_operation d))))"

lemma composer_invI:
  assumes "distinct (map tk_operation (cw_tasks w))"
    and "\<And>t. t \<in> set (cw_tasks w) \<Longrightarrow> 0 < tk_operation t \<and> tk_operation t \<le> nextOperation (cw_store w) \<and> task_ok t"
    and "\<And>t d. t \<in> set (cw_tasks w) \<Longrightarrow> map_of (drafts (cw_store w)) (tk_scope t) = Some d
           \<Longrightarrow> d_operation d = tk_operation t \<Longrightarrow> carries t d"
    and "\<And>s d. map_of (drafts (cw_store w)) s = Some d \<Longrightarrow> d_operation d \<le> nextOperation (cw_store w) \<and> draft_ok d
          \<and> (d_submitting d \<longrightarrow> (\<exists>t \<in> set (cw_tasks w). tk_scope t = s \<and> tk_operation t = d_operation d))"
  shows "composer_inv w"
  using assms unfolding composer_inv_def Let_def by blast

lemma composer_invD:
  assumes "composer_inv w"
  shows "distinct (map tk_operation (cw_tasks w))"
    and "t \<in> set (cw_tasks w) \<Longrightarrow> 0 < tk_operation t \<and> tk_operation t \<le> nextOperation (cw_store w) \<and> task_ok t"
    and "t \<in> set (cw_tasks w) \<Longrightarrow> map_of (drafts (cw_store w)) (tk_scope t) = Some d
           \<Longrightarrow> d_operation d = tk_operation t \<Longrightarrow> carries t d"
    and "map_of (drafts (cw_store w)) s = Some d \<Longrightarrow> d_operation d \<le> nextOperation (cw_store w) \<and> draft_ok d
          \<and> (d_submitting d \<longrightarrow> (\<exists>t \<in> set (cw_tasks w). tk_scope t = s \<and> tk_operation t = d_operation d))"
  using assms unfolding composer_inv_def Let_def by blast+

definition set_draft :: "string \<Rightarrow> composer_draft \<Rightarrow> composer_world \<Rightarrow> composer_world" where
  "set_draft s d w = w\<lparr>cw_store := (cw_store w)\<lparr>drafts := rec_set s d (drafts (cw_store w))\<rparr>\<rparr>"

lemma set_draft_simps [simp]:
  "cw_tasks (set_draft s d w) = cw_tasks w" "nextOperation (cw_store (set_draft s d w)) = nextOperation (cw_store w)"
  "map_of (drafts (cw_store (set_draft s d w))) k = (if k = s then Some d else map_of (drafts (cw_store w)) k)"
  "set_draft s d (set_draft s d' w) = set_draft s d w"
  by (simp_all add: set_draft_def)

lemma draft_of_Some [simp]: "map_of (drafts st) s = Some d \<Longrightarrow> draft_of st s = d"
  by (simp add: draft_of_def rec_or_def)

lemma draft_of_None [simp]: "map_of (drafts st) s = None \<Longrightarrow> draft_of st s = EMPTY_DRAFT"
  by (simp add: draft_of_def rec_or_def)

lemma draft_of_set [simp]:
  "draft_of (st\<lparr>drafts := rec_set s d r\<rparr>) k = (if k = s then d else rec_or r k EMPTY_DRAFT)"
  by (simp add: draft_of_def)

lemma update_set_draft:
  "w\<lparr>cw_store := composer_update s p operation (cw_store w)\<rparr>
    = (if operation \<noteq> None \<and> operation \<noteq> Some (d_operation (draft_of (cw_store w) s)) then w
       else set_draft s (apply_patch p (draft_of (cw_store w) s)) w)"
  by (simp add: composer_update_def set_draft_def Let_def)

text \<open>A change that leaves the task of the draft what it relies on.\<close>

lemma inv_touch:
  assumes inv: "composer_inv w" and d: "d = draft_of (cw_store w) s"
    and op: "d_operation d' = d_operation d" and sub: "d_submitting d' = d_submitting d"
    and "draft_ok d'" and keep: "\<And>t. carries t d \<Longrightarrow> carries t d'"
  shows "composer_inv (set_draft s d' w)"
proof (rule composer_invI)
  note D = composer_invD[OF inv]
  show "distinct (map tk_operation (cw_tasks (set_draft s d' w)))" using D(1) by simp
  show "t \<in> set (cw_tasks (set_draft s d' w)) \<Longrightarrow>
      0 < tk_operation t \<and> tk_operation t \<le> nextOperation (cw_store (set_draft s d' w)) \<and> task_ok t" for t
    using D(2) by simp
  show "carries t e" if "t \<in> set (cw_tasks (set_draft s d' w))"
      "map_of (drafts (cw_store (set_draft s d' w))) (tk_scope t) = Some e" "d_operation e = tk_operation t" for t e
  proof (cases "tk_scope t = s")
    case True
    with that have e: "e = d'" by simp
    show ?thesis
    proof (cases "map_of (drafts (cw_store w)) s")
      case None
      then have "d_operation d = 0" by (simp add: d EMPTY_DRAFT_def)
      with that e op D(2) show ?thesis by fastforce
    next
      case (Some x)
      then have "d = x" by (simp add: d)
      with True that e op Some D(3) have "carries t d" by auto
      with e keep show ?thesis by simp
    qed
  qed (use that D(3) in \<open>simp split: if_splits\<close>)
  show "d_operation e \<le> nextOperation (cw_store (set_draft s d' w)) \<and> draft_ok e
      \<and> (d_submitting e \<longrightarrow> (\<exists>t \<in> set (cw_tasks (set_draft s d' w)). tk_scope t = k \<and> tk_operation t = d_operation e))"
    if "map_of (drafts (cw_store (set_draft s d' w))) k = Some e" for k e
  proof (cases "k = s")
    case True
    with that have e: "e = d'" by simp
    show ?thesis
    proof (cases "map_of (drafts (cw_store w)) s")
      case None
      then have "d = EMPTY_DRAFT" by (simp add: d)
      with e op sub assms(5) show ?thesis by (simp add: EMPTY_DRAFT_def)
    next
      case (Some x)
      then have "d = x" by (simp add: d)
      with Some D(4)[of s x] True e op sub assms(5) show ?thesis by simp
    qed
  qed (use that D(4) in \<open>simp split: if_splits\<close>)
qed

text \<open>The end of a task.\<close>

definition end_task :: "submit_task \<Rightarrow> (composer_draft \<Rightarrow> composer_draft) \<Rightarrow> composer_world \<Rightarrow> composer_world" where
  "end_task t f w = (let w' = (if is_current t (cw_store w)
       then set_draft (tk_scope t) ((f (draft_of (cw_store w) (tk_scope t)))\<lparr>d_submitting := False\<rparr>) w else w)
     in w'\<lparr>cw_tasks := drop_task (tk_operation t) (cw_tasks w)\<rparr>)"

lemma set_drop_task: "t' \<in> set (drop_task op ts) \<longleftrightarrow> t' \<in> set ts \<and> tk_operation t' \<noteq> op"
  by (simp add: drop_task_def)

lemma distinct_drop_task: "distinct (map tk_operation ts) \<Longrightarrow> distinct (map tk_operation (drop_task op ts))"
  by (simp add: drop_task_def distinct_map_filter)

lemma inv_delivered_irrelevant: "composer_inv (w\<lparr>cw_delivered := x\<rparr>) = composer_inv w"
  by (simp add: composer_inv_def)

lemma inv_end_task:
  assumes inv: "composer_inv w" and t: "t \<in> set (cw_tasks w)"
    and f: "\<And>d. d_operation (f d) = d_operation d" "\<And>d. draft_ok d \<Longrightarrow> draft_ok (f d)"
  shows "composer_inv (end_task t f w)"
proof -
  note D = composer_invD[OF inv]
  have uniq: "t' = t" if "t' \<in> set (cw_tasks w)" "tk_operation t' = tk_operation t" for t'
    using D(1) t that by (simp add: distinct_map inj_on_def)
  show ?thesis
  proof (cases "is_current t (cw_store w)")
    case True
    then obtain d where d: "map_of (drafts (cw_store w)) (tk_scope t) = Some d" "d_operation d = tk_operation t"
      by (auto simp: is_current_def split: option.splits)
    have ok: "draft_ok ((f d)\<lparr>d_submitting := False\<rparr>)" using f(2) D(4)[OF d(1)] by (simp add: draft_ok_def)
    have e: "end_task t f w = (set_draft (tk_scope t) ((f d)\<lparr>d_submitting := False\<rparr>) w)\<lparr>cw_tasks := drop_task (tk_operation t) (cw_tasks w)\<rparr>"
      using True d by (simp add: end_task_def Let_def)
    show ?thesis unfolding e
      using D(1,2,4) d f(1) ok uniq D(3)
      by (intro composer_invI) (fastforce simp: set_drop_task distinct_drop_task split: if_splits)+
  next
    case False
    then have e: "end_task t f w = w\<lparr>cw_tasks := drop_task (tk_operation t) (cw_tasks w)\<rparr>"
      by (simp add: end_task_def)
    have "\<exists>t' \<in> set (drop_task (tk_operation t) (cw_tasks w)). tk_scope t' = s \<and> tk_operation t' = d_operation d"
      if "map_of (drafts (cw_store w)) s = Some d" "d_submitting d" for s d
    proof -
      note A = that
      obtain t' where t': "t' \<in> set (cw_tasks w)" "tk_scope t' = s" "tk_operation t' = d_operation d"
        using D(4)[OF A(1)] A(2) by blast
      have "t' \<noteq> t" using False that(1) t' by (auto simp: is_current_def)
      with t'(1) uniq have "t' \<in> set (drop_task (tk_operation t) (cw_tasks w))" by (auto simp: set_drop_task)
      with t' show ?thesis by blast
    qed
    then show ?thesis unfolding e using D(1,2,3,4)
      by (intro composer_invI) (simp_all add: set_drop_task distinct_drop_task)
  qed
qed

text \<open>A task is replaced by its own next state.\<close>

lemma inv_put_task:
  assumes inv: "composer_inv w" and t: "t \<in> set (cw_tasks w)"
    and t': "tk_operation t' = tk_operation t" "tk_scope t' = tk_scope t" "tk_text t' = tk_text t"
      "file_ids (tk_files t') = file_ids (tk_files t)" "task_ok t'"
  shows "composer_inv (put_task t' w)"
proof -
  note D = composer_invD[OF inv]
  have carries: "carries t d = carries t' d" for d using t' by (simp add: carries_def)
  show ?thesis
  proof (rule composer_invI)
    show "distinct (map tk_operation (cw_tasks (put_task t' w)))"
      using distinct_drop_task[OF D(1)] by (auto simp: put_task_def drop_task_def)
    show "0 < tk_operation x \<and> tk_operation x \<le> nextOperation (cw_store (put_task t' w)) \<and> task_ok x"
      if "x \<in> set (cw_tasks (put_task t' w))" for x
      using that D(2)[OF t] D(2)[of x] t' by (auto simp: put_task_def set_drop_task)
    show "carries x d" if "x \<in> set (cw_tasks (put_task t' w))"
        "map_of (drafts (cw_store (put_task t' w))) (tk_scope x) = Some d" "d_operation d = tk_operation x" for x d
      using that D(3)[OF t] D(3)[of x] t' carries by (auto simp: put_task_def set_drop_task)
    show "d_operation d \<le> nextOperation (cw_store (put_task t' w)) \<and> draft_ok d
        \<and> (d_submitting d \<longrightarrow> (\<exists>x \<in> set (cw_tasks (put_task t' w)). tk_scope x = s \<and> tk_operation x = d_operation d))"
      if A: "map_of (drafts (cw_store (put_task t' w))) s = Some d" for s d
    proof -
      have d: "map_of (drafts (cw_store w)) s = Some d" using A by (simp add: put_task_def)
      have "\<exists>x \<in> set (cw_tasks (put_task t' w)). tk_scope x = s \<and> tk_operation x = d_operation d" if "d_submitting d"
      proof -
        obtain x where x: "x \<in> set (cw_tasks w)" "tk_scope x = s" "tk_operation x = d_operation d"
          using D(4)[OF d] \<open>d_submitting d\<close> by blast
        show ?thesis
        proof (cases "tk_operation x = tk_operation t")
          case True
          then have "x = t" using D(1) t x(1) by (simp add: distinct_map inj_on_def)
          with x t' show ?thesis by (auto simp: put_task_def)
        next
          case False
          with x t'(1) have "x \<in> set (cw_tasks (put_task t' w))" by (simp add: put_task_def set_drop_task)
          with x show ?thesis by blast
        qed
      qed
      with D(4)[OF d] show ?thesis by (simp add: put_task_def)
    qed
  qed
qed

lemma end_task_id: "finish_task t w = end_task t id w" if "0 < tk_operation t"
proof (cases "map_of (drafts (cw_store w)) (tk_scope t)")
  case None
  with that show ?thesis
    by (simp add: finish_task_def end_task_def is_current_def composer_update_def EMPTY_DRAFT_def)
next
  case (Some d)
  then show ?thesis
    by (auto simp: finish_task_def end_task_def is_current_def composer_update_def set_draft_def
        apply_patch_def no_patch_def or_else_def Let_def)
qed

lemma inv_finish:
  "composer_inv w \<Longrightarrow> t \<in> set (cw_tasks w) \<Longrightarrow> composer_inv (finish_task t w)"
  using composer_invD(2)[of w t] by (simp add: end_task_id inv_end_task)

lemma task_of_Some: "task_of op w = Some t \<Longrightarrow> t \<in> set (cw_tasks w) \<and> tk_operation t = op"
  unfolding task_of_def by (metis (mono_tags, lifting) find_Some_iff nth_mem)

text \<open>Success and failure in closed form.\<close>

definition after_delivery :: "submit_task \<Rightarrow> composer_draft \<Rightarrow> composer_draft" where
  "after_delivery t d = d\<lparr>d_outgoing := None, d_error := None, d_sent := tk_sent t + 1\<rparr>"

definition after_failure :: "string \<Rightarrow> composer_draft \<Rightarrow> composer_draft" where
  "after_failure msg d = (case d_outgoing d of None \<Rightarrow> d
     | Some o1 \<Rightarrow> if d_text d = [] \<and> d_files d = []
       then d\<lparr>d_text := om_text o1, d_files := om_files o1, d_stages := om_stages o1, d_progress := om_progress o1,
              d_outgoing := None, d_error := Some msg\<rparr>
       else d\<lparr>d_outgoing := Some (o1\<lparr>om_error := Some msg\<rparr>)\<rparr>)"

lemma delivered_end:
  assumes "0 < tk_operation t"
  shows "delivered t w = (end_task t (after_delivery t) w)\<lparr>cw_delivered := cw_delivered w
     @ [(tk_scope t, js_trim (tk_text t), map qf_attachment (tk_files t))]\<rparr>"
proof (cases "map_of (drafts (cw_store w)) (tk_scope t)")
  case None
  with assms show ?thesis
    by (simp add: delivered_def finish_task_def end_task_def is_current_def composer_update_def EMPTY_DRAFT_def)
next
  case (Some d)
  then show ?thesis
    by (cases w; cases d; cases "d_operation d = tk_operation t")
      (simp_all add: delivered_def finish_task_def end_task_def is_current_def composer_update_def set_draft_def
        apply_patch_def no_patch_def or_else_def after_delivery_def Let_def)
qed

lemma failed_end:
  assumes "0 < tk_operation t"
  shows "task_failed t msg w = end_task t (after_failure msg) w"
proof (cases "map_of (drafts (cw_store w)) (tk_scope t)")
  case None
  with assms show ?thesis
    by (simp add: task_failed_def end_task_id end_task_def is_current_def)
next
  case (Some d)
  show ?thesis
  proof (cases "d_operation d = tk_operation t")
    case True
    with Some show ?thesis
      by (cases w; cases d; cases "d_outgoing d") (simp_all add: task_failed_def finish_task_def end_task_def is_current_def
        composer_update_def updateOutgoing_def set_draft_def apply_patch_def no_patch_def or_else_def
        after_failure_def Let_def)
  qed (use Some assms in \<open>simp add: task_failed_def end_task_id end_task_def is_current_def\<close>)
qed

lemma after_ok: "d_operation (after_delivery t d) = d_operation d" "d_operation (after_failure m d) = d_operation d"
  "draft_ok (after_delivery t d)" "draft_ok d \<Longrightarrow> draft_ok (after_failure m d)"
  by (auto simp: after_delivery_def after_failure_def draft_ok_def split: option.splits)

section \<open>Every step keeps the invariant\<close>

lemma find_index_before: "find_index p xs = Some k \<Longrightarrow> \<forall>x \<in> set (take k xs). \<not> p x"
  by (induction xs arbitrary: k) (auto split: if_splits)

lemma next_upload_Some:
  assumes "next_upload fs i = Some j" and "\<forall>f \<in> set (take i fs). qf_attachment f \<noteq> None"
  shows "j < length fs \<and> (\<forall>f \<in> set (take j fs). qf_attachment f \<noteq> None)"
proof -
  obtain k where k: "find_index (\<lambda>f. qf_attachment f = None) (drop i fs) = Some k" "j = i + k"
    using assms(1) by (auto simp: next_upload_def)
  have "take j fs = take i fs @ take k (drop i fs)" by (simp add: k(2) take_add)
  then show ?thesis using find_index_before[OF k(1)] find_index_Some[OF k(1)] assms(2) k(2) by auto
qed

lemma next_upload_None:
  assumes "next_upload fs i = None" and "\<forall>f \<in> set (take i fs). qf_attachment f \<noteq> None"
  shows "\<forall>f \<in> set fs. qf_attachment f \<noteq> None"
proof -
  have "\<forall>f \<in> set (drop i fs). qf_attachment f \<noteq> None"
    using assms(1) by (simp add: next_upload_def find_index_None)
  moreover have "set fs = set (take i fs) \<union> set (drop i fs)" by (metis append_take_drop_id set_append)
  ultimately show ?thesis using assms(2) by blast
qed

definition draft_contents :: "composer_draft \<Rightarrow> (string \<times> string list) multiset" where
  "draft_contents d = (if d_text d = [] \<and> d_files d = [] then {#} else {#(d_text d, file_ids (d_files d))#})
     + (case d_outgoing d of None \<Rightarrow> {#} | Some o1 \<Rightarrow> {#(om_text o1, file_ids (om_files o1))#})"

definition unsent :: "composer_world \<Rightarrow> string \<Rightarrow> (string \<times> string list) multiset" where
  "unsent w s = draft_contents (draft_of (cw_store w) s)"

lemma unsent_set_draft [simp]: "unsent (set_draft s d w) k = (if k = s then draft_contents d else unsent w k)"
  by (simp add: unsent_def set_draft_def draft_of_def)

lemma unsent_tasks [simp]: "unsent (w\<lparr>cw_tasks := ts\<rparr>) s = unsent w s" "unsent (w\<lparr>cw_delivered := ds\<rparr>) s = unsent w s"
  "unsent (put_task t w) s = unsent w s"
  by (simp_all add: unsent_def put_task_def)

lemma is_current_cong:
  "tk_operation t' = tk_operation t \<Longrightarrow> tk_scope t' = tk_scope t \<Longrightarrow> is_current t' st = is_current t st"
  by (simp add: is_current_def split: option.split)

lemma updateOutgoing_step:
  assumes inv: "composer_inv w" and t: "t \<in> set (cw_tasks w)"
    and t': "tk_operation t' = tk_operation t" "tk_scope t' = tk_scope t"
    and f: "\<And>o1. file_ids (om_files o1) = file_ids (tk_files t) \<Longrightarrow>
      om_text (f o1) = om_text o1 \<and> om_error (f o1) = om_error o1 \<and> file_ids (om_files (f o1)) = file_ids (om_files o1)"
  shows "composer_inv (w\<lparr>cw_store := updateOutgoing t' f (cw_store w)\<rparr>)
    \<and> unsent (w\<lparr>cw_store := updateOutgoing t' f (cw_store w)\<rparr>) s = unsent w s
    \<and> is_current t' (updateOutgoing t' f (cw_store w)) = is_current t (cw_store w)"
proof (cases "is_current t (cw_store w)")
  case False
  then have "updateOutgoing t' f (cw_store w) = cw_store w"
    using t' by (auto simp: updateOutgoing_def is_current_def composer_update_def Let_def split: option.splits)
  with inv False show ?thesis by (simp add: is_current_cong[OF t'])
next
  case True
  then obtain d where d: "map_of (drafts (cw_store w)) (tk_scope t) = Some d" "d_operation d = tk_operation t"
    by (auto simp: is_current_def split: option.splits)
  from composer_invD(3)[OF inv t d] obtain o1 where o1: "d_outgoing d = Some o1"
      "file_ids (om_files o1) = file_ids (tk_files t)" by (auto simp: carries_def)
  let ?d = "d\<lparr>d_outgoing := Some (f o1)\<rparr>"
  have u: "w\<lparr>cw_store := updateOutgoing t' f (cw_store w)\<rparr> = set_draft (tk_scope t) ?d w"
    using d o1 t' by (simp add: updateOutgoing_def composer_update_def set_draft_def apply_patch_def no_patch_def or_else_def Let_def)
  note F = f[OF o1(2)]
  have ok: "draft_ok ?d"
    using composer_invD(4)[OF inv d(1)] o1 F by (auto simp: draft_ok_def file_ids_def)
  have "composer_inv (set_draft (tk_scope t) ?d w)"
    by (rule inv_touch[OF inv, of d]) (use d o1 F ok in \<open>auto simp: carries_def\<close>)
  moreover have "draft_contents ?d = draft_contents d" using o1 F by (simp add: draft_contents_def)
  moreover have "is_current t' (updateOutgoing t' f (cw_store w))"
    using u d t' by (auto simp: is_current_def set_draft_def dest: arg_cong[of _ _ cw_store])
  ultimately show ?thesis using u True d by (simp add: unsent_def[of w])
qed

lemma unsent_end_task:
  "unsent (end_task t f w) s = (if s = tk_scope t \<and> is_current t (cw_store w)
     then draft_contents (f (draft_of (cw_store w) s)) else unsent w s)"
proof -
  have "draft_contents (d\<lparr>d_submitting := False\<rparr>) = draft_contents d" for d
    by (simp add: draft_contents_def)
  then show ?thesis by (simp add: end_task_def Let_def)
qed

lemma advance_step:
  assumes inv: "composer_inv w" and t: "t \<in> set (cw_tasks w)"
    and t': "tk_operation t' = tk_operation t" "tk_scope t' = tk_scope t" "tk_text t' = tk_text t"
      "file_ids (tk_files t') = file_ids (tk_files t)"
    and before: "\<forall>f \<in> set (take i (tk_files t')). qf_attachment f \<noteq> None"
  shows "composer_inv (advance_task t' i w) \<and> unsent (advance_task t' i w) s = unsent w s"
proof (cases "is_current t' (cw_store w)")
  case False
  have e: "end_task t' id w = end_task t id w" using t' by (simp add: end_task_def is_current_cong[OF t'(1,2)])
  have "0 < tk_operation t'" using composer_invD(2)[OF inv t] t' by simp
  then have a: "advance_task t' i w = end_task t id w"
    using False e end_task_id[of t' w] by (simp only: advance_task_def if_True not_False_eq_True)
  have "composer_inv (end_task t id w)" by (rule inv_end_task[OF inv t]) simp_all
  moreover have "\<not> is_current t (cw_store w)" using False is_current_cong[OF t'(1,2)] by simp
  ultimately show ?thesis unfolding a by (simp add: unsent_end_task)
next
  case True
  show ?thesis
  proof (cases "next_upload (tk_files t') i")
    case None
    have "composer_inv (put_task (t'\<lparr>tk_phase := Submitting\<rparr>) w)"
      by (rule inv_put_task[OF inv t]) (use t' next_upload_None[OF None before] in \<open>simp_all add: task_ok_def\<close>)
    with True None show ?thesis by (simp add: advance_task_def)
  next
    case (Some j)
    have "composer_inv (put_task (t'\<lparr>tk_phase := Uploading j\<rparr>) w)"
      by (rule inv_put_task[OF inv t]) (use t' next_upload_Some[OF Some before] in \<open>simp_all add: task_ok_def\<close>)
    with True Some show ?thesis by (simp add: advance_task_def)
  qed
qed

lemma uploaded_step:
  assumes inv: "composer_inv w" and t: "t \<in> set (cw_tasks w)" and i: "tk_phase t = Uploading i"
  shows "composer_inv (uploaded t i a w) \<and> unsent (uploaded t i a w) s = unsent w s"
proof -
  let ?fs = "(tk_files t)[i := (tk_files t ! i)\<lparr>qf_attachment := Some a\<rparr>]"
  let ?t = "t\<lparr>tk_files := ?fs\<rparr>"
  let ?w = "w\<lparr>cw_store := updateOutgoing ?t (\<lambda>o1. o1\<lparr>om_files := ?fs\<rparr>) (cw_store w)\<rparr>"
  have ok: "i < length (tk_files t)" "\<forall>f \<in> set (take i (tk_files t)). qf_attachment f \<noteq> None"
    using composer_invD(2)[OF inv t] i by (auto simp: task_ok_def)
  have ids: "file_ids ?fs = file_ids (tk_files t)"
    using ok(1) unfolding file_ids_def map_update by (simp add: list_update_same_conv)
  have u: "composer_inv ?w \<and> unsent ?w s = unsent w s"
    using updateOutgoing_step[OF inv t, of ?t "\<lambda>o1. o1\<lparr>om_files := ?fs\<rparr>" s] ids by simp
  have "take (i + 1) ?fs = take i (tk_files t) @ [(tk_files t ! i)\<lparr>qf_attachment := Some a\<rparr>]"
    using ok(1) by (simp add: take_Suc_conv_app_nth)
  with ok have before: "\<forall>f \<in> set (take (i + 1) ?fs). qf_attachment f \<noteq> None" by simp
  have "composer_inv (advance_task ?t (i + 1) ?w) \<and> unsent (advance_task ?t (i + 1) ?w) s = unsent ?w s"
    by (rule advance_step[of ?w t]) (use u t ids before in auto)
  with u show ?thesis by (simp add: uploaded_def Let_def)
qed

lemma begin_step:
  assumes inv: "composer_inv w"
  shows "composer_inv (begin_submit scope retry w) \<and> unsent (begin_submit scope retry w) s = unsent w s"
proof (cases "beginSend scope retry (cw_store w)")
  case (Pair r st)
  show ?thesis
  proof (cases r)
    case None
    then have "st = cw_store w" using Pair by (auto simp: beginSend_def Let_def split: if_splits option.splits)
    with None Pair inv show ?thesis by (simp add: begin_submit_def)
  next
    case (Some draft)
    let ?st = "cw_store w" and ?n = "nextOperation (cw_store w) + 1"
    define d where "d = draft_of ?st scope"
    obtain c where c: "\<not> d_submitting d" "d_outgoing d = None \<or> retry"
      "(if retry then d_outgoing d else Some \<lparr>om_text = d_text d, om_files = d_files d, om_stages = d_stages d,
          om_progress = d_progress d, om_error = d_error d\<rparr>) = Some c"
      "\<not> (js_trim (om_text c) = [] \<and> om_files c = [])"
      using Pair Some by (auto simp: beginSend_def Let_def d_def split: if_splits option.splits)
    define sending where "sending = (if retry then d else d\<lparr>d_text := [], d_files := [], d_stages := [], d_progress := []\<rparr>)
      \<lparr>d_outgoing := Some (c\<lparr>om_error := None\<rparr>), d_submitting := True, d_error := None, d_operation := ?n\<rparr>"
    have res: "st = ?st\<lparr>drafts := rec_set scope sending (drafts ?st), nextOperation := ?n\<rparr>"
      "d_operation draft = ?n" "d_text draft = om_text c" "d_files draft = om_files c"
      using Pair Some c by (auto simp: beginSend_def Let_def d_def sending_def split: if_splits option.splits)
    have ne: "om_text c \<noteq> [] \<or> om_files c \<noteq> []" using c(4) by (auto simp: js_trim_def)
    define t where "t = \<lparr>tk_scope = scope, tk_operation = ?n, tk_text = om_text c, tk_sent = d_sent draft,
      tk_files = om_files c, tk_phase = (case next_upload (om_files c) 0 of Some j \<Rightarrow> Uploading j | None \<Rightarrow> Submitting)\<rparr>"
    have cur: "is_current \<lparr>tk_scope = scope, tk_operation = ?n, tk_text = om_text c, tk_sent = d_sent draft,
      tk_files = om_files c, tk_phase = Submitting\<rparr> st"
      by (simp add: is_current_def res sending_def)
    have w': "begin_submit scope retry w = put_task t (w\<lparr>cw_store := st\<rparr>)"
      using Pair Some cur by (simp add: begin_submit_def advance_task_def res t_def split: option.split)
    note D = composer_invD[OF inv]
    have drop: "drop_task ?n (cw_tasks w) = cw_tasks w"
      unfolding drop_task_def using D(2) by (intro filter_True) fastforce
    have tok: "task_ok t"
    proof (cases "next_upload (om_files c) 0")
      case None
      then show ?thesis using next_upload_None[OF None] by (simp add: task_ok_def t_def)
    next
      case (Some j)
      then show ?thesis using next_upload_Some[OF Some] by (simp add: task_ok_def t_def)
    qed
    have car: "carries t sending" by (simp add: carries_def sending_def t_def)
    have dk: "draft_ok sending" using ne by (simp add: draft_ok_def sending_def)
    have ts: "cw_tasks (begin_submit scope retry w) = t # cw_tasks w"
      using drop by (simp add: w' put_task_def t_def)
    have st': "cw_store (begin_submit scope retry w) = ?st\<lparr>drafts := rec_set scope sending (drafts ?st), nextOperation := ?n\<rparr>"
      by (simp add: w' put_task_def res)
    have old: "x \<in> set (cw_tasks w) \<Longrightarrow> tk_operation x < ?n" for x using D(2)[of x] by simp
    have "composer_inv (begin_submit scope retry w)"
    proof (rule composer_invI)
      show "distinct (map tk_operation (cw_tasks (begin_submit scope retry w)))"
        using D(1) old by (force simp: ts t_def)
      show "0 < tk_operation x \<and> tk_operation x \<le> nextOperation (cw_store (begin_submit scope retry w)) \<and> task_ok x"
        if "x \<in> set (cw_tasks (begin_submit scope retry w))" for x
        using that D(2)[of x] tok by (auto simp: ts st' t_def)
      show "carries x e" if "x \<in> set (cw_tasks (begin_submit scope retry w))"
          "map_of (drafts (cw_store (begin_submit scope retry w))) (tk_scope x) = Some e" "d_operation e = tk_operation x" for x e
      proof (cases "x = t")
        case True
        with that(2) have "e = sending" by (simp add: st' t_def)
        with True car show ?thesis by simp
      next
        case False
        with that(1) have x: "x \<in> set (cw_tasks w)" by (simp add: ts)
        have "tk_scope x \<noteq> scope" using old[OF x] that(2,3) by (auto simp: st' sending_def)
        with that(2,3) D(3)[OF x] show ?thesis by (simp add: st')
      qed
      show "d_operation e \<le> nextOperation (cw_store (begin_submit scope retry w)) \<and> draft_ok e
          \<and> (d_submitting e \<longrightarrow> (\<exists>x \<in> set (cw_tasks (begin_submit scope retry w)). tk_scope x = k \<and> tk_operation x = d_operation e))"
        if "map_of (drafts (cw_store (begin_submit scope retry w))) k = Some e" for k e
      proof (cases "k = scope")
        case True
        with that dk show ?thesis by (auto simp: st' ts sending_def t_def)
      next
        case False
        with that D(4)[of k e] show ?thesis by (auto simp: st' ts)
      qed
    qed
    moreover have "draft_contents sending = draft_contents d"
    proof (cases retry)
      case True
      with c(3) show ?thesis by (simp add: sending_def draft_contents_def)
    next
      case False
      with c(2,3) have "d_outgoing d = None" "om_text c = d_text d" "om_files c = d_files d" by auto
      with False ne show ?thesis by (simp add: sending_def draft_contents_def)
    qed
    ultimately show ?thesis
      by (simp add: unsent_def st' draft_of_def[of "?st\<lparr>drafts := _, nextOperation := _\<rparr>"])
        (simp add: d_def draft_of_def)
  qed
qed

section \<open>What the composer guarantees\<close>

definition by_system :: "composer_event \<Rightarrow> bool" where
  "by_system e \<longleftrightarrow> (case e of EditDraft s t fs er \<Rightarrow> False | DiscardFailed s \<Rightarrow> False | ResetDrafts \<Rightarrow> False | _ \<Rightarrow> True)"

text \<open>The message a successful \<open>onSubmit\<close> of a live send has delivered for a scope.\<close>

definition delivers :: "composer_event \<Rightarrow> composer_world \<Rightarrow> string \<Rightarrow> (string \<times> string list) multiset" where
  "delivers e w s = (case e of
     Delivered op \<Rightarrow> (case task_of op w of None \<Rightarrow> {#}
       | Some t \<Rightarrow> if tk_phase t = Submitting \<and> tk_scope t = s \<and> is_current t (cw_store w)
           then {#(tk_text t, file_ids (tk_files t))#} else {#})
   | _ \<Rightarrow> {#})"

lemma current_carries:
  assumes "composer_inv w" and "t \<in> set (cw_tasks w)" and "is_current t (cw_store w)"
  shows "carries t (draft_of (cw_store w) (tk_scope t)) \<and> draft_ok (draft_of (cw_store w) (tk_scope t))"
proof -
  from assms(3) obtain d where "map_of (drafts (cw_store w)) (tk_scope t) = Some d" "d_operation d = tk_operation t"
    by (auto simp: is_current_def split: option.splits)
  then show ?thesis using composer_invD(3)[OF assms(1,2)] composer_invD(4)[OF assms(1)] by auto
qed

lemma failure_contents: "draft_ok d \<Longrightarrow> draft_contents (after_failure m d) = draft_contents d"
  by (auto simp: after_failure_def draft_contents_def draft_ok_def split: option.split)

lemma delivery_contents:
  "carries t d \<Longrightarrow> draft_contents (after_delivery t d) + {#(tk_text t, file_ids (tk_files t))#} = draft_contents d"
  by (auto simp: after_delivery_def draft_contents_def carries_def)

lemma system_step:
  assumes inv: "composer_inv w" and e: "by_system e"
  shows "composer_inv (composer_step e w) \<and> unsent (composer_step e w) s + delivers e w s = unsent w s"
proof (cases e)
  case (BeginSubmit scope retry)
  then show ?thesis using begin_step[OF inv] by (simp add: delivers_def)
next
  case (StageReported op fid st)
  show ?thesis
  proof (cases "task_of op w")
    case (Some t)
    from updateOutgoing_step[OF inv task_of_Some[OF Some, THEN conjunct1] refl refl,
        of "\<lambda>o1. o1\<lparr>om_stages := rec_set fid st (om_stages o1)\<rparr>" s]
    show ?thesis using Some StageReported by (simp add: delivers_def)
  qed (use StageReported inv in \<open>simp add: delivers_def\<close>)
next
  case (ProgressReported op fid x)
  show ?thesis
  proof (cases "task_of op w")
    case (Some t)
    from updateOutgoing_step[OF inv task_of_Some[OF Some, THEN conjunct1] refl refl,
        of "\<lambda>o1. o1\<lparr>om_progress := rec_set fid x (om_progress o1)\<rparr>" s]
    show ?thesis using Some ProgressReported by (simp add: delivers_def)
  qed (use ProgressReported inv in \<open>simp add: delivers_def\<close>)
next
  case (Uploaded op a)
  show ?thesis
  proof (cases "task_of op w")
    case (Some t)
    note T = task_of_Some[OF Some, THEN conjunct1]
    show ?thesis
    proof (cases "tk_phase t")
      case (Uploading i)
      from uploaded_step[OF inv T Uploading] show ?thesis
        using Some Uploaded Uploading by (simp add: delivers_def)
    qed (use Some Uploaded inv in \<open>simp add: delivers_def\<close>)
  qed (use Uploaded inv in \<open>simp add: delivers_def\<close>)
next
  case (Delivered op)
  show ?thesis
  proof (cases "task_of op w")
    case (Some t)
    note T = task_of_Some[OF Some, THEN conjunct1]
    have pos: "0 < tk_operation t" using composer_invD(2)[OF inv T] by simp
    show ?thesis
    proof (cases "tk_phase t")
      case Submitting
      have "composer_inv (end_task t (after_delivery t) w)"
        by (rule inv_end_task[OF inv T]) (simp_all add: after_ok)
      moreover have "is_current t (cw_store w) \<Longrightarrow> draft_contents (after_delivery t (draft_of (cw_store w) (tk_scope t)))
          + {#(tk_text t, file_ids (tk_files t))#} = draft_contents (draft_of (cw_store w) (tk_scope t))"
        using current_carries[OF inv T] delivery_contents by blast
      ultimately show ?thesis
        using Some Delivered Submitting
        by (simp add: delivered_end[OF pos] inv_delivered_irrelevant unsent_end_task delivers_def)
          (auto simp: unsent_def)
    qed (use Some Delivered inv in \<open>simp add: delivers_def\<close>)
  qed (use Delivered inv in \<open>simp add: delivers_def\<close>)
next
  case (TaskFailed op m)
  show ?thesis
  proof (cases "task_of op w")
    case (Some t)
    note T = task_of_Some[OF Some, THEN conjunct1]
    have pos: "0 < tk_operation t" using composer_invD(2)[OF inv T] by simp
    have "composer_inv (end_task t (after_failure m) w)"
      by (rule inv_end_task[OF inv T]) (simp_all add: after_ok)
    moreover have "is_current t (cw_store w) \<Longrightarrow> draft_contents (after_failure m (draft_of (cw_store w) (tk_scope t)))
        = draft_contents (draft_of (cw_store w) (tk_scope t))"
      using current_carries[OF inv T] failure_contents by blast
    ultimately show ?thesis
      using Some TaskFailed by (simp add: failed_end[OF pos] unsent_end_task delivers_def) (simp add: unsent_def)
  qed (use TaskFailed inv in \<open>simp add: delivers_def\<close>)
qed (use e in \<open>simp_all add: by_system_def\<close>)

lemma draft_of_ok: "composer_inv w \<Longrightarrow> draft_ok (draft_of (cw_store w) s)"
proof (cases "map_of (drafts (cw_store w)) s")
  case None
  then show ?thesis by (simp add: draft_ok_def EMPTY_DRAFT_def)
next
  case (Some d)
  assume "composer_inv w"
  from composer_invD(4)[OF this Some] Some show ?thesis by simp
qed

lemma user_step:
  assumes inv: "composer_inv w" and e: "\<not> by_system e"
  shows "composer_inv (composer_step e w)"
proof (cases e)
  case (EditDraft scope t fs er)
  let ?d = "draft_of (cw_store w) scope"
  have "composer_inv (set_draft scope (apply_patch (no_patch\<lparr>p_text := t, p_files := fs, p_error := er\<rparr>) ?d) w)"
    using draft_of_ok[OF inv, of scope]
    by (intro inv_touch[OF inv refl]) (simp_all add: apply_patch_def no_patch_def or_else_def carries_def draft_ok_def)
  then show ?thesis using EditDraft by (simp add: update_set_draft)
next
  case (DiscardFailed scope)
  let ?d = "draft_of (cw_store w) scope"
  show ?thesis
  proof (cases "d_outgoing ?d")
    case None
    with DiscardFailed inv show ?thesis by simp
  next
    case (Some o1)
    show ?thesis
    proof (cases "om_error o1 = None")
      case True
      with Some DiscardFailed inv show ?thesis by simp
    next
      case False
      with Some have "composer_inv (set_draft scope (apply_patch (no_patch\<lparr>p_outgoing := Some None\<rparr>) ?d) w)"
        by (intro inv_touch[OF inv refl]) (simp_all add: apply_patch_def no_patch_def or_else_def carries_def draft_ok_def)
      with Some False DiscardFailed inv show ?thesis by (simp add: update_set_draft)
    qed
  qed
next
  case ResetDrafts
  then show ?thesis using composer_invD(1,2)[OF inv]
    by (intro composer_invI) (simp_all add: composer_reset_def)
qed (use e in \<open>simp_all add: by_system_def\<close>)

lemma composer_run_inv: "composer_inv (composer_run es)"
proof (induction es rule: rev_induct)
  case Nil
  show ?case by (simp add: composer_inv_def composer_init_def)
next
  case (snoc e es)
  then show ?case using system_step user_step by (cases "by_system e") auto
qed

text \<open>C3: in every state the composer can reach, no step of the program loses, duplicates or alters what
  the user has written: the messages waiting in a scope (the draft, and the one being sent or failed),
  with their files, are the same before and after, except that a delivery takes away exactly the message
  of the live send it completes.\<close>

theorem no_draft_lost:
  assumes "by_system e"
  shows "unsent (composer_step e (composer_run es)) s + delivers e (composer_run es) s = unsent (composer_run es) s"
  using system_step[OF composer_run_inv assms] by blast

definition two_file_draft :: "composer_event list" where
  "two_file_draft = [EditDraft ''c:1'' (Some '' hi '') (Some [\<lparr>qf_id = ''f1'', qf_file = 1, qf_attachment = None\<rparr>]) None,
     BeginSubmit ''c:1'' False, EditDraft ''c:1'' (Some ''next'') None None,
     StageReported 1 ''f1'' StUploading]"

theorem no_draft_lost_witness:
  "unsent (composer_step (TaskFailed 1 ''offline'') (composer_run two_file_draft)) ''c:1''
     = {#(''next'', []), ('' hi '', [''f1''])#}"
proof -
  have "by_system (TaskFailed 1 ''offline'')" by (simp add: by_system_def)
  from no_draft_lost[OF this, of two_file_draft "''c:1''"]
  have "unsent (composer_step (TaskFailed 1 ''offline'') (composer_run two_file_draft)) ''c:1''
      = unsent (composer_run two_file_draft) ''c:1''" by (simp add: delivers_def)
  moreover have "unsent (composer_run two_file_draft) ''c:1'' = {#(''next'', []), ('' hi '', [''f1''])#}"
    by code_simp
  ultimately show ?thesis by simp
qed

text \<open>C4: a scope is marked as sending exactly while one live send of it exists, no second one can start
  then, and the attachments a send delivers are complete; a send whose draft is gone, after a sign-out,
  changes no draft whatever it still reports.\<close>

theorem one_live_send:
  "let w = composer_run es; st = cw_store w in
     (d_submitting (draft_of st s) \<longleftrightarrow> (\<exists>t \<in> set (cw_tasks w). tk_scope t = s \<and> is_current t st))
   \<and> length (filter (\<lambda>t. tk_scope t = s \<and> is_current t st) (cw_tasks w)) \<le> 1
   \<and> (d_submitting (draft_of st s) \<longrightarrow> beginSend s retry st = (None, st))
   \<and> list_all (\<lambda>t. tk_phase t = Submitting \<longrightarrow> None \<notin> set (map qf_attachment (tk_files t))) (cw_tasks w)
   \<and> (case task_of op w of None \<Rightarrow> True | Some t \<Rightarrow> is_current t st \<or>
        drafts (cw_store (composer_step (Uploaded op a) w)) = drafts st
        \<and> drafts (cw_store (composer_step (Delivered op) w)) = drafts st
        \<and> drafts (cw_store (composer_step (TaskFailed op m) w)) = drafts st
        \<and> drafts (cw_store (composer_step (StageReported op fid stage) w)) = drafts st)"
proof -
  define w where "w = composer_run es"
  define st where "st = cw_store w"
  note inv = composer_run_inv[of es, folded w_def]
  note D = composer_invD[OF inv, folded st_def]
  have 1: "d_submitting (draft_of st s) \<longleftrightarrow> (\<exists>t \<in> set (cw_tasks w). tk_scope t = s \<and> is_current t st)"
  proof
    assume sub: "d_submitting (draft_of st s)"
    then obtain d where "map_of (drafts st) s = Some d" by (cases "map_of (drafts st) s") (simp_all add: EMPTY_DRAFT_def)
    with D(4)[of s d] sub show "\<exists>t \<in> set (cw_tasks w). tk_scope t = s \<and> is_current t st"
      by (auto simp: is_current_def)
  qed (use current_carries[OF inv, folded st_def] in \<open>auto simp: carries_def\<close>)
  have same: "tk_operation t = d_operation (draft_of st s)" if "is_current t st" "tk_scope t = s" for t
    using that by (auto simp: is_current_def split: option.splits)
  have 2: "length (filter (\<lambda>t. tk_scope t = s \<and> is_current t st) (cw_tasks w)) \<le> 1"
  proof -
    define live where "live = filter (\<lambda>t. tk_scope t = s \<and> is_current t st) (cw_tasks w)"
    have "distinct (map tk_operation live)" unfolding live_def by (rule distinct_map_filter) (rule D(1))
    moreover have "\<forall>t \<in> set live. tk_operation t = d_operation (draft_of st s)" using same by (simp add: live_def)
    ultimately have "length live \<le> 1" by (cases live; cases "tl live") auto
    then show ?thesis by (simp add: live_def)
  qed
  have 3: "d_submitting (draft_of st s) \<longrightarrow> beginSend s retry st = (None, st)"
    by (simp add: beginSend_def Let_def)
  have 4: "list_all (\<lambda>t. tk_phase t = Submitting \<longrightarrow> None \<notin> set (map qf_attachment (tk_files t))) (cw_tasks w)"
    unfolding list_all_iff
  proof (intro ballI impI)
    fix t assume t: "t \<in> set (cw_tasks w)" and ph: "tk_phase t = Submitting"
    from D(2)[OF t] have "task_ok t" by blast
    with ph have "\<forall>f \<in> set (tk_files t). qf_attachment f \<noteq> None" by (simp add: task_ok_def)
    then show "None \<notin> set (map qf_attachment (tk_files t))" by force
  qed
  have 5: "drafts (cw_store (composer_step (Uploaded op a) w)) = drafts st
        \<and> drafts (cw_store (composer_step (Delivered op) w)) = drafts st
        \<and> drafts (cw_store (composer_step (TaskFailed op m) w)) = drafts st
        \<and> drafts (cw_store (composer_step (StageReported op fid stage) w)) = drafts st"
    if t: "task_of op w = Some t" and nc: "\<not> is_current t st" for t
  proof -
    have pos: "0 < tk_operation t" using D(2)[of t] task_of_Some[OF t] by blast
    have ends: "cw_store (end_task t f w) = st" for f using nc by (simp add: end_task_def st_def)
    have upd: "updateOutgoing t' f st = st" if "tk_operation t' = tk_operation t" "tk_scope t' = tk_scope t" for t' f
      using nc that by (auto simp: updateOutgoing_def is_current_def composer_update_def Let_def split: option.splits)
    have up: "cw_store (uploaded t i a w) = st" for i
    proof -
      define u where "u = t\<lparr>tk_files := (tk_files t)[i := (tk_files t ! i)\<lparr>qf_attachment := Some a\<rparr>]\<rparr>"
      have u: "tk_operation u = tk_operation t" "tk_scope u = tk_scope t" by (simp_all add: u_def)
      have nc': "\<not> is_current u st" using nc is_current_cong[OF u] by simp
      have w': "w\<lparr>cw_store := st\<rparr> = w" by (simp add: st_def)
      have "uploaded t i a w = advance_task u (i + 1) (w\<lparr>cw_store := updateOutgoing u
          (\<lambda>o1. o1\<lparr>om_files := (tk_files t)[i := (tk_files t ! i)\<lparr>qf_attachment := Some a\<rparr>]\<rparr>) st\<rparr>)"
        by (simp add: uploaded_def Let_def u_def st_def)
      also have "\<dots> = advance_task u (i + 1) w" unfolding upd[OF u] w' ..
      also have "\<dots> = end_task u id w"
        using nc' pos u end_task_id[of u w] by (simp add: advance_task_def st_def)
      finally show ?thesis using nc' by (simp add: end_task_def st_def)
    qed
    have a1: "cw_store (composer_step (Uploaded op a) w) = st"
      using t up by (cases "tk_phase t") (simp_all add: st_def)
    have a2: "cw_store (composer_step (Delivered op) w) = st"
      using t ends[of "after_delivery t"] delivered_end[OF pos, of w] by (cases "tk_phase t") (simp_all add: st_def)
    have a3: "cw_store (composer_step (TaskFailed op m) w) = st"
      using t ends[of "after_failure m"] failed_end[OF pos, of m w] by (simp add: st_def)
    have a4: "cw_store (composer_step (StageReported op fid stage) w) = st"
      using t upd[of t] by (simp add: st_def)
    show ?thesis unfolding a1 a2 a3 a4 by blast
  qed
  have 6: "case task_of op w of None \<Rightarrow> True | Some t \<Rightarrow> is_current t st \<or>
        drafts (cw_store (composer_step (Uploaded op a) w)) = drafts st
        \<and> drafts (cw_store (composer_step (Delivered op) w)) = drafts st
        \<and> drafts (cw_store (composer_step (TaskFailed op m) w)) = drafts st
        \<and> drafts (cw_store (composer_step (StageReported op fid stage) w)) = drafts st"
  proof (cases "task_of op w")
    case (Some t)
    with 5[OF Some] show ?thesis unfolding Some option.case by blast
  qed (simp only: option.case)
  show ?thesis unfolding w_def[symmetric] Let_def st_def[symmetric]
    using 1 2 3 4 6 by blast
qed

theorem one_live_send_witness:
  "beginSend ''c:1'' True (cw_store (composer_run two_file_draft)) = (None, cw_store (composer_run two_file_draft))"
proof -
  have "d_submitting (draft_of (cw_store (composer_run two_file_draft)) ''c:1'')" by code_simp
  with one_live_send[of two_file_draft "''c:1''" True] show ?thesis unfolding Let_def by blast
qed

end
