(* ===== verification/Sync.thy ===== *)
theory Sync
  imports KeyedStores ActivityStores SmallStores UiStore Composer
begin

text \<open>
  \<open>src/lib/spacetimedb/sync.ts\<close>: the passes that project the local database cache onto the stores,
  the recomputation of the unread counters, and the reset on sign-out.  \<open>conn.db\<close> is the record
  \<open>db_cache\<close> of the rows its views iterate over; the stores together are the record \<open>app_state\<close>.
\<close>

section \<open>The cache and the stores\<close>

record member_count_row =
  r_mc_serverId :: num_val
  r_mc_memberCount :: num_val

record db_cache =
  my_visible_users :: "user_row list"
  my_servers :: "server_row list"
  my_server_members :: "server_member_row list"
  discover_server_member_counts :: "member_count_row list"
  my_join_requests :: "join_request_row list"
  my_channels :: "channel_row list"
  my_channel_messages :: "message_row list"
  my_pinned_messages :: "pinned_message_row list"
  my_voice_participants :: "voice_participant_row list"
  my_friends :: "friend_row list"
  my_blocks :: "block_row list"
  my_direct_messages :: "direct_message_row list"
  my_dm_voice_participants :: "dm_voice_participant_row list"
  my_presence_states :: "presence_state_row list"
  my_typing_states :: "typing_state_row list"
  my_read_states :: "read_state_row list"
  my_invites :: "invite_row list"
  my_dm_server_invites :: "dm_server_invite_row list"

record reading_position =
  rp_historyLimit :: nat
  rp_messageCount :: nat
  rp_scrollTop :: int
  rp_followBottom :: bool
  rp_anchorId :: "string option"
  rp_anchorOffset :: "int option"

record app_state =
  as_connection :: connection_state
  as_self :: self_state
  as_users :: users_state
  as_servers :: servers_state
  as_discover :: discover_state
  as_joinRequests :: join_request_state
  as_members :: members_state
  as_channels :: channels_state
  as_invites :: invites_state
  as_messages :: messages_state
  as_pins :: pins_state
  as_voice :: voice_state
  as_friends :: friends_state
  as_dms :: dm_state
  as_dmVoice :: dm_voice_state
  as_presence :: presence_store
  as_typing :: typing_store
  as_read :: read_store
  as_dmInvites :: dm_server_invites_state
  as_ui :: ui_state
  as_composer :: composer_state
  as_readingPositions :: "(string, reading_position) rec"
  as_voiceSession :: voice_session_state
  as_dmVoiceSession :: dm_voice_session_state

text \<open>\<open>useConnectionStore.getState().identity\<close> as the guards \<open>if (!me)\<close> see it: null and the empty
  string count as signed out.\<close>

definition signed_in :: "app_state \<Rightarrow> identity option" where
  "signed_in st = (case cs_identity (as_connection st) of None \<Rightarrow> None | Some i \<Rightarrow> if i = [] then None else Some i)"

section \<open>The passes\<close>

definition add_joined :: "identity \<Rightarrow> u64 list \<Rightarrow> server_member_row \<Rightarrow> u64 list" where
  "add_joined me joined m = (if sameIdentity (toIdentityString (r_mb_userIdentity m)) me
     then (let i = toU64Number (r_mb_serverId m) in if i \<in> set joined then joined else joined @ [i]) else joined)"

definition joinedServerIds :: "db_cache \<Rightarrow> app_state \<Rightarrow> u64 list" where
  "joinedServerIds conn st = (case signed_in st of None \<Rightarrow> []
     | Some me \<Rightarrow> foldl (add_joined me) [] (my_server_members conn))"

definition syncUsers :: "db_cache \<Rightarrow> app_state \<Rightarrow> app_state" where [sync_defs]:
  "syncUsers conn st = (let users = map mapUser (my_visible_users conn);
     st = st\<lparr>as_users := setUsers users (as_users st)\<rparr>
   in case signed_in st of None \<Rightarrow> st
      | Some me \<Rightarrow> st\<lparr>as_self := setUser (find (\<lambda>u. sameIdentity (u_identity u) me) users) (as_self st)\<rparr>)"

definition syncServerList :: "db_cache \<Rightarrow> app_state \<Rightarrow> app_state" where [sync_defs]:
  "syncServerList conn st = (let allowed = joinedServerIds conn st in
     st\<lparr>as_servers := setServers (filter (\<lambda>s. sv_id s \<in> set allowed) (map mapServer (my_servers conn))) (as_servers st)\<rparr>)"

definition member_counts :: "db_cache \<Rightarrow> (u64, int) rec" where
  "member_counts conn = foldl (\<lambda>m row. rec_set (toU64Number (r_mc_serverId row)) (toU64Number (r_mc_memberCount row)) m)
     [] (discover_server_member_counts conn)"

definition syncDiscover :: "db_cache \<Rightarrow> app_state \<Rightarrow> app_state" where [sync_defs]:
  "syncDiscover conn st = (let joined = joinedServerIds conn st; counts = member_counts conn;
     servers = map (\<lambda>s. \<lparr>ds_id = sv_id s, ds_name = sv_name s, ds_ownerIdentity = sv_ownerIdentity s,
         ds_invitePolicy = sv_invitePolicy s, ds_iconUrl = sv_iconUrl s, ds_description = sv_description s,
         ds_tags = sv_tags s, ds_memberCount = rec_or counts (sv_id s) 0\<rparr>)
       (filter (\<lambda>s. sv_isDiscoverable s \<and> sv_id s \<notin> set joined) (map mapServer (my_servers conn)))
   in st\<lparr>as_discover := setDiscoverServers servers (as_discover st)\<rparr>)"

definition moderated_servers :: "db_cache \<Rightarrow> identity option \<Rightarrow> u64 list" where
  "moderated_servers conn me = (case me of None \<Rightarrow> []
     | Some me \<Rightarrow> map mb_serverId (filter (\<lambda>m. sameIdentity (mb_userIdentity m) me
         \<and> (mb_role m = Owner \<or> mb_role m = Moderator)) (map mapServerMember (my_server_members conn))))"

definition join_request_row_step :: "identity option \<Rightarrow> u64 list \<Rightarrow> user list
    \<Rightarrow> (u64, join_request_status) rec \<times> (u64, join_request_with_user list) rec \<Rightarrow> join_request_row
    \<Rightarrow> (u64, join_request_status) rec \<times> (u64, join_request_with_user list) rec" where
  "join_request_row_step me moderated users acc row = (case acc of (mine, byServer) \<Rightarrow> let
     request = mapJoinRequest row; s = jr_serverId request;
     mine = (case me of Some me \<Rightarrow> if sameIdentity (jr_userIdentity request) me
         then rec_set s (if jr_declined request then JrDeclined else JrPending) mine else mine | None \<Rightarrow> mine);
     byServer = (if s \<in> set moderated \<and> \<not> jr_declined request
       then rec_set s (rec_or byServer s [] @ [join_request.extend request
           \<lparr>jr_user = find (\<lambda>u. normalizeIdentity (u_identity u) = normalizeIdentity (jr_userIdentity request)) (rev users)\<rparr>])
         byServer else byServer)
   in (mine, byServer))"

definition syncJoinRequests :: "(string \<Rightarrow> string \<Rightarrow> int) \<Rightarrow> db_cache \<Rightarrow> app_state \<Rightarrow> app_state" where [sync_defs]:
  "syncJoinRequests lc conn st = (let me = signed_in st; users = map mapUser (my_visible_users conn);
     (mine, byServer) = foldl (join_request_row_step me (moderated_servers conn me) users) ([], []) (my_join_requests conn);
     byServer = map (\<lambda>(s, rows). (s, js_sort (\<lambda>a b. lc (jr_createdAt a) (jr_createdAt b)) rows)) byServer
   in st\<lparr>as_joinRequests := setRequests mine byServer (as_joinRequests st)\<rparr>)"

definition with_user :: "user list \<Rightarrow> server_member \<Rightarrow> server_member_with_user" where
  "with_user users m = server_member.extend m \<lparr>mb_user = find (\<lambda>u. u_identity u = mb_userIdentity m) (rev users)\<rparr>"

definition member_rows_of :: "db_cache \<Rightarrow> u64 list \<Rightarrow> server_member_with_user list" where
  "member_rows_of conn allowed = map (with_user (map mapUser (my_visible_users conn)))
     (filter (\<lambda>m. mb_serverId m \<in> set allowed) (map mapServerMember (my_server_members conn)))"

definition syncMembers :: "db_cache \<Rightarrow> app_state \<Rightarrow> app_state" where [sync_defs]:
  "syncMembers conn st = st\<lparr>as_members := replace_all setServerMembers (\<lambda>s. rec_keys (membersByServer s)) id
     mb_serverId (member_rows_of conn (joinedServerIds conn st)) (as_members st)\<rparr>"

definition channel_rows_of :: "db_cache \<Rightarrow> u64 list \<Rightarrow> channel list" where
  "channel_rows_of conn allowed = filter (\<lambda>c. ch_serverId c \<in> set allowed) (map mapChannel (my_channels conn))"

definition syncChannels :: "(string \<Rightarrow> string \<Rightarrow> int) \<Rightarrow> db_cache \<Rightarrow> app_state \<Rightarrow> app_state" where [sync_defs]:
  "syncChannels lc conn st = st\<lparr>as_channels := replace_all setServerChannels (\<lambda>s. rec_keys (channelsByServer s))
     (js_sort (compareChannelsByLayout lc)) ch_serverId (channel_rows_of conn (joinedServerIds conn st)) (as_channels st)\<rparr>"

definition syncMessages :: "(string \<Rightarrow> string \<Rightarrow> int) \<Rightarrow> db_cache \<Rightarrow> app_state \<Rightarrow> app_state" where [sync_defs]:
  "syncMessages lc conn st = st\<lparr>as_messages := replace_all (setChannelMessages lc) (\<lambda>s. rec_keys (messagesByChannel s))
     (js_sort (\<lambda>a b. lc (msg_sentAt a) (msg_sentAt b))) msg_channelId (map mapMessage (my_channel_messages conn)) (as_messages st)\<rparr>"

definition syncPins :: "(string \<Rightarrow> string \<Rightarrow> int) \<Rightarrow> db_cache \<Rightarrow> app_state \<Rightarrow> app_state" where [sync_defs]:
  "syncPins lc conn st = st\<lparr>as_pins := replace_all setChannelPins (\<lambda>s. rec_keys (pinsByChannel s))
     (js_sort (\<lambda>a b. lc (pn_pinnedAt b) (pn_pinnedAt a))) pn_channelId (map mapPinnedMessage (my_pinned_messages conn)) (as_pins st)\<rparr>"

definition syncVoiceParticipants :: "db_cache \<Rightarrow> app_state \<Rightarrow> app_state" where [sync_defs]:
  "syncVoiceParticipants conn st = st\<lparr>as_voice := replace_all setParticipants (\<lambda>s. rec_keys (participantsByChannel s)) id
     vp_channelId (map mapVoiceParticipant (my_voice_participants conn)) (as_voice st)\<rparr>"

definition syncFriends :: "db_cache \<Rightarrow> app_state \<Rightarrow> app_state" where [sync_defs]:
  "syncFriends conn st = (case signed_in st of
     None \<Rightarrow> st\<lparr>as_friends := setBlocked [] (setFriends [] (as_friends st))\<rparr>
   | Some me \<Rightarrow> st\<lparr>as_friends := setBlocked (map mapBlock (my_blocks conn))
       (setFriends (map mapFriend (my_friends conn)) (as_friends st))\<rparr>)"

definition dm_partner :: "identity \<Rightarrow> direct_message \<Rightarrow> identity" where
  "dm_partner me m = (if dm_senderIdentity m = me then dm_recipientIdentity m else dm_senderIdentity m)"

definition syncDirectMessages :: "(string \<Rightarrow> string \<Rightarrow> int) \<Rightarrow> db_cache \<Rightarrow> app_state \<Rightarrow> app_state" where [sync_defs]:
  "syncDirectMessages lc conn st = (case signed_in st of None \<Rightarrow> st
     | Some me \<Rightarrow> st\<lparr>as_dms := replace_all (setConversation lc) (\<lambda>s. rec_keys (conversations s))
         (js_sort (\<lambda>a b. lc (dm_sentAt a) (dm_sentAt b))) (dm_partner me) (map mapDirectMessage (my_direct_messages conn)) (as_dms st)\<rparr>)"

definition syncDmVoiceParticipants :: "db_cache \<Rightarrow> app_state \<Rightarrow> app_state" where [sync_defs]:
  "syncDmVoiceParticipants conn st = st\<lparr>as_dmVoice := replace_all setRoomParticipants (\<lambda>s. rec_keys (participantsByRoom s)) id
     dv_roomKey (map mapDmVoiceParticipant (my_dm_voice_participants conn)) (as_dmVoice st)\<rparr>"

definition syncPresenceStates :: "db_cache \<Rightarrow> app_state \<Rightarrow> app_state" where [sync_defs]:
  "syncPresenceStates conn st = st\<lparr>as_presence := setPresenceRows (map mapPresenceState (my_presence_states conn)) (as_presence st)\<rparr>"

definition syncTypingStates :: "int \<Rightarrow> db_cache \<Rightarrow> app_state \<Rightarrow> app_state" where [sync_defs]:
  "syncTypingStates now conn st = st\<lparr>as_typing := setTypingRows now default_ttl (map mapTypingState (my_typing_states conn)) (as_typing st)\<rparr>"

definition syncReadStates :: "db_cache \<Rightarrow> app_state \<Rightarrow> app_state" where [sync_defs]:
  "syncReadStates conn st = st\<lparr>as_read := setReadRows (map mapReadState (my_read_states conn)) (as_read st)\<rparr>"

definition invite_rows_of :: "int \<Rightarrow> db_cache \<Rightarrow> u64 list \<Rightarrow> invite list" where
  "invite_rows_of now conn allowed = filter (isInviteActive now)
     (filter (\<lambda>i. iv_serverId i \<in> set allowed) (map mapInvite (my_invites conn)))"

text \<open>This pass writes the groups first and empties the other known spaces afterwards.\<close>

definition syncInvites :: "int \<Rightarrow> db_cache \<Rightarrow> app_state \<Rightarrow> app_state" where [sync_defs]:
  "syncInvites now conn st = (let allowed = joinedServerIds conn st;
     grouped = group_rows iv_serverId (invite_rows_of now conn allowed);
     known = rec_keys (invitesByServer (as_invites st)) @ allowed;
     written = foldl (\<lambda>s (k, rs). setServerInvites k rs s) (as_invites st) grouped
   in st\<lparr>as_invites := foldl (\<lambda>s k. if k \<in> set (rec_keys grouped) then s else setServerInvites k [] s) written known\<rparr>)"

definition syncDmServerInvites :: "db_cache \<Rightarrow> app_state \<Rightarrow> app_state" where [sync_defs]:
  "syncDmServerInvites conn st = st\<lparr>as_dmInvites := setDmInvites (map mapDmServerInvite (my_dm_server_invites conn)) (as_dmInvites st)\<rparr>"

section \<open>Unread counters\<close>

definition last_read_ms :: "read_store \<Rightarrow> string \<Rightarrow> int" where
  "last_read_ms rs scope = (case map_of (rowsByScope rs) scope of None \<Rightarrow> 0
     | Some r \<Rightarrow> (case date_parse (rd_lastReadAt r) of None \<Rightarrow> 0 | Some t \<Rightarrow> t))"

definition counts_unread :: "string \<Rightarrow> int \<Rightarrow> identity \<Rightarrow> string \<Rightarrow> bool" where
  "counts_unread normalizedSelf lastRead sender sentAt \<longleftrightarrow> normalizeIdentity sender \<noteq> normalizedSelf
     \<and> (case date_parse sentAt of None \<Rightarrow> False | Some t \<Rightarrow> lastRead < t)"

definition channel_scope :: "u64 \<Rightarrow> string" where
  "channel_scope c = ''channel:'' @ show_int c"

definition recomputeUnread :: "app_state \<Rightarrow> app_state" where
  "recomputeUnread st = (case signed_in st of None \<Rightarrow> st
   | Some self \<Rightarrow> let me = normalizeIdentity self;
       byChannel = foldl (\<lambda>acc (c, ms). let last = last_read_ms (as_read st) (channel_scope c) in
           rec_set c (length (filter (\<lambda>m. counts_unread me last (msg_senderIdentity m) (msg_sentAt m)) ms)) acc)
         [] (messagesByChannel (as_messages st));
       byPartner = foldl (\<lambda>acc (p, ms). let last = last_read_ms (as_read st) (dmReadScopeKey self p) in
           rec_set (normalizeIdentity p) (length (filter (\<lambda>m. counts_unread me last (dm_senderIdentity m) (dm_sentAt m)) ms)) acc)
         [] (conversations (as_dms st))
     in if unreadByChannel (as_ui st) = byChannel \<and> unreadByDmPartner (as_ui st) = byPartner then st
        else st\<lparr>as_ui := (as_ui st)\<lparr>unreadByChannel := byChannel, unreadByDmPartner := byPartner\<rparr>\<rparr>)"

section \<open>The whole pass and the reset\<close>

definition syncServerScopedState :: "(string \<Rightarrow> string \<Rightarrow> int) \<Rightarrow> int \<Rightarrow> db_cache \<Rightarrow> app_state \<Rightarrow> app_state" where
  "syncServerScopedState lc now conn st = syncJoinRequests lc conn (syncDiscover conn (syncInvites now conn
     (syncChannels lc conn (syncMembers conn (syncServerList conn st)))))"

definition syncAll :: "(string \<Rightarrow> string \<Rightarrow> int) \<Rightarrow> int \<Rightarrow> db_cache \<Rightarrow> app_state \<Rightarrow> app_state" where
  "syncAll lc now conn st = recomputeUnread (syncDmServerInvites conn (syncReadStates conn (syncTypingStates now conn
     (syncPresenceStates conn (syncDmVoiceParticipants conn (syncDirectMessages lc conn (syncFriends conn
     (syncVoiceParticipants conn (syncPins lc conn (syncMessages lc conn (syncServerScopedState lc now conn
     (syncUsers conn st))))))))))))"

text \<open>\<open>now\<close> is \<open>Date.now()\<close>; the call sessions are reset by \<open>resetCallSessions\<close>, whose effect on the two
  session stores this is.\<close>

definition resetClientState :: "int \<Rightarrow> app_state \<Rightarrow> app_state" where
  "resetClientState now st = st\<lparr>as_composer := composer_reset (as_composer st), as_readingPositions := [],
     as_voiceSession := voice_session_reset (as_voiceSession st),
     as_dmVoiceSession := dm_voice_session_reset (as_dmVoiceSession st),
     as_connection := setSynced False (setConnIdentity None (as_connection st)),
     as_self := setUser None (as_self st),
     as_users := (as_users st)\<lparr>us_users := [], byIdentity := []\<rparr>,
     as_servers := (as_servers st)\<lparr>ss_servers := [], ss_activeServerId := None\<rparr>,
     as_discover := (as_discover st)\<lparr>dc_servers := []\<rparr>,
     as_joinRequests := (as_joinRequests st)\<lparr>myStatusByServer := [], requestsByServer := []\<rparr>,
     as_channels := (as_channels st)\<lparr>channelsByServer := []\<rparr>,
     as_members := (as_members st)\<lparr>membersByServer := []\<rparr>,
     as_messages := (as_messages st)\<lparr>messagesByChannel := [], olderByChannel := [], historyExhausted := []\<rparr>,
     as_pins := (as_pins st)\<lparr>pinsByChannel := []\<rparr>,
     as_voice := (as_voice st)\<lparr>participantsByChannel := [], vs_activeChannelId := None, vs_localTracks := []\<rparr>,
     as_friends := (as_friends st)\<lparr>fs_friends := [], fs_blocked := []\<rparr>,
     as_dms := (as_dms st)\<lparr>conversations := [], olderByConversation := [], dmHistoryExhausted := []\<rparr>,
     as_dmVoice := (as_dmVoice st)\<lparr>participantsByRoom := []\<rparr>,
     as_read := read_reset (as_read st), as_typing := typing_reset (as_typing st),
     as_invites := (as_invites st)\<lparr>invitesByServer := []\<rparr>,
     as_dmInvites := (as_dmInvites st)\<lparr>dsi_invites := []\<rparr>,
     as_ui := (as_ui st)\<lparr>ui_activeChannelId := None, ui_activeDmPartner := None, rightPanelOpen := False,
       modals := [], unreadByChannel := [], unreadByDmPartner := [], mutedChannels := [], mutedServers := [],
       mutedUsers := []\<rparr>,
     as_presence := presence_reset now (as_presence st)\<rparr>"

end
