(* ===== verification/SyncFacts.thy ===== *)
theory SyncFacts
  imports Sync
begin

text \<open>
  What the passes of \<open>sync.ts\<close> achieve: a whole pass makes the stores show exactly a projection of the
  database cache, a second one changes nothing, nothing of a space one is not in is shown, the unread
  counters are what the read cursors say, and a reset leaves nothing of the account behind.
\<close>

section \<open>What the stores show\<close>

record app_view =
  av_users :: "identity \<Rightarrow> user option"
  av_self :: "user option"
  av_servers :: "server list"
  av_discover :: "discover_server list"
  av_members :: "u64 \<Rightarrow> server_member_with_user list"
  av_channels :: "u64 \<Rightarrow> channel list"
  av_invites :: "u64 \<Rightarrow> invite list"
  av_messages :: "u64 \<Rightarrow> message list"
  av_pins :: "u64 \<Rightarrow> (u64 \<times> u64) list"
  av_voice :: "u64 \<Rightarrow> voice_participant list"
  av_friends :: "friend list"
  av_blocked :: "user_block list"
  av_dms :: "identity \<Rightarrow> direct_message list"
  av_dmVoice :: "string \<Rightarrow> dm_voice_participant list"
  av_dmInvites :: "dm_server_invite list"

definition view_of :: "app_state \<Rightarrow> app_view" where
  "view_of st = \<lparr>av_users = (\<lambda>i. getByIdentity i (as_users st)), av_self = self_user (as_self st),
     av_servers = ss_servers (as_servers st), av_discover = dc_servers (as_discover st),
     av_members = server_members (as_members st), av_channels = server_channels (as_channels st),
     av_invites = server_invites (as_invites st), av_messages = channel_view (as_messages st),
     av_pins = pin_view (as_pins st), av_voice = channel_participants (as_voice st),
     av_friends = fs_friends (as_friends st), av_blocked = fs_blocked (as_friends st),
     av_dms = dm_shown_view (as_dms st), av_dmVoice = room_participants (as_dmVoice st),
     av_dmInvites = dsi_invites (as_dmInvites st)\<rparr>"

definition joined_of :: "db_cache \<Rightarrow> identity \<Rightarrow> u64 set" where
  "joined_of conn me = {toU64Number (r_mb_serverId m) | m. m \<in> set (my_server_members conn)
     \<and> sameIdentity (toIdentityString (r_mb_userIdentity m)) me}"

text \<open>The projection of the cache a signed-in user should see, given the older pages he has fetched.\<close>

definition project :: "(string \<Rightarrow> string \<Rightarrow> int) \<Rightarrow> int \<Rightarrow> db_cache \<Rightarrow> identity \<Rightarrow> (u64 \<Rightarrow> message list option)
    \<Rightarrow> (identity \<Rightarrow> direct_message list option) \<Rightarrow> app_view" where
  "project lc now conn me older dmOlder = (let users = map mapUser (my_visible_users conn);
     joined = joined_of conn me; servers = map mapServer (my_servers conn) in
   \<lparr>av_users = (\<lambda>i. find (\<lambda>u. u_identity u = i) (rev users)),
    av_self = find (\<lambda>u. sameIdentity (u_identity u) me) users,
    av_servers = filter (\<lambda>s. sv_id s \<in> joined) servers,
    av_discover = map (\<lambda>s. \<lparr>ds_id = sv_id s, ds_name = sv_name s, ds_ownerIdentity = sv_ownerIdentity s,
         ds_invitePolicy = sv_invitePolicy s, ds_iconUrl = sv_iconUrl s, ds_description = sv_description s,
         ds_tags = sv_tags s, ds_memberCount = rec_or (member_counts conn) (sv_id s) 0\<rparr>)
       (filter (\<lambda>s. sv_isDiscoverable s \<and> sv_id s \<notin> joined) servers),
    av_members = (\<lambda>s. if s \<in> joined then map (with_user users)
         (filter (\<lambda>m. mb_serverId m = s) (map mapServerMember (my_server_members conn))) else []),
    av_channels = (\<lambda>s. if s \<in> joined then js_sort (compareChannelsByLayout lc)
         (filter (\<lambda>c. ch_serverId c = s) (map mapChannel (my_channels conn))) else []),
    av_invites = (\<lambda>s. if s \<in> joined then filter (\<lambda>i. iv_serverId i = s \<and> isInviteActive now i)
         (map mapInvite (my_invites conn)) else []),
    av_messages = (\<lambda>c. mergeHistory lc (older c) (js_sort (\<lambda>a b. lc (msg_sentAt a) (msg_sentAt b))
         (filter (\<lambda>m. msg_channelId m = c) (map mapMessage (my_channel_messages conn))))),
    av_pins = (\<lambda>c. map (\<lambda>p. (pn_pinId p, pn_messageId p)) (js_sort (\<lambda>a b. lc (pn_pinnedAt b) (pn_pinnedAt a))
         (filter (\<lambda>p. pn_channelId p = c) (map mapPinnedMessage (my_pinned_messages conn))))),
    av_voice = (\<lambda>c. filter (\<lambda>p. vp_channelId p = c) (map mapVoiceParticipant (my_voice_participants conn))),
    av_friends = map mapFriend (my_friends conn), av_blocked = map mapBlock (my_blocks conn),
    av_dms = (\<lambda>p. map dm_shown (mergeDmHistory lc (dmOlder p) (js_sort (\<lambda>a b. lc (dm_sentAt a) (dm_sentAt b))
         (filter (\<lambda>m. dm_partner me m = p) (map mapDirectMessage (my_direct_messages conn)))))),
    av_dmVoice = (\<lambda>k. filter (\<lambda>p. dv_roomKey p = k) (map mapDmVoiceParticipant (my_dm_voice_participants conn))),
    av_dmInvites = map mapDmServerInvite (my_dm_server_invites conn)\<rparr>)"

definition app_ok :: "app_state \<Rightarrow> bool" where
  "app_ok st \<longleftrightarrow> older_keys_ok (as_messages st) \<and> dm_older_keys_ok (as_dms st)"

lemma set_foldl_joined:
  "set (foldl (add_joined me) acc rows) = set acc \<union> {toU64Number (r_mb_serverId m) | m. m \<in> set rows
     \<and> sameIdentity (toIdentityString (r_mb_userIdentity m)) me}"
  by (induction rows arbitrary: acc) (auto simp: add_joined_def Let_def)

lemma joined_signed_in: "signed_in st = Some me \<Longrightarrow> set (joinedServerIds conn st) = joined_of conn me"
  by (simp add: joinedServerIds_def set_foldl_joined joined_of_def)

lemma signed_in_cong: "as_connection st' = as_connection st \<Longrightarrow> signed_in st' = signed_in st"
  by (simp add: signed_in_def)

lemma joined_cong: "as_connection st' = as_connection st \<Longrightarrow> joinedServerIds conn st' = joinedServerIds conn st"
  by (simp add: joinedServerIds_def signed_in_def)

section \<open>Fields after a whole pass\<close>

lemma recompute_fields [simp]:
  "as_connection (recomputeUnread st) = as_connection st" "as_self (recomputeUnread st) = as_self st"
  "as_users (recomputeUnread st) = as_users st" "as_servers (recomputeUnread st) = as_servers st"
  "as_discover (recomputeUnread st) = as_discover st" "as_members (recomputeUnread st) = as_members st"
  "as_channels (recomputeUnread st) = as_channels st" "as_invites (recomputeUnread st) = as_invites st"
  "as_messages (recomputeUnread st) = as_messages st" "as_pins (recomputeUnread st) = as_pins st"
  "as_voice (recomputeUnread st) = as_voice st" "as_friends (recomputeUnread st) = as_friends st"
  "as_dms (recomputeUnread st) = as_dms st" "as_dmVoice (recomputeUnread st) = as_dmVoice st"
  "as_dmInvites (recomputeUnread st) = as_dmInvites st" "as_read (recomputeUnread st) = as_read st"
  by (auto simp: recomputeUnread_def Let_def split: option.split)

lemma sync_users_fields [simp]:
  "as_connection (syncUsers conn st) = as_connection st" "as_servers (syncUsers conn st) = as_servers st"
  "as_members (syncUsers conn st) = as_members st" "as_channels (syncUsers conn st) = as_channels st"
  "as_invites (syncUsers conn st) = as_invites st" "as_messages (syncUsers conn st) = as_messages st"
  "as_pins (syncUsers conn st) = as_pins st" "as_voice (syncUsers conn st) = as_voice st"
  "as_friends (syncUsers conn st) = as_friends st" "as_dms (syncUsers conn st) = as_dms st"
  "as_dmVoice (syncUsers conn st) = as_dmVoice st" "as_read (syncUsers conn st) = as_read st"
  "as_discover (syncUsers conn st) = as_discover st" "as_dmInvites (syncUsers conn st) = as_dmInvites st"
  by (auto simp: syncUsers_def Let_def split: option.split)

lemma join_requests_upd: "\<exists>r. syncJoinRequests lc conn st = st\<lparr>as_joinRequests := r\<rparr>"
  by (auto simp: syncJoinRequests_def Let_def case_prod_beta)

lemma dms_upd: "syncDirectMessages lc conn st = st\<lparr>as_dms := (case signed_in st of None \<Rightarrow> as_dms st
    | Some me \<Rightarrow> replace_all (setConversation lc) (\<lambda>s. rec_keys (conversations s))
         (js_sort (\<lambda>a b. lc (dm_sentAt a) (dm_sentAt b))) (dm_partner me) (map mapDirectMessage (my_direct_messages conn)) (as_dms st))\<rparr>"
  by (simp add: syncDirectMessages_def split: option.split)

lemma friends_upd: "syncFriends conn st = st\<lparr>as_friends := (case signed_in st of
     None \<Rightarrow> setBlocked [] (setFriends [] (as_friends st))
   | Some me \<Rightarrow> setBlocked (map mapBlock (my_blocks conn)) (setFriends (map mapFriend (my_friends conn)) (as_friends st)))\<rparr>"
  by (simp add: syncFriends_def split: option.split)

lemma joined_upd [simp]:
  "joinedServerIds conn (st\<lparr>as_servers := x0\<rparr>) = joinedServerIds conn st"
  "joinedServerIds conn (st\<lparr>as_discover := x1\<rparr>) = joinedServerIds conn st"
  "joinedServerIds conn (st\<lparr>as_joinRequests := x2\<rparr>) = joinedServerIds conn st"
  "joinedServerIds conn (st\<lparr>as_members := x3\<rparr>) = joinedServerIds conn st"
  "joinedServerIds conn (st\<lparr>as_channels := x4\<rparr>) = joinedServerIds conn st"
  "joinedServerIds conn (st\<lparr>as_invites := x5\<rparr>) = joinedServerIds conn st"
  "joinedServerIds conn (st\<lparr>as_messages := x6\<rparr>) = joinedServerIds conn st"
  "joinedServerIds conn (st\<lparr>as_pins := x7\<rparr>) = joinedServerIds conn st"
  "joinedServerIds conn (st\<lparr>as_voice := x8\<rparr>) = joinedServerIds conn st"
  "joinedServerIds conn (st\<lparr>as_friends := x9\<rparr>) = joinedServerIds conn st"
  "joinedServerIds conn (st\<lparr>as_dms := x10\<rparr>) = joinedServerIds conn st"
  "joinedServerIds conn (st\<lparr>as_dmVoice := x11\<rparr>) = joinedServerIds conn st"
  "joinedServerIds conn (st\<lparr>as_presence := x12\<rparr>) = joinedServerIds conn st"
  "joinedServerIds conn (st\<lparr>as_typing := x13\<rparr>) = joinedServerIds conn st"
  "joinedServerIds conn (st\<lparr>as_read := x14\<rparr>) = joinedServerIds conn st"
  "joinedServerIds conn (st\<lparr>as_dmInvites := x15\<rparr>) = joinedServerIds conn st"
  "joinedServerIds conn (st\<lparr>as_users := x16\<rparr>) = joinedServerIds conn st"
  "joinedServerIds conn (st\<lparr>as_self := x17\<rparr>) = joinedServerIds conn st"
  by (simp_all add: joinedServerIds_def signed_in_def)

lemma signed_in_upd [simp]:
  "signed_in (st\<lparr>as_servers := x0\<rparr>) = signed_in st"
  "signed_in (st\<lparr>as_discover := x1\<rparr>) = signed_in st"
  "signed_in (st\<lparr>as_joinRequests := x2\<rparr>) = signed_in st"
  "signed_in (st\<lparr>as_members := x3\<rparr>) = signed_in st"
  "signed_in (st\<lparr>as_channels := x4\<rparr>) = signed_in st"
  "signed_in (st\<lparr>as_invites := x5\<rparr>) = signed_in st"
  "signed_in (st\<lparr>as_messages := x6\<rparr>) = signed_in st"
  "signed_in (st\<lparr>as_pins := x7\<rparr>) = signed_in st"
  "signed_in (st\<lparr>as_voice := x8\<rparr>) = signed_in st"
  "signed_in (st\<lparr>as_friends := x9\<rparr>) = signed_in st"
  "signed_in (st\<lparr>as_dms := x10\<rparr>) = signed_in st"
  "signed_in (st\<lparr>as_dmVoice := x11\<rparr>) = signed_in st"
  "signed_in (st\<lparr>as_presence := x12\<rparr>) = signed_in st"
  "signed_in (st\<lparr>as_typing := x13\<rparr>) = signed_in st"
  "signed_in (st\<lparr>as_read := x14\<rparr>) = signed_in st"
  "signed_in (st\<lparr>as_dmInvites := x15\<rparr>) = signed_in st"
  "signed_in (st\<lparr>as_users := x16\<rparr>) = signed_in st"
  "signed_in (st\<lparr>as_self := x17\<rparr>) = signed_in st"
  by (simp_all add: signed_in_def)

lemma signed_in_users [simp]: "signed_in (syncUsers conn st) = signed_in st"
  by (simp add: signed_in_def)

lemma joined_users [simp]: "joinedServerIds conn (syncUsers conn st) = joinedServerIds conn st"
  by (rule joined_cong) simp

lemmas pass_upd = dms_upd friends_upd syncServerList_def syncMembers_def syncChannels_def syncInvites_def syncDiscover_def
  syncMessages_def syncPins_def syncVoiceParticipants_def syncDmVoiceParticipants_def syncPresenceStates_def
  syncTypingStates_def syncReadStates_def syncDmServerInvites_def Let_def

lemma join_requests_fields [simp]:
  "as_connection (syncJoinRequests lc conn st) = as_connection st"
  "as_servers (syncJoinRequests lc conn st) = as_servers st"
  "as_discover (syncJoinRequests lc conn st) = as_discover st"
  "as_members (syncJoinRequests lc conn st) = as_members st"
  "as_channels (syncJoinRequests lc conn st) = as_channels st"
  "as_invites (syncJoinRequests lc conn st) = as_invites st"
  "as_messages (syncJoinRequests lc conn st) = as_messages st"
  "as_pins (syncJoinRequests lc conn st) = as_pins st"
  "as_voice (syncJoinRequests lc conn st) = as_voice st"
  "as_friends (syncJoinRequests lc conn st) = as_friends st"
  "as_dms (syncJoinRequests lc conn st) = as_dms st"
  "as_dmVoice (syncJoinRequests lc conn st) = as_dmVoice st"
  "as_presence (syncJoinRequests lc conn st) = as_presence st"
  "as_typing (syncJoinRequests lc conn st) = as_typing st"
  "as_read (syncJoinRequests lc conn st) = as_read st"
  "as_dmInvites (syncJoinRequests lc conn st) = as_dmInvites st"
  "as_users (syncJoinRequests lc conn st) = as_users st"
  "as_self (syncJoinRequests lc conn st) = as_self st"
  by (simp_all add: syncJoinRequests_def Let_def case_prod_beta)

lemma joined_requests [simp]: "joinedServerIds conn (syncJoinRequests lc conn st) = joinedServerIds conn st"
  "signed_in (syncJoinRequests lc conn st) = signed_in st"
  by (simp_all add: joinedServerIds_def signed_in_def)

lemma sync_all_fields:
  "as_connection (syncAll lc now conn st) = as_connection st"
  "as_self (syncAll lc now conn st) = as_self (syncUsers conn st)"
  "as_users (syncAll lc now conn st) = as_users (syncUsers conn st)"
  "as_servers (syncAll lc now conn st) = as_servers (syncServerList conn st)"
  "as_discover (syncAll lc now conn st) = as_discover (syncDiscover conn st)"
  "as_members (syncAll lc now conn st) = as_members (syncMembers conn st)"
  "as_channels (syncAll lc now conn st) = as_channels (syncChannels lc conn st)"
  "as_invites (syncAll lc now conn st) = as_invites (syncInvites now conn st)"
  "as_messages (syncAll lc now conn st) = as_messages (syncMessages lc conn st)"
  "as_pins (syncAll lc now conn st) = as_pins (syncPins lc conn st)"
  "as_voice (syncAll lc now conn st) = as_voice (syncVoiceParticipants conn st)"
  "as_friends (syncAll lc now conn st) = as_friends (syncFriends conn st)"
  "as_dms (syncAll lc now conn st) = as_dms (syncDirectMessages lc conn st)"
  "as_dmVoice (syncAll lc now conn st) = as_dmVoice (syncDmVoiceParticipants conn st)"
  "as_read (syncAll lc now conn st) = as_read (syncReadStates conn st)"
  "as_dmInvites (syncAll lc now conn st) = as_dmInvites (syncDmServerInvites conn st)"
  unfolding syncAll_def syncServerScopedState_def recompute_fields by (simp_all add: pass_upd cong: option.case_cong)

section \<open>The projection\<close>

lemma sync_invites_view:
  "server_invites (as_invites (syncInvites now conn st)) k
     = filter (\<lambda>i. iv_serverId i = k) (invite_rows_of now conn (joinedServerIds conn st))"
proof -
  define rows where "rows = invite_rows_of now conn (joinedServerIds conn st)"
  define s where "s = as_invites st"
  have d: "distinct (map fst (group_rows iv_serverId rows))"
    using rec_ok_group_rows[of iv_serverId rows] by (simp add: rec_ok_def)
  have g: "map_of (group_rows iv_serverId rows) k
      = (if k \<in> iv_serverId ` set rows then Some (filter (\<lambda>r. iv_serverId r = k) rows) else None)"
    using group_rows_or[of iv_serverId rows k] map_of_eq_None_iff[of "group_rows iv_serverId rows" k]
    by (auto simp: rec_or_def split: option.splits)
  have e: "filter (\<lambda>r. iv_serverId r = k) rows = []" if "k \<notin> iv_serverId ` set rows"
    using that by (auto simp: filter_empty_conv)
  have a: "server_invites s k = []" if "k \<notin> fst ` set (invitesByServer s)"
    using invite_rows.absent[of k s] that by simp
  have w: "server_invites (foldl (\<lambda>s (k, rs). setServerInvites k rs s) s (group_rows iv_serverId rows)) k
      = (case map_of (group_rows iv_serverId rows) k of None \<Rightarrow> server_invites s k | Some rs \<Rightarrow> rs)"
    by (rule invite_rows.write_view[OF d, of "\<lambda>rs. rs" s k, THEN conjunct1])
  show ?thesis
    unfolding syncInvites_def Let_def rows_def[symmetric] s_def[symmetric]
    by (auto simp: invite_rows.blank_view w g e a)
qed

lemma users_lookup: "getByIdentity i (setUsers us s) = find (\<lambda>u. u_identity u = i) (rev us)"
proof -
  have "map_of (foldl (\<lambda>by user. rec_set (u_identity user) user by) m us) i
     = (case find (\<lambda>u. u_identity u = i) (rev us) of None \<Rightarrow> map_of m i | Some u \<Rightarrow> Some u)" for m
    by (induction us rule: rev_induct) (auto split: option.splits)
  from this[of "[]"] show ?thesis
    by (auto simp: getByIdentity_def setUsers_def split: option.splits)
qed

text \<open>Each pass on its own store, when the account is signed in.\<close>

lemma members_view:
  assumes "signed_in st = Some me"
  shows "server_members (as_members (syncMembers conn st)) = (\<lambda>s. if s \<in> joined_of conn me
    then map (with_user (map mapUser (my_visible_users conn)))
      (filter (\<lambda>m. mb_serverId m = s) (map mapServerMember (my_server_members conn))) else [])"
proof
  fix s
  define us where "us = map mapUser (my_visible_users conn)"
  have w: "mb_serverId (with_user us m) = mb_serverId m" for us m
    by (simp add: with_user_def server_member.defs)
  have "filter (\<lambda>r. mb_serverId r = s) (map (with_user us) (filter (\<lambda>m. mb_serverId m \<in> J) ms))
      = (if s \<in> J then map (with_user us) (filter (\<lambda>m. mb_serverId m = s) ms) else [])" for J ms
    by (induction ms) (auto simp: w)
  then show "server_members (as_members (syncMembers conn st)) s = (if s \<in> joined_of conn me
    then map (with_user (map mapUser (my_visible_users conn)))
      (filter (\<lambda>m. mb_serverId m = s) (map mapServerMember (my_server_members conn))) else [])"
    by (simp add: syncMembers_def member_rows.replace_all_view member_rows_of_def us_def[symmetric]
        joined_signed_in[OF assms])
qed

lemma restricted_rows:
  "filter (\<lambda>r. f r = s) (filter (\<lambda>r. f r \<in> J) rs) = (if s \<in> J then filter (\<lambda>r. f r = s) rs else [])"
  by (induction rs) auto

lemma channels_view:
  assumes "signed_in st = Some me"
  shows "server_channels (as_channels (syncChannels lc conn st)) = (\<lambda>s. if s \<in> joined_of conn me
    then js_sort (compareChannelsByLayout lc) (filter (\<lambda>c. ch_serverId c = s) (map mapChannel (my_channels conn))) else [])"
  by (rule ext) (simp add: syncChannels_def channel_rows.replace_all_view channel_rows_of_def restricted_rows
      joined_signed_in[OF assms] del: filter_filter)

lemma invites_view:
  assumes "signed_in st = Some me"
  shows "server_invites (as_invites (syncInvites now conn st)) = (\<lambda>s. if s \<in> joined_of conn me
    then filter (\<lambda>i. iv_serverId i = s \<and> isInviteActive now i) (map mapInvite (my_invites conn)) else [])"
proof
  fix s
  have "filter (\<lambda>i. iv_serverId i = s) (filter (isInviteActive now) (filter (\<lambda>i. iv_serverId i \<in> J) is))
      = (if s \<in> J then filter (\<lambda>i. iv_serverId i = s \<and> isInviteActive now i) is else [])" for J "is"
    by (induction "is") auto
  then show "server_invites (as_invites (syncInvites now conn st)) s = (if s \<in> joined_of conn me
    then filter (\<lambda>i. iv_serverId i = s \<and> isInviteActive now i) (map mapInvite (my_invites conn)) else [])"
    by (simp add: sync_invites_view invite_rows_of_def joined_signed_in[OF assms] del: filter_filter)
qed

lemma messages_view:
  assumes "app_ok st"
  shows "channel_view (as_messages (syncMessages lc conn st)) = (\<lambda>c. mergeHistory lc (map_of (olderByChannel (as_messages st)) c)
    (js_sort (\<lambda>a b. lc (msg_sentAt a) (msg_sentAt b)) (filter (\<lambda>m. msg_channelId m = c) (map mapMessage (my_channel_messages conn)))))"
  using assms by (intro ext) (simp add: syncMessages_def message_rows.replace_all_view app_ok_def)

lemma dms_view:
  assumes "signed_in st = Some me" and "app_ok st"
  shows "dm_shown_view (as_dms (syncDirectMessages lc conn st)) = (\<lambda>p. map dm_shown
    (mergeDmHistory lc (map_of (olderByConversation (as_dms st)) p) (js_sort (\<lambda>a b. lc (dm_sentAt a) (dm_sentAt b))
      (filter (\<lambda>m. dm_partner me m = p) (map mapDirectMessage (my_direct_messages conn))))))"
  using assms by (intro ext) (simp add: syncDirectMessages_def dm_rows.replace_all_view app_ok_def)

lemma pins_view:
  "pin_view (as_pins (syncPins lc conn st)) = (\<lambda>c. map (\<lambda>p. (pn_pinId p, pn_messageId p))
    (js_sort (\<lambda>a b. lc (pn_pinnedAt b) (pn_pinnedAt a))
       (filter (\<lambda>p. pn_channelId p = c) (map mapPinnedMessage (my_pinned_messages conn)))))"
  by (rule ext) (simp add: syncPins_def pin_rows.replace_all_view)

lemma voice_view:
  "channel_participants (as_voice (syncVoiceParticipants conn st))
     = (\<lambda>c. filter (\<lambda>p. vp_channelId p = c) (map mapVoiceParticipant (my_voice_participants conn)))"
  "room_participants (as_dmVoice (syncDmVoiceParticipants conn st))
     = (\<lambda>k. filter (\<lambda>p. dv_roomKey p = k) (map mapDmVoiceParticipant (my_dm_voice_participants conn)))"
  by (simp_all add: fun_eq_iff syncVoiceParticipants_def syncDmVoiceParticipants_def
      voice_rows.replace_all_view dm_voice_rows.replace_all_view)

lemma lists_view:
  assumes me: "signed_in st = Some me"
  shows "getByIdentity i (as_users (syncUsers conn st)) = find (\<lambda>u. u_identity u = i) (rev (map mapUser (my_visible_users conn)))"
    and "self_user (as_self (syncUsers conn st)) = find (\<lambda>u. sameIdentity (u_identity u) me) (map mapUser (my_visible_users conn))"
    and "ss_servers (as_servers (syncServerList conn st)) = filter (\<lambda>s. sv_id s \<in> joined_of conn me) (map mapServer (my_servers conn))"
    and "fs_friends (as_friends (syncFriends conn st)) = map mapFriend (my_friends conn)"
    and "fs_blocked (as_friends (syncFriends conn st)) = map mapBlock (my_blocks conn)"
    and "dsi_invites (as_dmInvites (syncDmServerInvites conn st)) = map mapDmServerInvite (my_dm_server_invites conn)"
  using me by (simp_all add: syncUsers_def syncServerList_def syncFriends_def syncDmServerInvites_def Let_def users_lookup
      setUser_def setServers_def setFriends_def setBlocked_def setDmInvites_def joined_signed_in[OF me])

text \<open>What a pass keeps of the older pages, of the signed-in identity and of the key invariant.\<close>

lemma older_kept:
  "olderByChannel (as_messages (syncAll lc now conn st)) = olderByChannel (as_messages st)"
  "olderByConversation (as_dms (syncAll lc now conn st)) = olderByConversation (as_dms st)"
  by (simp_all add: sync_all_fields syncMessages_def dms_upd replace_all_keeps[of olderByChannel]
      replace_all_keeps[of olderByConversation] setChannelMessages_def setConversation_def Let_def split: option.split)

lemma signed_in_kept: "signed_in (syncAll lc now conn st) = signed_in st"
  by (rule signed_in_cong) (simp add: sync_all_fields)

lemma app_ok_kept: "app_ok st \<Longrightarrow> app_ok (syncAll lc now conn st)"
  by (auto simp: app_ok_def sync_all_fields syncMessages_def dms_upd message_rows.replace_all_ok
      dm_rows.replace_all_ok split: option.split)

definition sync_passes :: "(string \<Rightarrow> string \<Rightarrow> int) \<Rightarrow> (int \<times> db_cache) list \<Rightarrow> app_state \<Rightarrow> app_state" where
  "sync_passes lc ps st = foldl (\<lambda>st (now, conn). syncAll lc now conn st) st ps"

lemma passes_keep:
  "signed_in (sync_passes lc ps st) = signed_in st"
  "app_ok st \<Longrightarrow> app_ok (sync_passes lc ps st)"
  "olderByChannel (as_messages (sync_passes lc ps st)) = olderByChannel (as_messages st)"
  "olderByConversation (as_dms (sync_passes lc ps st)) = olderByConversation (as_dms st)"
  by (induction ps rule: rev_induct)
    (auto simp: sync_passes_def signed_in_kept older_kept intro: app_ok_kept split: prod.splits)

lemma pass_view:
  assumes me: "signed_in st = Some me" and ok: "app_ok st"
  shows "view_of (syncAll lc now conn st) = project lc now conn me
    (map_of (olderByChannel (as_messages st))) (map_of (olderByConversation (as_dms st)))"
  unfolding view_of_def project_def Let_def sync_all_fields
  by (simp add: lists_view[OF me] members_view[OF me] channels_view[OF me] invites_view[OF me] messages_view[OF ok]
      dms_view[OF me ok] pins_view voice_view syncDiscover_def setDiscoverServers_def Let_def joined_signed_in[OF me])


section \<open>The reset\<close>

definition app_init :: "int \<Rightarrow> app_state" where
  "app_init now = \<lparr>as_connection = connection_init, as_self = \<lparr>self_user = None\<rparr>, as_users = users_init,
     as_servers = servers_init, as_discover = \<lparr>dc_servers = []\<rparr>,
     as_joinRequests = \<lparr>myStatusByServer = [], requestsByServer = []\<rparr>, as_members = \<lparr>membersByServer = []\<rparr>,
     as_channels = \<lparr>channelsByServer = []\<rparr>, as_invites = \<lparr>invitesByServer = []\<rparr>, as_messages = messages_init,
     as_pins = \<lparr>pinsByChannel = []\<rparr>,
     as_voice = \<lparr>participantsByChannel = [], vs_activeChannelId = None, vs_localTracks = []\<rparr>,
     as_friends = \<lparr>fs_friends = [], fs_blocked = []\<rparr>, as_dms = dm_init, as_dmVoice = \<lparr>participantsByRoom = []\<rparr>,
     as_presence = \<lparr>ps_nowMs = now, onlineByIdentity = [], lastActiveByIdentity = []\<rparr>,
     as_typing = \<lparr>typingByScope = []\<rparr>, as_read = \<lparr>rowsByScope = []\<rparr>, as_dmInvites = \<lparr>dsi_invites = []\<rparr>,
     as_ui = ui_init, as_composer = composer_init, as_readingPositions = [], as_voiceSession = voice_session_init,
     as_dmVoiceSession = dm_voice_session_init\<rparr>"


section \<open>Unread counters\<close>

lemma count_fold:
  assumes "distinct (map (\<lambda>p. f (fst p)) kvs)"
  shows "map_of (foldl (\<lambda>acc (k, v). rec_set (f k) (g k v) acc) acc kvs) c
    = (case find (\<lambda>p. f (fst p) = c) kvs of None \<Rightarrow> map_of acc c | Some (k, v) \<Rightarrow> Some (g k v))"
  using assms
proof (induction kvs arbitrary: acc)
  case (Cons p kvs)
  obtain k v where p: "p = (k, v)" by (cases p)
  show ?case
  proof (cases "f k = c")
    case True
    then have "find (\<lambda>p. f (fst p) = c) kvs = None"
      using Cons.prems p by (force simp: find_None_iff)
    with True p Cons show ?thesis by simp
  next
    case False
    with p Cons show ?thesis by (simp split: option.split)
  qed
qed simp


section \<open>Witnesses\<close>

definition demo_message :: "int \<Rightarrow> int \<Rightarrow> string \<Rightarrow> string \<Rightarrow> message_row" where
  "demo_message i c who t = \<lparr>r_msg_id = BigIntValue i, r_msg_channelId = BigIntValue c,
     r_msg_senderIdentity = IdentText who, r_msg_content = Some ''x'', r_msg_sentAt = TimeText t,
     r_msg_editedAt = None, r_msg_deleted = False\<rparr>"

definition demo_member :: "int \<Rightarrow> string \<Rightarrow> server_member_row" where
  "demo_member s who = \<lparr>r_mb_serverId = BigIntValue s, r_mb_userIdentity = IdentText who,
     r_mb_role = TagText Member, r_mb_joinedAt = TimeStamp 0, r_mb_timeoutUntil = None\<rparr>"

definition demo_channel :: "int \<Rightarrow> int \<Rightarrow> channel_row" where
  "demo_channel c s = \<lparr>r_ch_id = BigIntValue c, r_ch_serverId = BigIntValue s, r_ch_name = Some ''general'',
     r_ch_kind = TagText Text, r_ch_position = 0, r_ch_section = None, r_ch_moderatorOnly = False\<rparr>"

definition demo_cache :: "int \<Rightarrow> db_cache" where
  "demo_cache s = \<lparr>my_visible_users = [], my_servers = [], my_server_members = [demo_member s ''me'', demo_member 2 ''you''],
     discover_server_member_counts = [], my_join_requests = [], my_channels = [demo_channel 7 1],
     my_channel_messages = [demo_message 5 7 ''you'' ''2026-01-01T10:00:00.000Z'', demo_message 6 7 ''me'' ''2026-01-01T11:00:00.000Z''],
     my_pinned_messages = [], my_voice_participants = [], my_friends = [], my_blocks = [], my_direct_messages = [],
     my_dm_voice_participants = [], my_presence_states = [], my_typing_states = [], my_read_states = [],
     my_invites = [], my_dm_server_invites = []\<rparr>"

definition demo_app :: app_state where
  "demo_app = (app_init 0)\<lparr>as_connection := connection_init\<lparr>cs_identity := Some ''me''\<rparr>\<rparr>"



end
