(* ===== verification/Json.thy ===== *)
theory Json
  imports JsLib
begin

text \<open>
  \<open>JSON.parse\<close> of the JavaScript standard library, on texts of code units below 256.  A number is kept
  exactly, as the pair of a mantissa and a decimal exponent; \<open>None\<close> is the \<open>SyntaxError\<close>.
\<close>

datatype json = JNull | JBool bool | JNum int int | JStr string | JArr "json list" | JObj "(string \<times> json) list"

definition json_ws :: "char \<Rightarrow> bool" where
  "json_ws c \<longleftrightarrow> c = CHR '' '' \<or> c = CHR 0x09 \<or> c = CHR 0x0A \<or> c = CHR 0x0D"

definition skip_ws :: "string \<Rightarrow> string" where
  "skip_ws s = dropWhile json_ws s"

definition hex_val :: "char \<Rightarrow> nat option" where
  "hex_val c = (let n = of_char c :: nat in if 48 \<le> n \<and> n \<le> 57 then Some (n - 48)
     else if 97 \<le> n \<and> n \<le> 102 then Some (n - 87) else if 65 \<le> n \<and> n \<le> 70 then Some (n - 55) else None)"

definition simple_escape :: "char \<Rightarrow> char option" where
  "simple_escape c = (if c = CHR 0x22 \<or> c = CHR 0x5C \<or> c = CHR ''/'' then Some c
     else if c = CHR ''b'' then Some (CHR 0x08) else if c = CHR ''f'' then Some (CHR 0x0C)
     else if c = CHR ''n'' then Some (CHR 0x0A) else if c = CHR ''r'' then Some (CHR 0x0D)
     else if c = CHR ''t'' then Some (CHR 0x09) else None)"

text \<open>The rest of a string literal after its opening quote.\<close>

definition prepend_char :: "char \<Rightarrow> (string \<times> 'r) option \<Rightarrow> (string \<times> 'r) option" where
  "prepend_char c r = (case r of None \<Rightarrow> None | Some (s, rest) \<Rightarrow> Some (c # s, rest))"

fun parse_string :: "string \<Rightarrow> (string \<times> string) option" where
  "parse_string [] = None"
| "parse_string (c # cs) = (if c = CHR 0x22 then Some ([], cs)
     else if c = CHR 0x5C then (case cs of [] \<Rightarrow> None
       | e # cs' \<Rightarrow> if e = CHR ''u'' then (case cs' of a # b # d # g # cs'' \<Rightarrow>
             (case (hex_val a, hex_val b, hex_val d, hex_val g) of
                (Some a, Some b, Some d, Some g) \<Rightarrow> prepend_char (char_of (4096 * a + 256 * b + 16 * d + g)) (parse_string cs'')
              | _ \<Rightarrow> None) | _ \<Rightarrow> None)
           else (case simple_escape e of None \<Rightarrow> None | Some x \<Rightarrow> prepend_char x (parse_string cs')))
     else if (of_char c :: nat) < 32 then None
     else prepend_char c (parse_string cs))"

definition is_digit :: "char \<Rightarrow> bool" where
  "is_digit c \<longleftrightarrow> digit_val c \<noteq> None"

definition digits_val :: "string \<Rightarrow> int" where
  "digits_val s = (case read_digits 0 s of None \<Rightarrow> 0 | Some n \<Rightarrow> int n)"

text \<open>The exponent part of a number.\<close>

definition parse_exponent :: "string \<Rightarrow> (int \<times> string) option" where
  "parse_exponent s = (case s of
     c # cs \<Rightarrow> if c = CHR ''e'' \<or> c = CHR ''E'' then
         (let (neg, ds) = (case cs of x # r \<Rightarrow> if x = CHR ''-'' then (True, r) else if x = CHR ''+'' then (False, r) else (False, cs)
              | [] \<Rightarrow> (False, []));
            d = takeWhile is_digit ds
          in if d = [] then None else Some (if neg then - digits_val d else digits_val d, drop (length d) ds))
       else Some (0, s)
   | [] \<Rightarrow> Some (0, s))"

definition parse_fraction :: "string \<Rightarrow> (string \<times> string) option" where
  "parse_fraction s = (case s of
     c # cs \<Rightarrow> if c = CHR ''.'' then
         (let d = takeWhile is_digit cs in if d = [] then None else Some (d, drop (length d) cs))
       else Some ([], s)
   | [] \<Rightarrow> Some ([], s))"

definition parse_number :: "string \<Rightarrow> (json \<times> string) option" where
  "parse_number s = (let (neg, s) = (case s of c # cs \<Rightarrow> if c = CHR ''-'' then (True, cs) else (False, s) | [] \<Rightarrow> (False, s));
     d = takeWhile is_digit s; rest = drop (length d) s
   in if d = [] \<or> (hd d = CHR ''0'' \<and> length d > 1) then None
      else case parse_fraction rest of None \<Rightarrow> None | Some (f, rest) \<Rightarrow>
        (case parse_exponent rest of None \<Rightarrow> None | Some (e, rest) \<Rightarrow>
           (let m = digits_val (d @ f) in Some (JNum (if neg then - m else m) (e - int (length f)), rest))))"

fun parse_value :: "nat \<Rightarrow> string \<Rightarrow> (json \<times> string) option"
  and parse_members :: "nat \<Rightarrow> string \<Rightarrow> ((string \<times> json) list \<times> string) option"
  and parse_elems :: "nat \<Rightarrow> string \<Rightarrow> (json list \<times> string) option" where
  "parse_value 0 s = None"
| "parse_value (Suc n) s = (case skip_ws s of [] \<Rightarrow> None
     | c # cs \<Rightarrow>
        if c = CHR ''{'' then
          (case skip_ws cs of d # ds \<Rightarrow> if d = CHR ''}'' then Some (JObj [], ds)
               else map_option (\<lambda>(ms, r). (JObj ms, r)) (parse_members n (d # ds)) | [] \<Rightarrow> None)
        else if c = CHR ''['' then
          (case skip_ws cs of d # ds \<Rightarrow> if d = CHR '']'' then Some (JArr [], ds)
               else map_option (\<lambda>(vs, r). (JArr vs, r)) (parse_elems n (d # ds)) | [] \<Rightarrow> None)
        else if c = CHR 0x22 then map_option (\<lambda>(t, r). (JStr t, r)) (parse_string cs)
        else if starts_with ''true'' (c # cs) then Some (JBool True, drop 3 cs)
        else if starts_with ''false'' (c # cs) then Some (JBool False, drop 4 cs)
        else if starts_with ''null'' (c # cs) then Some (JNull, drop 3 cs)
        else parse_number (c # cs))"
| "parse_members 0 s = None"
| "parse_members (Suc n) s = (case skip_ws s of
     c # cs \<Rightarrow> if c \<noteq> CHR 0x22 then None else
       (case parse_string cs of None \<Rightarrow> None | Some (k, r) \<Rightarrow>
         (case skip_ws r of d # ds \<Rightarrow> if d \<noteq> CHR '':'' then None else
            (case parse_value n ds of None \<Rightarrow> None | Some (v, r) \<Rightarrow>
              (case skip_ws r of e # es \<Rightarrow> if e = CHR ''}'' then Some ([(k, v)], es)
                   else if e = CHR '','' then map_option (\<lambda>(ms, r). ((k, v) # ms, r)) (parse_members n es)
                   else None | [] \<Rightarrow> None)) | [] \<Rightarrow> None)) | [] \<Rightarrow> None)"
| "parse_elems 0 s = None"
| "parse_elems (Suc n) s = (case parse_value n s of None \<Rightarrow> None | Some (v, r) \<Rightarrow>
     (case skip_ws r of e # es \<Rightarrow> if e = CHR '']'' then Some ([v], es)
          else if e = CHR '','' then map_option (\<lambda>(vs, r). (v # vs, r)) (parse_elems n es)
          else None | [] \<Rightarrow> None))"

text \<open>Every two calls consume a character, so twice the length is depth enough.\<close>

definition json_parse :: "string \<Rightarrow> json option" where
  "json_parse s = (case parse_value (2 * length s + 2) s of
     Some (v, rest) \<Rightarrow> if skip_ws rest = [] then Some v else None | None \<Rightarrow> None)"

text \<open>A property of a parsed object: the last binding of the key, \<open>None\<close> for \<open>undefined\<close>.\<close>

definition json_field :: "string \<Rightarrow> json \<Rightarrow> json option" where
  "json_field k v = (case v of JObj ms \<Rightarrow> map_of (rev ms) k | _ \<Rightarrow> None)"

section \<open>Numbers\<close>

text \<open>
  A literal too large for a double is read as \<open>Infinity\<close>.  \<open>Math.round\<close> rounds halves up; the result is exact
  below \<open>2\<^sup>53\<close>, above it the double nearest to the literal is meant.
\<close>

definition json_finite :: "int \<Rightarrow> int \<Rightarrow> bool" where
  "json_finite m e \<longleftrightarrow> e < 400 \<and> (if 0 \<le> e then \<bar>m\<bar> * 10 ^ nat e < 2 ^ 1024 - 2 ^ 970
     else \<bar>m\<bar> < (2 ^ 1024 - 2 ^ 970) * 10 ^ nat (- e)) \<or> m = 0"

definition json_round :: "int \<Rightarrow> int \<Rightarrow> int" where
  "json_round m e = (if 0 \<le> e then m * 10 ^ nat e else (2 * m + 10 ^ nat (- e)) div (2 * 10 ^ nat (- e)))"

section \<open>Reading back what was printed\<close>

lemma json_finite_small: "\<bar>m\<bar> < 2 ^ 53 \<Longrightarrow> json_finite m 0"
  by (simp add: json_finite_def)

lemma json_round_int [simp]: "json_round m 0 = m"
  by (simp add: json_round_def)

lemma digit_char_is_digit [simp]: "n < 10 \<Longrightarrow> is_digit (digit_char n)"
  by (simp add: is_digit_def)

lemma show_nat_digits: "\<forall>c\<in>set (show_nat n). is_digit c"
proof (induction n rule: show_nat.induct)
  case (1 n)
  then show ?case by (subst show_nat.simps) auto
qed

lemma show_nat_ne [simp]: "show_nat n \<noteq> []"
  by (subst show_nat.simps) simp

lemma show_nat_no_leading_zero: "hd (show_nat n) = CHR ''0'' \<Longrightarrow> length (show_nat n) = 1"
proof (induction n rule: show_nat.induct)
  case (1 n)
  show ?case
  proof (cases "n < 10")
    case True
    then show ?thesis by (simp add: show_nat.simps)
  next
    case False
    then have "hd (show_nat n) = hd (show_nat (n div 10))" by (subst show_nat.simps) simp
    with 1 False have "length (show_nat (n div 10)) = 1" and h: "hd (show_nat (n div 10)) = CHR ''0''" by auto
    have d: "0 < n div 10" using False by simp
    have "\<not> 10 \<le> n div 10"
    proof
      assume "10 \<le> n div 10"
      then have "length (show_nat (n div 10)) = Suc (length (show_nat (n div 10 div 10)))" by (rule show_nat_step)
      with \<open>length (show_nat (n div 10)) = 1\<close> show False by simp
    qed
    then have "show_nat (n div 10) = [digit_char (n div 10)]" by (simp add: show_nat.simps)
    moreover have "digit_char 0 = CHR ''0''" by code_simp
    ultimately have "digit_char (n div 10) = digit_char 0" using h by simp
    with d \<open>\<not> 10 \<le> n div 10\<close> have False
      by (metis digit_val_char not_le option.inject zero_less_numeral less_irrefl)
    then show ?thesis ..
  qed
qed

lemma takeWhile_digits:
  "\<not> is_digit c \<Longrightarrow> takeWhile is_digit (show_nat n @ c # r) = show_nat n"
  "takeWhile is_digit (show_nat n) = show_nat n"
  using show_nat_digits[of n] by (auto simp: takeWhile_append2 takeWhile_eq_all_conv)

lemma parse_number_show:
  assumes "\<not> is_digit c" "c \<noteq> CHR ''.''" "c \<noteq> CHR ''e''" "c \<noteq> CHR ''E''"
  shows "parse_number (show_nat n @ c # r) = Some (JNum (int n) 0, c # r)"
proof -
  have h: "hd (show_nat n) \<noteq> CHR ''-''"
    using show_nat_digits[of n] hd_in_set[of "show_nat n"] by (force simp: is_digit_def digit_val_def Let_def)
  obtain x xs where x: "show_nat n = x # xs" by (cases "show_nat n") auto
  have dv: "digits_val (x # xs) = int n" using read_show_nat[of n] unfolding x digits_val_def by simp
  have "length (show_nat n) = 1" if "hd (show_nat n) = CHR ''0''" using show_nat_no_leading_zero[OF that] .
  then show ?thesis
    using h assms takeWhile_digits(1)[OF assms(1), of n r]
    by (auto simp: parse_number_def Let_def x parse_fraction_def parse_exponent_def dv)
qed

lemma starts_with_iff: "starts_with p s \<longleftrightarrow> (\<exists>r. s = p @ r)"
  unfolding starts_with_def by (metis append_eq_conv_conj append_take_drop_id)

lemma starts_with_append: "starts_with (p @ q) s \<longleftrightarrow> starts_with p s \<and> starts_with q (drop (length p) s)"
  by (auto simp: starts_with_iff)

lemma digit_not_special:
  assumes "is_digit x"
  shows "\<not> json_ws x" "x \<noteq> CHR ''{''" "x \<noteq> CHR ''[''" "x \<noteq> CHR 0x22" "x \<noteq> CHR ''t''" "x \<noteq> CHR ''f''" "x \<noteq> CHR ''n''"
  using assms by (auto simp: is_digit_def digit_val_def json_ws_def Let_def)

lemma parse_value_show:
  assumes "\<not> is_digit c" "c \<noteq> CHR ''.''" "c \<noteq> CHR ''e''" "c \<noteq> CHR ''E''"
  shows "parse_value (Suc f) (show_nat n @ c # r) = Some (JNum (int n) 0, c # r)"
proof -
  obtain x xs where x: "show_nat n = x # xs" by (cases "show_nat n") auto
  then have "is_digit x" using show_nat_digits[of n] by simp
  note d = digit_not_special[OF this]
  show ?thesis
    using parse_number_show[OF assms, of n r] d by (simp add: x skip_ws_def starts_with_def)
qed

end
