(* ===== verification/Notifications.thy ===== *)
theory Notifications
  imports UiStore
begin

text \<open>
  \<open>src/lib/notifications.ts\<close>: which events become notifications of the operating system, their text,
  and the two brakes (a key is silent for two seconds, six notifications in ten seconds).  The module
  state is \<open>notify_state\<close>, what the function reads from its surroundings is \<open>notify_env\<close>.
  The ellipsis U+2026 of a shortened preview is written as the character 133.
\<close>

section \<open>Events and payloads\<close>

datatype notification_priority = NormalPriority | SilentPriority

datatype notification_event_type = EvChannelMessage | EvMention | EvDirectMessage | EvFriendRequest
  | EvFriendAccepted | EvIncomingCall | EvMissedCall | EvCallEnded | EvSystem

text \<open>An event type with the fields of its own payload type, in the order of the source.\<close>

datatype notification_payload =
    ChannelMessageP string string "string option"
  | MentionP string string "string option"
  | DirectMessageP string string
  | FriendRequestP string
  | FriendAcceptedP string
  | IncomingCallP string
  | MissedCallP string "string option"
  | CallEndedP string "string option"
  | SystemP string string "notification_priority option"

record notification =
  nf_payload :: notification_payload
  nf_dedupeKey :: "string option"
  nf_suppress :: bool
  nf_suppressIfFocusedAndActive :: bool

fun event_type :: "notification_payload \<Rightarrow> notification_event_type" where
  "event_type (ChannelMessageP _ _ _) = EvChannelMessage"
| "event_type (MentionP _ _ _) = EvMention"
| "event_type (DirectMessageP _ _) = EvDirectMessage"
| "event_type (FriendRequestP _) = EvFriendRequest"
| "event_type (FriendAcceptedP _) = EvFriendAccepted"
| "event_type (IncomingCallP _) = EvIncomingCall"
| "event_type (MissedCallP _ _) = EvMissedCall"
| "event_type (CallEndedP _ _) = EvCallEnded"
| "event_type (SystemP _ _ _) = EvSystem"

record formatted_notification =
  fn_title :: string
  fn_body :: string
  fn_priority :: notification_priority
  fn_dedupeKey :: string

record notify_state =
  recentByDedupeKey :: "(string, int) rec"
  emittedAtTimestamps :: "int list"

definition notify_init :: notify_state where
  "notify_init = \<lparr>recentByDedupeKey = [], emittedAtTimestamps = []\<rparr>"

record notify_env =
  ne_settings :: notification_settings
  ne_focused :: bool
  ne_now :: int
  ne_minutes :: int

definition DEDUPE_WINDOW_MS :: int where "DEDUPE_WINDOW_MS = 2000"
definition RATE_LIMIT_WINDOW_MS :: int where "RATE_LIMIT_WINDOW_MS = 10000"
definition RATE_LIMIT_MAX_EVENTS :: nat where "RATE_LIMIT_MAX_EVENTS = 6"
definition PREVIEW_MAX_LENGTH :: nat where "PREVIEW_MAX_LENGTH = 90"

fun preference_key :: "notification_event_type \<Rightarrow> notification_event option" where
  "preference_key EvChannelMessage = Some ChannelMessages"
| "preference_key EvMention = Some Mentions"
| "preference_key EvDirectMessage = Some DirectMessages"
| "preference_key EvFriendRequest = Some FriendRequests"
| "preference_key EvFriendAccepted = Some FriendAcceptedEvent"
| "preference_key EvIncomingCall = Some IncomingCalls"
| "preference_key EvMissedCall = Some MissedCalls"
| "preference_key EvCallEnded = Some MissedCalls"
| "preference_key EvSystem = None"

fun matrix_priority :: "notification_event_type \<Rightarrow> notification_priority" where
  "matrix_priority EvFriendAccepted = SilentPriority"
| "matrix_priority EvCallEnded = SilentPriority"
| "matrix_priority _ = NormalPriority"

section \<open>Text\<close>

function collapse_spaces :: "string \<Rightarrow> string" where
  "collapse_spaces [] = []"
| "collapse_spaces (c # cs) = (if js_space c then CHR '' '' # collapse_spaces (dropWhile js_space cs)
     else c # collapse_spaces cs)"
  by pat_completeness auto
termination
  by (relation "measure length") (auto simp: less_Suc_eq_le length_dropWhile_le)

definition ellipsis :: char where "ellipsis = char_of (133 :: nat)"

definition truncatePreview :: "string \<Rightarrow> string" where
  "truncatePreview content = (let normalized = js_trim (collapse_spaces content) in
     if length normalized \<le> PREVIEW_MAX_LENGTH then normalized
     else take (PREVIEW_MAX_LENGTH - 1) normalized @ [ellipsis])"

definition timeToMinutes :: "string \<Rightarrow> int option" where
  "timeToMinutes value = (let minutes = (\<lambda>h m1 m2. case (h, read_digits 0 [m1, m2]) of
       (Some hours, Some mins) \<Rightarrow> if hours > 23 \<or> mins > 59 then None else Some (int hours * 60 + int mins)
     | _ \<Rightarrow> None)
   in case js_trim value of
        [h, c, m1, m2] \<Rightarrow> if c = CHR '':'' then minutes (read_digits 0 [h]) m1 m2 else None
      | [h1, h2, c, m1, m2] \<Rightarrow> if c = CHR '':'' then minutes (read_digits 0 [h1, h2]) m1 m2 else None
      | _ \<Rightarrow> None)"

definition isQuietHoursActive :: "notification_settings \<Rightarrow> int \<Rightarrow> bool" where
  "isQuietHoursActive settings nowMinutes = (if \<not> quietHoursEnabled settings then False
     else case (timeToMinutes (quietHoursStart settings), timeToMinutes (quietHoursEnd settings)) of
       (Some start, Some stop) \<Rightarrow> if start = stop then False
         else if start < stop then start \<le> nowMinutes \<and> nowMinutes < stop
         else start \<le> nowMinutes \<or> nowMinutes < stop
     | _ \<Rightarrow> False)"

definition or_text :: "string option \<Rightarrow> string \<Rightarrow> string" where
  "or_text t d = (case t of None \<Rightarrow> d | Some s \<Rightarrow> s)"

text \<open>A label is shown when it is there and not empty.\<close>

definition shown_label :: "string option \<Rightarrow> bool" where
  "shown_label l \<longleftrightarrow> l \<noteq> None \<and> l \<noteq> Some []"

fun notification_text :: "bool \<Rightarrow> notification_payload \<Rightarrow> string \<times> string \<times> string" where
  "notification_text previews (ChannelMessageP sender content channel) =
     (sender, if previews then truncatePreview content else ''New message in #'' @ or_text channel ''channel'',
      ''channel_message:'' @ sender @ '':'' @ or_text channel [] @ '':'' @ content)"
| "notification_text previews (MentionP sender content channel) =
     (sender @ '' mentioned you'', if previews then truncatePreview content else ''Mention in #'' @ or_text channel ''channel'',
      ''mention:'' @ sender @ '':'' @ or_text channel [] @ '':'' @ content)"
| "notification_text previews (DirectMessageP sender content) =
     (sender, if previews then truncatePreview content else ''New direct message'',
      ''direct_message:'' @ sender @ '':'' @ content)"
| "notification_text previews (FriendRequestP username) =
     (''Friend Request'', ''New friend request from '' @ username, ''friend_request:'' @ username)"
| "notification_text previews (FriendAcceptedP username) =
     (''Friend Request Accepted'', username @ '' accepted your friend request'', ''friend_accepted:'' @ username)"
| "notification_text previews (IncomingCallP caller) =
     (''Incoming call'', caller @ '' is calling you'', ''incoming_call:'' @ caller)"
| "notification_text previews (MissedCallP caller duration) =
     (''Missed call'', ''You missed a call from '' @ caller @
        (if shown_label duration then '' ('' @ or_text duration [] @ '')'' else []),
      ''missed_call:'' @ caller @ '':'' @ or_text duration [])"
| "notification_text previews (CallEndedP peer duration) =
     (''Call ended'', (if shown_label duration then peer @ '' call ended after '' @ or_text duration [] else peer @ '' call ended''),
      ''call_ended:'' @ peer @ '':'' @ or_text duration [])"
| "notification_text previews (SystemP title body _) = (title, truncatePreview body, ''system:'' @ title @ '':'' @ body)"

definition base_priority :: "notification_payload \<Rightarrow> notification_priority" where
  "base_priority p = (case p of SystemP _ _ (Some prio) \<Rightarrow> prio | _ \<Rightarrow> matrix_priority (event_type p))"

definition formatNotification :: "notification_settings \<Rightarrow> notification \<Rightarrow> formatted_notification" where
  "formatNotification settings n = (case notification_text (showPreviews settings) (nf_payload n) of
     (title, body, key) \<Rightarrow> \<lparr>fn_title = title, fn_body = body, fn_priority = base_priority (nf_payload n),
       fn_dedupeKey = or_text (nf_dedupeKey n) key\<rparr>)"

section \<open>The decision\<close>

definition shouldRateLimit :: "int \<Rightarrow> notify_state \<Rightarrow> notify_state \<times> bool" where
  "shouldRateLimit now st = (let kept = dropWhile (\<lambda>t. now - t > RATE_LIMIT_WINDOW_MS) (emittedAtTimestamps st)
   in (st\<lparr>emittedAtTimestamps := kept\<rparr>, length kept \<ge> RATE_LIMIT_MAX_EVENTS))"

definition seenRecently :: "string \<Rightarrow> int \<Rightarrow> notify_state \<Rightarrow> notify_state \<times> bool" where
  "seenRecently key now st = (case map_of (recentByDedupeKey st) key of
     Some lastSeen \<Rightarrow> if now - lastSeen < DEDUPE_WINDOW_MS then (st, True)
       else (st\<lparr>recentByDedupeKey := filter (\<lambda>(k, t). \<not> now - t > DEDUPE_WINDOW_MS * 4)
               (rec_set key now (recentByDedupeKey st))\<rparr>, False)
   | None \<Rightarrow> (st\<lparr>recentByDedupeKey := filter (\<lambda>(k, t). \<not> now - t > DEDUPE_WINDOW_MS * 4)
               (rec_set key now (recentByDedupeKey st))\<rparr>, False))"

definition shouldSuppressForPreferences :: "notify_env \<Rightarrow> notification \<Rightarrow> bool" where
  "shouldSuppressForPreferences env n = (let settings = ne_settings env in
     if \<not> nt_enabled settings then True
     else if isQuietHoursActive settings (ne_minutes env) then True
     else if (case preference_key (event_type (nf_payload n)) of None \<Rightarrow> False | Some k \<Rightarrow> \<not> eventToggles settings k) then True
     else if nf_suppress n then True
     else nf_suppressIfFocusedAndActive n \<and> ne_focused env)"

text \<open>The second component is what is handed to the operating system, if anything; the promise of
  \<open>notify\<close> is true when that succeeds.\<close>

definition notify :: "notify_env \<Rightarrow> notification \<Rightarrow> notify_state \<Rightarrow> notify_state \<times> formatted_notification option" where
  "notify env n st = (if shouldSuppressForPreferences env n then (st, None)
     else let formatted = formatNotification (ne_settings env) n; (st, seen) = seenRecently (fn_dedupeKey formatted) (ne_now env) st
     in if seen then (st, None)
        else let (st, limited) = shouldRateLimit (ne_now env) st
        in if limited then (st, None)
           else (st\<lparr>emittedAtTimestamps := emittedAtTimestamps st @ [ne_now env]\<rparr>, Some formatted))"

section \<open>Badge and permission\<close>

definition getTotalUnreadCount :: "ui_state \<Rightarrow> nat" where
  "getTotalUnreadCount ui = sum_list (map snd (unreadByChannel ui)) + sum_list (map snd (unreadByDmPartner ui))"

datatype permission_state = PermDefault | PermGranted | PermDenied | PermUnsupported

text \<open>\<open>requested\<close> is what asking the user would return.\<close>

definition ensureNotificationPermission :: "bool \<Rightarrow> permission_state \<Rightarrow> permission_state \<Rightarrow> permission_state" where
  "ensureNotificationPermission prompt current requested =
     (if \<not> prompt \<or> current \<noteq> PermDefault then current else requested)"

definition sendTestNotification :: "permission_state \<Rightarrow> permission_state \<Rightarrow> notify_env \<Rightarrow> notify_state
    \<Rightarrow> notify_state \<times> formatted_notification option" where
  "sendTestNotification current requested env st =
     (let permission = ensureNotificationPermission True current requested in
      if permission = PermDenied \<or> permission = PermUnsupported then (st, None)
      else notify env \<lparr>nf_payload = SystemP ''LetsChat'' ''Notifications are configured correctly.'' None,
        nf_dedupeKey = Some (''test:'' @ show_int (ne_now env)), nf_suppress = False,
        nf_suppressIfFocusedAndActive = False\<rparr> st)"

section \<open>Previews and quiet hours\<close>

lemma length_truncatePreview: "length (truncatePreview s) \<le> 90"
  by (simp add: truncatePreview_def Let_def PREVIEW_MAX_LENGTH_def)

lemma timeToMinutes_range: "timeToMinutes s = Some m \<Longrightarrow> 0 \<le> m \<and> m < 1440"
  by (auto simp: timeToMinutes_def Let_def split: list.splits option.splits if_splits)

text \<open>C20: Quiet hours are a half-open interval of the clock face: for every minute of the day they are active
  exactly when they are enabled, both ends are readable and different, and going clockwise from the start
  one meets the current minute before the end, also when the interval passes midnight.\<close>

theorem quiet_hours_interval:
  assumes "0 \<le> now" and "now < 1440"
  shows "isQuietHoursActive settings now \<longleftrightarrow> quietHoursEnabled settings \<and>
    (\<exists>s e. timeToMinutes (quietHoursStart settings) = Some s \<and> timeToMinutes (quietHoursEnd settings) = Some e
       \<and> (now - s) mod 1440 < (e - s) mod 1440)"
proof -
  have arc: "(if s = e then False else if s < e then s \<le> now \<and> now < e else s \<le> now \<or> now < e)
      \<longleftrightarrow> (now - s) mod 1440 < (e - s) mod 1440"
    if "0 \<le> s" "s < 1440" "0 \<le> e" "e < 1440" for s e
  proof -
    have m: "(a - s) mod 1440 = (if s \<le> a then a - s else a - s + 1440)" if "0 \<le> a" "a < 1440" for a
    proof (cases "s \<le> a")
      case False
      then have "(a - s + 1440) mod 1440 = a - s + 1440"
        using that \<open>0 \<le> s\<close> \<open>s < 1440\<close> by (intro mod_pos_pos_trivial) auto
      with False show ?thesis by simp
    qed (use that \<open>0 \<le> s\<close> \<open>s < 1440\<close> in \<open>auto simp: mod_pos_pos_trivial\<close>)
    show ?thesis using that assms by (auto simp: m)
  qed
  show ?thesis
  proof (cases "\<exists>s e. timeToMinutes (quietHoursStart settings) = Some s \<and> timeToMinutes (quietHoursEnd settings) = Some e")
    case True
    then obtain s e where t: "timeToMinutes (quietHoursStart settings) = Some s" "timeToMinutes (quietHoursEnd settings) = Some e"
      by blast
    then have "0 \<le> s" "s < 1440" "0 \<le> e" "e < 1440" by (simp_all add: timeToMinutes_range)
    from arc[OF this] t show ?thesis by (simp add: isQuietHoursActive_def)
  qed (auto simp: isQuietHoursActive_def split: option.split)
qed

theorem quiet_hours_interval_witness:
  "isQuietHoursActive (DEFAULT_NOTIFICATION_SETTINGS\<lparr>quietHoursEnabled := True\<rparr>) 60"
proof -
  have "quietHoursEnabled (DEFAULT_NOTIFICATION_SETTINGS\<lparr>quietHoursEnabled := True\<rparr>)
    \<and> timeToMinutes (quietHoursStart (DEFAULT_NOTIFICATION_SETTINGS\<lparr>quietHoursEnabled := True\<rparr>)) = Some 1320
    \<and> timeToMinutes (quietHoursEnd (DEFAULT_NOTIFICATION_SETTINGS\<lparr>quietHoursEnabled := True\<rparr>)) = Some 420
    \<and> (60 - 1320) mod 1440 < (420 - 1320) mod (1440 :: int)"
    by code_simp
  then show ?thesis by (subst quiet_hours_interval) (simp, simp, blast)
qed

section \<open>The two brakes over time\<close>

text \<open>A run of calls, with the log of what was handed to the operating system: when and under which key.\<close>

fun notify_log :: "notify_state \<times> (int \<times> string) list \<Rightarrow> notify_env \<times> notification \<Rightarrow> notify_state \<times> (int \<times> string) list" where
  "notify_log (st, log) (env, n) = (case notify env n st of
     (st', None) \<Rightarrow> (st', log) | (st', Some f) \<Rightarrow> (st', log @ [(ne_now env, fn_dedupeKey f)]))"

definition notify_run :: "(notify_env \<times> notification) list \<Rightarrow> notify_state \<times> (int \<times> string) list" where
  "notify_run calls = foldl notify_log (notify_init, []) calls"

definition paced :: "(int \<times> string) list \<Rightarrow> bool" where
  "paced log \<longleftrightarrow> (\<forall>i j. i < j \<longrightarrow> j < length log \<longrightarrow> snd (log ! i) = snd (log ! j) \<longrightarrow> DEDUPE_WINDOW_MS \<le> fst (log ! j) - fst (log ! i))
     \<and> (\<forall>i. i + RATE_LIMIT_MAX_EVENTS < length log \<longrightarrow>
          RATE_LIMIT_WINDOW_MS < fst (log ! (i + RATE_LIMIT_MAX_EVENTS)) - fst (log ! i))"

definition notify_inv :: "int \<Rightarrow> notify_state \<Rightarrow> (int \<times> string) list \<Rightarrow> bool" where
  "notify_inv T st log \<longleftrightarrow> sorted (map fst log) \<and> (\<forall>e\<in>set log. fst e \<le> T)
     \<and> (\<exists>old. map fst log = old @ emittedAtTimestamps st \<and> (\<forall>t\<in>set old. RATE_LIMIT_WINDOW_MS < T - t))
     \<and> rec_ok (recentByDedupeKey st)
     \<and> (\<forall>e\<in>set log. DEDUPE_WINDOW_MS * 4 < T - fst e
          \<or> (\<exists>t. map_of (recentByDedupeKey st) (snd e) = Some t \<and> fst e \<le> t))
     \<and> paced log"

lemma notify_inv_later: "notify_inv T st log \<Longrightarrow> T \<le> T' \<Longrightarrow> notify_inv T' st log"
  unfolding notify_inv_def by (auto 4 4) 

lemma rec_ok_filter: "rec_ok m \<Longrightarrow> rec_ok (filter P m)"
  by (simp add: rec_ok_def distinct_map_filter)

lemma dropWhile_old:
  assumes "sorted ts"
  shows "\<exists>old. ts = old @ dropWhile (\<lambda>t. w < T - t) ts \<and> (\<forall>t\<in>set old. w < T - t)"
  by (rule exI[of _ "takeWhile (\<lambda>t. w < T - t) ts"]) (auto dest: set_takeWhileD)

lemma dropWhile_recent:
  fixes ts :: "int list"
  assumes "sorted ts" and "t \<in> set (dropWhile (\<lambda>t. w < T - t) ts)"
  shows "T - t \<le> w"
  using assms by (induction ts) (auto split: if_splits)

text \<open>One call that is let through.\<close>

lemma notify_cases:
  assumes "notify env n st = (st', r)"
  obtains (silent) "r = None" "st' = st"
  | (seen) key where "r = None" "seenRecently key (ne_now env) st = (st', True)"
  | (limited) key s1 where "r = None" "seenRecently key (ne_now env) st = (s1, False)" "shouldRateLimit (ne_now env) s1 = (st', True)"
  | (shown) f s1 s2 where "r = Some f" "seenRecently (fn_dedupeKey f) (ne_now env) st = (s1, False)"
      "shouldRateLimit (ne_now env) s1 = (s2, False)"
      "st' = s2\<lparr>emittedAtTimestamps := emittedAtTimestamps s2 @ [ne_now env]\<rparr>"
proof -
  define f where "f = formatNotification (ne_settings env) n"
  obtain s1 b where s: "seenRecently (fn_dedupeKey f) (ne_now env) st = (s1, b)" by fastforce
  obtain s2 c where l: "shouldRateLimit (ne_now env) s1 = (s2, c)" by fastforce
  have "notify env n st = (if shouldSuppressForPreferences env n then (st, None) else if b then (s1, None)
    else if c then (s2, None) else (s2\<lparr>emittedAtTimestamps := emittedAtTimestamps s2 @ [ne_now env]\<rparr>, Some f))"
    by (simp add: notify_def f_def[symmetric] s l)
  with assms silent seen[of "fn_dedupeKey f"] limited[of "fn_dedupeKey f" s1] shown[of f s1 s2] s l show ?thesis
    by (auto split: if_splits)
qed

lemma seenRecently_inv:
  assumes i: "notify_inv T st log" and le: "T \<le> now" and s: "seenRecently key now st = (st', seen)"
  shows "notify_inv now st' log"
    and "\<not> seen \<Longrightarrow> map_of (recentByDedupeKey st') key = Some now
      \<and> (\<forall>e\<in>set log. snd e = key \<longrightarrow> DEDUPE_WINDOW_MS \<le> now - fst e)"
proof -
  define m where "m = recentByDedupeKey st"
  have now: "notify_inv now st log" using notify_inv_later[OF i le] .
  have ok: "rec_ok m" using now by (simp add: notify_inv_def m_def)
  have put: "map_of (filter (\<lambda>(k, t). \<not> now - t > DEDUPE_WINDOW_MS * 4) (rec_set key now m)) k
      = (if k = key then Some now else case map_of m k of Some t \<Rightarrow> if \<not> now - t > DEDUPE_WINDOW_MS * 4 then Some t else None | None \<Rightarrow> None)" for k
    using map_of_filter_value[OF rec_ok_set[OF ok], of "\<lambda>t. \<not> now - t > DEDUPE_WINDOW_MS * 4" key now k]
    by (auto simp: DEDUPE_WINDOW_MS_def split: option.splits)
  have unseen: "st' = st\<lparr>recentByDedupeKey := filter (\<lambda>(k, t). \<not> now - t > DEDUPE_WINDOW_MS * 4) (rec_set key now m)\<rparr>
      \<and> (\<forall>t. map_of m key = Some t \<longrightarrow> DEDUPE_WINDOW_MS \<le> now - t)" if "\<not> seen"
    using s that by (auto simp: seenRecently_def m_def split: option.splits if_splits)
  have cover: "DEDUPE_WINDOW_MS * 4 < now - fst e \<or> (\<exists>t. map_of m (snd e) = Some t \<and> fst e \<le> t)"
    if "e \<in> set log" for e
    using now that by (auto simp: notify_inv_def m_def)
  show "notify_inv now st' log"
  proof (cases seen)
    case True
    with s have "st' = st" by (auto simp: seenRecently_def split: option.splits if_splits)
    with now show ?thesis by simp
  next
    case False
    have "DEDUPE_WINDOW_MS * 4 < now - fst e \<or> (\<exists>t. map_of (recentByDedupeKey st') (snd e) = Some t \<and> fst e \<le> t)"
      if e: "e \<in> set log" for e
    proof -
      have "fst e \<le> now" using now e by (auto simp: notify_inv_def)
      with cover[OF e] show ?thesis by (auto simp: unseen[OF False] put)
    qed
    with now show ?thesis
      using unseen[OF False] ok by (auto simp: notify_inv_def rec_ok_filter)
  qed
  show "map_of (recentByDedupeKey st') key = Some now
      \<and> (\<forall>e\<in>set log. snd e = key \<longrightarrow> DEDUPE_WINDOW_MS \<le> now - fst e)" if "\<not> seen"
  proof -
    have "DEDUPE_WINDOW_MS \<le> now - fst e" if e: "e \<in> set log" "snd e = key" for e
      using cover[OF e(1)] e(2) unseen[OF \<open>\<not> seen\<close>] by (fastforce simp: DEDUPE_WINDOW_MS_def)
    then show ?thesis by (simp add: unseen[OF that] put)
  qed
qed

lemma shouldRateLimit_inv:
  assumes i: "notify_inv now st log" and s: "shouldRateLimit now st = (st', limited)"
  shows "notify_inv now st' log" and "recentByDedupeKey st' = recentByDedupeKey st"
    and "\<not> limited \<Longrightarrow> length (emittedAtTimestamps st') < RATE_LIMIT_MAX_EVENTS"
proof -
  define ts where "ts = emittedAtTimestamps st"
  obtain old where old: "map fst log = old @ ts" "\<forall>t\<in>set old. RATE_LIMIT_WINDOW_MS < now - t"
    using i by (auto simp: notify_inv_def ts_def)
  have "sorted ts" using i old by (auto simp: notify_inv_def sorted_append)
  then obtain gone where gone: "ts = gone @ dropWhile (\<lambda>t. now - t > RATE_LIMIT_WINDOW_MS) ts"
    "\<forall>t\<in>set gone. RATE_LIMIT_WINDOW_MS < now - t"
    using dropWhile_old[of ts RATE_LIMIT_WINDOW_MS now] by auto
  have st': "st' = st\<lparr>emittedAtTimestamps := dropWhile (\<lambda>t. now - t > RATE_LIMIT_WINDOW_MS) ts\<rparr>"
    using s by (auto simp: shouldRateLimit_def Let_def ts_def)
  have "\<exists>old. map fst log = old @ emittedAtTimestamps st' \<and> (\<forall>t\<in>set old. RATE_LIMIT_WINDOW_MS < now - t)"
    using old gone by (intro exI[of _ "old @ gone"]) (auto simp: st')
  with i st' show "notify_inv now st' log" by (auto simp: notify_inv_def)
  show "recentByDedupeKey st' = recentByDedupeKey st" by (simp add: st')
  show "\<not> limited \<Longrightarrow> length (emittedAtTimestamps st') < RATE_LIMIT_MAX_EVENTS"
    using s by (auto simp: shouldRateLimit_def Let_def)
qed

lemma notify_log_inv:
  assumes i: "notify_inv T st log" and le: "T \<le> ne_now env" and s: "notify_log (st, log) (env, n) = (st', log')"
  shows "notify_inv (ne_now env) st' log'"
proof -
  define now where "now = ne_now env"
  obtain st1 r where n: "notify env n st = (st1, r)" by fastforce
  from n show ?thesis
  proof (cases rule: notify_cases)
    case silent
    with s n i le show ?thesis by (auto intro: notify_inv_later)
  next
    case (seen key)
    with s n seenRecently_inv(1)[OF i le] show ?thesis by auto
  next
    case (limited key s1)
    with s n shouldRateLimit_inv(1)[OF seenRecently_inv(1)[OF i le limited(2)]] show ?thesis by auto
  next
    case (shown f s1 s2)
    have i1: "notify_inv now s1 log" using seenRecently_inv(1)[OF i le shown(2)] by (simp add: now_def)
    have k: "map_of (recentByDedupeKey s1) (fn_dedupeKey f) = Some now"
      "\<forall>e\<in>set log. snd e = fn_dedupeKey f \<longrightarrow> DEDUPE_WINDOW_MS \<le> now - fst e"
      using seenRecently_inv(2)[OF i le shown(2)] by (simp_all add: now_def)
    have i2: "notify_inv now s2 log" using shouldRateLimit_inv(1)[OF i1, of s2 False] shown(3) by (simp add: now_def)
    have r2: "recentByDedupeKey s2 = recentByDedupeKey s1" and few: "length (emittedAtTimestamps s2) < RATE_LIMIT_MAX_EVENTS"
      using shouldRateLimit_inv(2,3)[OF i1, of s2 False] shown(3) by (auto simp: now_def)
    have st': "st' = s2\<lparr>emittedAtTimestamps := emittedAtTimestamps s2 @ [now]\<rparr>" and log': "log' = log @ [(now, fn_dedupeKey f)]"
      using s n shown by (auto simp: now_def)
    obtain old where old: "map fst log = old @ emittedAtTimestamps s2" "\<forall>t\<in>set old. RATE_LIMIT_WINDOW_MS < now - t"
      using i2 by (auto simp: notify_inv_def)
    have "paced log'"
      unfolding paced_def
    proof (intro conjI allI impI)
      fix a b assume ab: "a < b" "b < length log'" "snd (log' ! a) = snd (log' ! b)"
      show "DEDUPE_WINDOW_MS \<le> fst (log' ! b) - fst (log' ! a)"
      proof (cases "b < length log")
        case True
        with ab i2 show ?thesis by (auto simp: notify_inv_def paced_def log' nth_append)
      next
        case False
        with ab k(2) show ?thesis by (auto simp: log' nth_append)
      qed
    next
      fix a assume a: "a + RATE_LIMIT_MAX_EVENTS < length log'"
      show "RATE_LIMIT_WINDOW_MS < fst (log' ! (a + RATE_LIMIT_MAX_EVENTS)) - fst (log' ! a)"
      proof (cases "a + RATE_LIMIT_MAX_EVENTS < length log")
        case True
        with i2 show ?thesis by (auto simp: notify_inv_def paced_def log' nth_append)
      next
        case False
        with a have e: "a + RATE_LIMIT_MAX_EVENTS = length log" by (simp add: log')
        have len: "length log = length old + length (emittedAtTimestamps s2)"
          using old(1) by (metis length_append length_map)
        with e few have "a < length old" and al: "a < length log" by linarith+
        then have "fst (log ! a) = old ! a" using old(1) by (metis nth_append nth_map)
        with old(2) \<open>a < length old\<close> have "RATE_LIMIT_WINDOW_MS < now - fst (log ! a)" by simp
        with e al show ?thesis by (simp add: log' nth_append)
      qed
    qed
    moreover have "\<exists>old. map fst log' = old @ emittedAtTimestamps st' \<and> (\<forall>t\<in>set old. RATE_LIMIT_WINDOW_MS < now - t)"
      using old by (intro exI[of _ old]) (simp add: log' st')
    ultimately show ?thesis
      using i2 k(1) r2 unfolding now_def[symmetric] notify_inv_def
      by (auto simp: log' st' sorted_append)
  qed
qed

text \<open>C19: However many events arrive, two notifications under the same key are at least two seconds apart,
  and no seven notifications fall into ten seconds, as long as the clock does not run backwards.\<close>

theorem notifications_paced:
  assumes "sorted (map (\<lambda>(env, n). ne_now env) calls)"
  shows "paced (snd (notify_run calls))"
proof -
  have "\<exists>T. notify_inv T (fst (notify_run calls)) (snd (notify_run calls))
      \<and> (\<forall>t. (calls = [] \<or> t \<ge> ne_now (fst (last calls))) \<longrightarrow> calls = [] \<or> T \<le> t)"
    using assms
  proof (induction calls rule: rev_induct)
    case Nil
    have "notify_inv 0 notify_init []" by (simp add: notify_inv_def notify_init_def paced_def)
    then show ?case by (auto simp: notify_run_def)
  next
    case (snoc c calls)
    obtain env n where c: "c = (env, n)" by (cases c)
    obtain st log where r: "notify_run calls = (st, log)" by fastforce
    obtain st' log' where r': "notify_log (st, log) (env, n) = (st', log')" by fastforce
    have run: "notify_run (calls @ [c]) = (st', log')" using r r' c by (simp add: notify_run_def)
    have "\<exists>T. notify_inv T st log \<and> T \<le> ne_now env"
    proof (cases "calls = []")
      case True
      with r have "st = notify_init" "log = []" by (auto simp: notify_run_def)
      then have "notify_inv (ne_now env) st log" by (simp add: notify_inv_def notify_init_def paced_def)
      then show ?thesis by auto
    next
      case False
      from snoc.prems have "sorted (map (\<lambda>(env, n). ne_now env) calls)" "ne_now (fst (last calls)) \<le> ne_now env"
        using False c by (simp_all add: sorted_append case_prod_beta')
      with snoc.IH r False show ?thesis by auto
    qed
    then obtain T where "notify_inv T st log" "T \<le> ne_now env" by blast
    from notify_log_inv[OF this r'] have "notify_inv (ne_now env) st' log'" .
    then show ?case by (auto simp: run[unfolded c] c)
  qed
  then show ?thesis by (auto simp: notify_inv_def)
qed

definition demo_notify :: "int \<Rightarrow> string \<Rightarrow> notify_env \<times> notification" where
  "demo_notify now key = (\<lparr>ne_settings = DEFAULT_NOTIFICATION_SETTINGS, ne_focused = False, ne_now = now, ne_minutes = 720\<rparr>,
     \<lparr>nf_payload = DirectMessageP ''ann'' ''hello'', nf_dedupeKey = Some key, nf_suppress = False,
      nf_suppressIfFocusedAndActive = False\<rparr>)"

theorem notifications_paced_witness:
  "let calls = map (\<lambda>i. demo_notify (i * 1500) ''7'') [1..6] in
     paced (snd (notify_run calls)) \<and> map fst (snd (notify_run calls)) = [1500, 4500, 7500]"
proof -
  define calls where "calls = map (\<lambda>i. demo_notify (i * 1500) ''7'') [1..6]"
  have s: "sorted (map (\<lambda>(env, n). ne_now env) calls)" unfolding calls_def by code_simp
  have "map fst (snd (notify_run calls)) = [1500, 4500, 7500]" unfolding calls_def by code_simp
  with notifications_paced[OF s] show ?thesis unfolding calls_def Let_def by blast
qed

end
