(* ===== verification/SystemMessages.thy ===== *)
theory SystemMessages
  imports Json Notifications
begin

text \<open>
  \<open>src/features/dm/systemMessages.ts\<close>: the call records that travel as direct messages, and the second
  reader of the same format in \<open>src/lib/spacetimedb/events.ts\<close>.  The locale-dependent printing of a time
  is the argument \<open>fmt\<close>; the bullet U+2022 is written as the character 149.
\<close>

section \<open>The format\<close>

datatype dm_system_kind = CallStarted | CallEnded

record dm_system_payload =
  sp_kind :: dm_system_kind
  sp_durationSeconds :: "int option"
  sp_missed :: "bool option"

definition SYSTEM_PREFIX :: string where
  "SYSTEM_PREFIX = ''__letschat_system__:''"

fun kind_text :: "dm_system_kind \<Rightarrow> string" where
  "kind_text CallStarted = ''call_started''"
| "kind_text CallEnded = ''call_ended''"

fun system_preview_label :: "dm_system_kind \<Rightarrow> string" where
  "system_preview_label CallStarted = ''Call started''"
| "system_preview_label CallEnded = ''Call ended''"

text \<open>\<open>isDmSystemKind\<close> with the cast it licenses.\<close>

definition isDmSystemKind :: "string \<Rightarrow> dm_system_kind option" where
  "isDmSystemKind v = (if v = ''call_started'' then Some CallStarted
     else if v = ''call_ended'' then Some CallEnded else None)"

text \<open>An unknown value is a parsed JSON value or \<open>None\<close> for \<open>undefined\<close>.\<close>

definition normalizeDurationSeconds :: "json option \<Rightarrow> int option" where
  "normalizeDurationSeconds v = (case v of Some (JNum m e) \<Rightarrow> if json_finite m e then Some (max 0 (json_round m e)) else None
     | _ \<Rightarrow> None)"

definition normalizeMissed :: "json option \<Rightarrow> bool option" where
  "normalizeMissed v = (case v of Some (JBool b) \<Rightarrow> Some b | _ \<Rightarrow> None)"

text \<open>The argument has been rounded already, so that \<open>Math.round\<close> is the identity here.\<close>

definition formatDuration :: "int \<Rightarrow> string" where
  "formatDuration durationSeconds = (let total = max 0 durationSeconds; hours = total div 3600;
     minutes = total mod 3600 div 60; seconds = total mod 60 in
     if hours > 0 then show_int hours @ ''h '' @ show_int minutes @ ''m '' @ show_int seconds @ ''s''
     else if minutes > 0 then show_int minutes @ ''m '' @ show_int seconds @ ''s''
     else show_int seconds @ ''s'')"

definition getCallDurationSeconds :: "int \<Rightarrow> string option \<Rightarrow> int option" where
  "getCallDurationSeconds now startedAt = (case startedAt of None \<Rightarrow> None
     | Some s \<Rightarrow> if s = [] then None else (case date_parse s of None \<Rightarrow> None
         | Some t \<Rightarrow> Some (max 0 (json_round (now - t) (-3)))))"

definition json_text :: "dm_system_payload \<Rightarrow> string" where
  "json_text p = ''{\"kind\":\"'' @ kind_text (sp_kind p) @ ''\"''
     @ (case sp_durationSeconds p of None \<Rightarrow> [] | Some d \<Rightarrow> '',\"durationSeconds\":'' @ show_int d)
     @ (case sp_missed p of None \<Rightarrow> [] | Some b \<Rightarrow> '',\"missed\":'' @ (if b then ''true'' else ''false''))
     @ ''}''"

definition encodeDmSystemMessage :: "dm_system_kind \<Rightarrow> json option \<Rightarrow> json option \<Rightarrow> string" where
  "encodeDmSystemMessage kind duration missed = SYSTEM_PREFIX @ json_text \<lparr>sp_kind = kind,
     sp_durationSeconds = normalizeDurationSeconds duration, sp_missed = normalizeMissed missed\<rparr>"

definition parseDmSystemMessage :: "string \<Rightarrow> dm_system_payload option" where
  "parseDmSystemMessage content = (if \<not> starts_with SYSTEM_PREFIX content then None
     else let body = drop (length SYSTEM_PREFIX) content in
       if body = [] then None
       else if starts_with ''{'' body then
         (case json_parse body of None \<Rightarrow> None
          | Some parsed \<Rightarrow> (case json_field ''kind'' parsed of
              Some (JStr k) \<Rightarrow> (case isDmSystemKind k of None \<Rightarrow> None
                | Some kind \<Rightarrow> Some \<lparr>sp_kind = kind,
                    sp_durationSeconds = normalizeDurationSeconds (json_field ''durationSeconds'' parsed),
                    sp_missed = normalizeMissed (json_field ''missed'' parsed)\<rparr>)
            | _ \<Rightarrow> None))
       else map_option (\<lambda>kind. \<lparr>sp_kind = kind, sp_durationSeconds = None, sp_missed = None\<rparr>) (isDmSystemKind body))"

section \<open>What is shown\<close>

definition bullet :: char where "bullet = char_of (149 :: nat)"

definition formatDmSystemMessageForBubble :: "(string \<Rightarrow> string) \<Rightarrow> string \<Rightarrow> string \<Rightarrow> string option" where
  "formatDmSystemMessageForBubble fmt content sentAt = (case parseDmSystemMessage content of None \<Rightarrow> None
     | Some p \<Rightarrow> (case sp_kind p of CallStarted \<Rightarrow> Some (''Call started '' @ [bullet] @ '' '' @ fmt sentAt)
         | CallEnded \<Rightarrow> (case sp_durationSeconds p of
             Some d \<Rightarrow> Some (''Call ended '' @ [bullet] @ '' '' @ formatDuration d) | None \<Rightarrow> Some ''Call ended'')))"

definition formatDmSystemPrimaryText :: "(string \<Rightarrow> string) \<Rightarrow> string \<Rightarrow> string \<Rightarrow> string \<Rightarrow> string \<Rightarrow> bool \<Rightarrow> string option" where
  "formatDmSystemPrimaryText fmt content sentAt senderLabel partnerLabel viewerIsSender =
    (case parseDmSystemMessage content of None \<Rightarrow> None
     | Some p \<Rightarrow> (case sp_kind p of CallStarted \<Rightarrow> Some (senderLabel @ '' started a call on '' @ fmt sentAt)
         | CallEnded \<Rightarrow> (let durationLabel = formatDuration (case sp_durationSeconds p of None \<Rightarrow> 0 | Some d \<Rightarrow> d) in
             if sp_missed p = Some True then
               (if viewerIsSender then Some (''Missed call to '' @ partnerLabel @ '' that lasted '' @ durationLabel)
                else Some (''You missed a call from '' @ senderLabel @ '' that lasted '' @ durationLabel))
             else Some (''Call ended after '' @ durationLabel))))"

definition formatDmPreview :: "string \<Rightarrow> string" where
  "formatDmPreview content = (case parseDmSystemMessage content of None \<Rightarrow> content
     | Some p \<Rightarrow> (case (sp_kind p, sp_durationSeconds p) of
         (CallEnded, Some d) \<Rightarrow> system_preview_label CallEnded @ '' '' @ [bullet] @ '' '' @ formatDuration d
       | (k, _) \<Rightarrow> system_preview_label k))"

section \<open>The reader of the live events\<close>

record call_system =
  cl_kind :: dm_system_kind
  cl_missed :: bool
  cl_durationLabel :: "string option"

definition formatDurationLabel :: "int \<Rightarrow> int \<Rightarrow> string" where
  "formatDurationLabel m e = (let total = max 0 (json_round m e); hours = total div 3600;
     minutes = total mod 3600 div 60; seconds = total mod 60 in
     if hours > 0 then show_int hours @ ''h '' @ show_int minutes @ ''m '' @ show_int seconds @ ''s''
     else if minutes > 0 then show_int minutes @ ''m '' @ show_int seconds @ ''s''
     else show_int seconds @ ''s'')"

definition parseDmCallSystemMessage :: "string \<Rightarrow> call_system option" where
  "parseDmCallSystemMessage content = (if \<not> starts_with ''__letschat_system__:'' content then None
     else let payloadText = drop (length ''__letschat_system__:'') content in
       if \<not> starts_with ''{'' payloadText then None
       else (case json_parse payloadText of None \<Rightarrow> None
         | Some payload \<Rightarrow> (case json_field ''kind'' payload of
             Some (JStr k) \<Rightarrow>
               (if k \<noteq> ''call_started'' \<and> k \<noteq> ''call_ended'' then None
                else Some \<lparr>cl_kind = (if k = ''call_started'' then CallStarted else CallEnded),
                  cl_missed = (json_field ''missed'' payload = Some (JBool True)),
                  cl_durationLabel = (case json_field ''durationSeconds'' payload of
                     Some (JNum m e) \<Rightarrow> if json_finite m e then Some (formatDurationLabel m e) else None | _ \<Rightarrow> None)\<rparr>)
           | _ \<Rightarrow> None)))"

text \<open>C21: The two readers of the call records agree: on every message whatsoever the reader behind the
  notifications finds a call exactly when the one behind the conversation does and the record is not of the
  old bare form, and then they agree on the kind, on whether it was missed and on the duration shown.\<close>

theorem call_record_readers_agree:
  "parseDmCallSystemMessage content =
    (if starts_with (SYSTEM_PREFIX @ ''{'') content
     then map_option (\<lambda>p. \<lparr>cl_kind = sp_kind p, cl_missed = (sp_missed p = Some True),
       cl_durationLabel = map_option formatDuration (sp_durationSeconds p)\<rparr>) (parseDmSystemMessage content)
     else None)"
proof -
  have s: "starts_with (SYSTEM_PREFIX @ ''{'') content \<longleftrightarrow> starts_with SYSTEM_PREFIX content
      \<and> starts_with ''{'' (drop (length SYSTEM_PREFIX) content)"
    by (rule starts_with_append)
  have d: "formatDurationLabel m e = formatDuration (max 0 (json_round m e))" for m e
    by (simp add: formatDurationLabel_def formatDuration_def Let_def)
  have m: "normalizeMissed v = Some True \<longleftrightarrow> v = Some (JBool True)" for v
    by (auto simp: normalizeMissed_def split: option.splits json.splits)
  have l: "(case v of Some (JNum m e) \<Rightarrow> if json_finite m e then Some (formatDurationLabel m e) else None | _ \<Rightarrow> None)
      = map_option formatDuration (normalizeDurationSeconds v)" for v
    by (auto simp: normalizeDurationSeconds_def d split: option.split json.split)
  show ?thesis
    unfolding s parseDmCallSystemMessage_def parseDmSystemMessage_def SYSTEM_PREFIX_def[symmetric] Let_def l
    by (auto simp: isDmSystemKind_def m starts_with_def split: option.splits json.splits)
qed

section \<open>Writing and reading\<close>

lemma fuel_enough: "k \<le> n \<Longrightarrow> \<exists>f. n = f + k" for n k :: nat
  by (metis add.commute le_Suc_ex)

lemma json_text_bare:
  "json_parse (json_text \<lparr>sp_kind = k, sp_durationSeconds = None, sp_missed = m\<rparr>)
     = Some (JObj ([(''kind'', JStr (kind_text k))] @ (case m of None \<Rightarrow> [] | Some b \<Rightarrow> [(''missed'', JBool b)])))"
proof -
  have "\<forall>k\<in>{CallStarted, CallEnded}. \<forall>m\<in>{None, Some True, Some False}.
    json_parse (json_text \<lparr>sp_kind = k, sp_durationSeconds = None, sp_missed = m\<rparr>)
     = Some (JObj ([(''kind'', JStr (kind_text k))] @ (case m of None \<Rightarrow> [] | Some b \<Rightarrow> [(''missed'', JBool b)])))"
    by code_simp
  moreover have "k \<in> {CallStarted, CallEnded}" by (cases k) auto
  moreover have "m \<in> {None, Some True, Some False}" by (cases m) auto
  ultimately show ?thesis by blast
qed

lemma json_text_duration:
  assumes "0 \<le> d"
  shows "json_parse (json_text \<lparr>sp_kind = k, sp_durationSeconds = Some d, sp_missed = m\<rparr>)
     = Some (JObj ([(''kind'', JStr (kind_text k)), (''durationSeconds'', JNum d 0)]
         @ (case m of None \<Rightarrow> [] | Some b \<Rightarrow> [(''missed'', JBool b)])))"
proof -
  define t where "t = (case m of None \<Rightarrow> [] | Some b \<Rightarrow> '',\"missed\":'' @ (if b then ''true'' else ''false'')) @ ''}''"
  obtain c r where t: "t = c # r" and c: "c = CHR '','' \<or> c = CHR ''}''"
    by (cases m) (auto simp: t_def)
  have nd: "\<not> is_digit c" "c \<noteq> CHR ''.''" "c \<noteq> CHR ''e''" "c \<noteq> CHR ''E''"
    using c by (auto simp: is_digit_def digit_val_def)
  have num: "parse_value (Suc f) (show_nat (nat d) @ t) = Some (JNum d 0, t)" for f
    using parse_value_show[OF nd, of f "nat d" r] assms by (simp add: t)
  define s where "s = json_text \<lparr>sp_kind = k, sp_durationSeconds = Some d, sp_missed = m\<rparr>"
  have s: "s = ''{\"kind\":\"'' @ kind_text k @ ''\",\"durationSeconds\":'' @ show_nat (nat d) @ t"
    using assms by (simp add: s_def json_text_def t_def show_int_def)
  have "8 \<le> 2 * length s + 2" by (simp add: s)
  then obtain f where f: "2 * length s + 2 = f + 8" using fuel_enough by blast
  have top: "parse_value (f + 8) s = map_option (\<lambda>(ms, r). (JObj ms, r)) (parse_members (f + 7) (tl s))"
    by (simp add: s eval_nat_numeral skip_ws_def json_ws_def)
  have str: "parse_value (Suc g) (''\"'' @ kind_text k @ ''\",'' @ r) = Some (JStr (kind_text k), '','' @ r)" for g r
    by (cases k) (simp_all add: skip_ws_def json_ws_def prepend_char_def)
  have bool: "parse_value (Suc g) (''true}'') = Some (JBool True, ''}'')" "parse_value (Suc g) (''false}'') = Some (JBool False, ''}'')" for g
    by (simp_all add: skip_ws_def json_ws_def starts_with_def)
  have last: "parse_members (Suc (Suc g)) (''\"missed\":'' @ (if b then ''true'' else ''false'') @ ''}'') = Some ([(''missed'', JBool b)], [])" for g b
    using bool[of g] by (cases b) (simp_all add: skip_ws_def json_ws_def prepend_char_def del: parse_value.simps)
  have mid: "parse_members (Suc (Suc (Suc (Suc g)))) (''\"durationSeconds\":'' @ show_nat (nat d) @ t)
      = Some ((''durationSeconds'', JNum d 0) # (case m of None \<Rightarrow> [] | Some b \<Rightarrow> [(''missed'', JBool b)]), [])" for g
    using num[of "Suc (Suc g)"] last[of "Suc g"]
    by (subst parse_members.simps(2), cases m)
      (simp_all add: t_def skip_ws_def json_ws_def prepend_char_def del: parse_value.simps parse_members.simps(2))
  have "parse_value (f + 8) s = Some (JObj ([(''kind'', JStr (kind_text k)), (''durationSeconds'', JNum d 0)]
         @ (case m of None \<Rightarrow> [] | Some b \<Rightarrow> [(''missed'', JBool b)])), [])"
  proof -
    have "tl s = ''\"kind\":\"'' @ kind_text k @ ''\",'' @ ''\"durationSeconds\":'' @ show_nat (nat d) @ t" by (simp add: s)
    moreover have "f + 7 = Suc (Suc (Suc (Suc (Suc (Suc (Suc f))))))" by simp
    ultimately have "parse_members (f + 7) (tl s) = Some ((''kind'', JStr (kind_text k)) # (''durationSeconds'', JNum d 0)
        # (case m of None \<Rightarrow> [] | Some b \<Rightarrow> [(''missed'', JBool b)]), [])"
      using str[of "Suc (Suc (Suc (Suc (Suc f))))" "''\"durationSeconds\":'' @ show_nat (nat d) @ t"] mid[of "Suc (Suc f)"]
      by (simp only:) (subst parse_members.simps(2),
        simp add: skip_ws_def json_ws_def prepend_char_def del: parse_value.simps parse_members.simps(2))
    then show ?thesis by (simp add: top)
  qed
  then show ?thesis unfolding s_def[symmetric] json_parse_def f by (simp add: skip_ws_def)
qed

text \<open>C22: A call record written by one client is read back by another with the same kind, the same rounded
  duration and the same missed flag, absent fields staying absent.\<close>

theorem call_record_roundtrip:
  assumes "\<And>d. normalizeDurationSeconds duration = Some d \<Longrightarrow> d < 2 ^ 53"
  shows "parseDmSystemMessage (encodeDmSystemMessage kind duration missed) = Some \<lparr>sp_kind = kind,
    sp_durationSeconds = normalizeDurationSeconds duration, sp_missed = normalizeMissed missed\<rparr>"
proof -
  define d m where "d = normalizeDurationSeconds duration" and "m = normalizeMissed missed"
  define body where "body = json_text \<lparr>sp_kind = kind, sp_durationSeconds = d, sp_missed = m\<rparr>"
  have b: "starts_with ''{'' body" "body \<noteq> []" by (simp_all add: body_def json_text_def starts_with_def)
  have d0: "0 \<le> x \<and> x < 2 ^ 53" if "d = Some x" for x
    using that assms[of x] by (auto simp: d_def normalizeDurationSeconds_def split: option.splits json.splits if_splits)
  have p: "json_parse body = Some (JObj ([(''kind'', JStr (kind_text kind))]
      @ (case d of None \<Rightarrow> [] | Some x \<Rightarrow> [(''durationSeconds'', JNum x 0)])
      @ (case m of None \<Rightarrow> [] | Some b \<Rightarrow> [(''missed'', JBool b)])))"
    using json_text_duration[of "the d" kind m] json_text_bare[of kind m] d0 by (cases d) (auto simp: body_def)
  have f: "json_finite x 0" if "d = Some x" for x
    using d0[OF that] by (intro json_finite_small) auto
  have k: "isDmSystemKind (kind_text kind) = Some kind" by (cases kind) (simp_all add: isDmSystemKind_def)
  have e: "encodeDmSystemMessage kind duration missed = SYSTEM_PREFIX @ body"
    by (simp add: encodeDmSystemMessage_def body_def d_def m_def)
  have "parseDmSystemMessage (SYSTEM_PREFIX @ body) = Some \<lparr>sp_kind = kind, sp_durationSeconds = d, sp_missed = m\<rparr>"
    using b d0 f by (cases d; cases m)
      (auto simp: parseDmSystemMessage_def starts_with_def p json_field_def k normalizeDurationSeconds_def normalizeMissed_def)
  then show ?thesis by (simp add: e d_def m_def)
qed

theorem call_record_roundtrip_witness:
  "parseDmSystemMessage (encodeDmSystemMessage CallEnded (Some (JNum 725 (-1))) (Some (JBool True)))
     = Some \<lparr>sp_kind = CallEnded, sp_durationSeconds = Some 73, sp_missed = Some True\<rparr>"
proof -
  have n: "normalizeDurationSeconds (Some (JNum 725 (-1))) = Some 73" by code_simp
  show ?thesis using call_record_roundtrip[of "Some (JNum 725 (-1))" CallEnded "Some (JBool True)"]
    by (simp add: n normalizeMissed_def)
qed

end
