(* ===== verification/Events.thy ===== *)
theory Events
  imports SyncFacts SystemMessages
begin

text \<open>
  \<open>src/lib/spacetimedb/events.ts\<close>: what a live row event does.  Handlers mark stores stale and may raise
  a notification; one pass on a trailing timer rebuilds the stale stores from the cache of the
  connection they were scheduled for.  Connections are numbered; a scheduled closure is its key with the number
  of its connection, and \<open>caches\<close> is what each connection's local cache holds when the closure runs.
\<close>

section \<open>State\<close>

datatype refresh_key = RefUsers | RefServers | RefServerScoped | RefMembers | RefJoinRequests | RefDiscover | RefChannels
  | RefVoice | RefFriends | RefDirectMessages | RefDmVoice | RefPresence | RefTyping | RefReadStates | RefInvites
  | RefDmServerInvites | RefMessages | RefPins

record ev_world =
  ev_app :: app_state
  ev_pending :: "(refresh_key, nat) rec"
  ev_unreadStale :: bool
  ev_flush :: bool
  ev_notify :: notify_state
  ev_shown :: "formatted_notification list"
  ev_badge :: "nat option"

record clock =
  ck_now :: int
  ck_minutes :: int
  ck_focused :: bool

definition notify_in :: "clock \<Rightarrow> notification \<Rightarrow> ev_world \<Rightarrow> ev_world" where
  "notify_in ck n w = (case notify \<lparr>ne_settings = notificationSettings (as_ui (ev_app w)), ne_focused = ck_focused ck,
       ne_now = ck_now ck, ne_minutes = ck_minutes ck\<rparr> n (ev_notify w) of
     (ns, shown) \<Rightarrow> w\<lparr>ev_notify := ns, ev_shown := ev_shown w @ (case shown of None \<Rightarrow> [] | Some f \<Rightarrow> [f])\<rparr>)"

section \<open>Lookups\<close>

definition findServerIdByChannelId :: "u64 \<Rightarrow> app_state \<Rightarrow> u64 option" where
  "findServerIdByChannelId c app = map_option fst
     (find (\<lambda>(s, cs). list_ex (\<lambda>ch. ch_id ch = c) cs) (channelsByServer (as_channels app)))"

definition findChannelNameById :: "u64 \<Rightarrow> app_state \<Rightarrow> string option" where
  "findChannelNameById c app = map_option ch_name
     (find (\<lambda>ch. ch_id ch = c) (concat (map snd (channelsByServer (as_channels app)))))"

definition findDisplayNameByIdentity :: "identity \<Rightarrow> app_state \<Rightarrow> string" where
  "findDisplayNameByIdentity i app =
    (case find (\<lambda>u. normalizeIdentity (u_identity u) = normalizeIdentity i) (map snd (byIdentity (as_users app))) of
       None \<Rightarrow> take 12 i
     | Some u \<Rightarrow> if u_displayName u \<noteq> [] then u_displayName u else if u_username u \<noteq> [] then u_username u else take 12 i)"

definition isMentionForSelf :: "string \<Rightarrow> app_state \<Rightarrow> bool" where
  "isMentionForSelf content app = (case self_user (as_self app) of None \<Rightarrow> False
     | Some self \<Rightarrow> js_includes (CHR ''@'' # js_lower (u_username self)) (js_lower content)
         \<or> js_includes (CHR ''@'' # js_lower (u_displayName self)) (js_lower content))"

section \<open>Notifications of single events\<close>

definition plain_notification :: "notification_payload \<Rightarrow> notification" where
  "plain_notification p = \<lparr>nf_payload = p, nf_dedupeKey = None, nf_suppress = False, nf_suppressIfFocusedAndActive = False\<rparr>"

definition handleIncomingMessage :: "clock \<Rightarrow> message \<Rightarrow> ev_world \<Rightarrow> ev_world" where
  "handleIncomingMessage ck m w = (let app = ev_app w; ui = as_ui app in
     case signed_in app of None \<Rightarrow> w
     | Some me \<Rightarrow> if sameIdentity (msg_senderIdentity m) me then w
       else let channelMuted = rec_or (mutedChannels ui) (msg_channelId m) False;
            serverMuted = (case findServerIdByChannelId (msg_channelId m) app of None \<Rightarrow> False
              | Some s \<Rightarrow> rec_or (mutedServers ui) s False);
            userMuted = rec_or (mutedUsers ui) (normalizeIdentity (msg_senderIdentity m)) False
          in if channelMuted \<or> serverMuted \<or> userMuted then w
          else let senderLabel = findDisplayNameByIdentity (msg_senderIdentity m) app;
               body = (if msg_deleted m then ''[message deleted]'' else msg_content m);
               channelName = findChannelNameById (msg_channelId m) app
             in notify_in ck \<lparr>nf_payload = (if isMentionForSelf body app then MentionP senderLabel body channelName
                    else ChannelMessageP senderLabel body channelName),
                  nf_dedupeKey = Some (show_int (msg_id m)), nf_suppress = False,
                  nf_suppressIfFocusedAndActive = (ui_activeChannelId ui = Some (msg_channelId m))\<rparr> w)"

definition handleIncomingDirectMessage :: "clock \<Rightarrow> direct_message \<Rightarrow> ev_world \<Rightarrow> ev_world" where
  "handleIncomingDirectMessage ck m w = (let app = ev_app w; ui = as_ui app; partner = dm_senderIdentity m in
     case signed_in app of None \<Rightarrow> w
     | Some me \<Rightarrow> if sameIdentity partner me then w
       else if rec_or (mutedUsers ui) (normalizeIdentity partner) False then w
       else let isActiveView = (case ui_activeDmPartner ui of None \<Rightarrow> False | Some p \<Rightarrow> sameIdentity p partner);
            senderLabel = findDisplayNameByIdentity partner app;
            payload = (case parseDmCallSystemMessage (dm_content m) of
                Some c \<Rightarrow> if cl_kind c = CallEnded \<and> cl_missed c then MissedCallP senderLabel (cl_durationLabel c)
                    else if cl_kind c = CallEnded then CallEndedP senderLabel (cl_durationLabel c)
                    else DirectMessageP senderLabel (dm_content m)
              | None \<Rightarrow> DirectMessageP senderLabel (dm_content m))
          in notify_in ck \<lparr>nf_payload = payload, nf_dedupeKey = Some (show_int (dm_id m)), nf_suppress = False,
               nf_suppressIfFocusedAndActive = isActiveView\<rparr> w)"

definition handleIncomingFriendRequest :: "clock \<Rightarrow> string \<Rightarrow> ev_world \<Rightarrow> ev_world" where
  "handleIncomingFriendRequest ck username w = notify_in ck (plain_notification (FriendRequestP username)) w"

definition handleFriendAccepted :: "clock \<Rightarrow> string \<Rightarrow> ev_world \<Rightarrow> ev_world" where
  "handleFriendAccepted ck username w = notify_in ck (plain_notification (FriendAcceptedP username)) w"

section \<open>Coalesced refreshes\<close>

fun run_refresh :: "(string \<Rightarrow> string \<Rightarrow> int) \<Rightarrow> int \<Rightarrow> db_cache \<Rightarrow> refresh_key \<Rightarrow> app_state \<Rightarrow> app_state" where
  "run_refresh lc now conn RefUsers app = syncUsers conn app"
| "run_refresh lc now conn RefServers app = syncDiscover conn (syncServerList conn app)"
| "run_refresh lc now conn RefServerScoped app = syncServerScopedState lc now conn app"
| "run_refresh lc now conn RefMembers app = syncMembers conn app"
| "run_refresh lc now conn RefJoinRequests app = syncJoinRequests lc conn app"
| "run_refresh lc now conn RefDiscover app = syncDiscover conn app"
| "run_refresh lc now conn RefChannels app = syncChannels lc conn app"
| "run_refresh lc now conn RefVoice app = syncVoiceParticipants conn app"
| "run_refresh lc now conn RefFriends app = syncFriends conn app"
| "run_refresh lc now conn RefDirectMessages app = syncDirectMessages lc conn app"
| "run_refresh lc now conn RefDmVoice app = syncDmVoiceParticipants conn app"
| "run_refresh lc now conn RefPresence app = syncPresenceStates conn app"
| "run_refresh lc now conn RefTyping app = syncTypingStates now conn app"
| "run_refresh lc now conn RefReadStates app = syncReadStates conn app"
| "run_refresh lc now conn RefInvites app = syncInvites now conn app"
| "run_refresh lc now conn RefDmServerInvites app = syncDmServerInvites conn app"
| "run_refresh lc now conn RefMessages app = syncMessages lc conn app"
| "run_refresh lc now conn RefPins app = syncPins lc conn app"

definition flushRefreshes :: "(string \<Rightarrow> string \<Rightarrow> int) \<Rightarrow> int \<Rightarrow> (nat \<Rightarrow> db_cache) \<Rightarrow> ev_world \<Rightarrow> ev_world" where
  "flushRefreshes lc now caches w = (let app = foldl (\<lambda>app (k, c). run_refresh lc now (caches c) k app) (ev_app w) (ev_pending w);
     app' = (if ev_unreadStale w then recomputeUnread app else app)
   in w\<lparr>ev_app := app', ev_pending := [], ev_unreadStale := False, ev_flush := False,
        ev_badge := (if ev_unreadStale w then Some (getTotalUnreadCount (as_ui app')) else ev_badge w)\<rparr>)"

definition scheduleRefresh :: "refresh_key \<Rightarrow> nat \<Rightarrow> bool \<Rightarrow> ev_world \<Rightarrow> ev_world" where
  "scheduleRefresh k c alsoUnread w = w\<lparr>ev_pending := rec_set k c (ev_pending w),
     ev_unreadStale := ev_unreadStale w \<or> alsoUnread, ev_flush := True\<rparr>"

definition cancelPendingRefreshes :: "ev_world \<Rightarrow> ev_world" where
  "cancelPendingRefreshes w = w\<lparr>ev_flush := False, ev_pending := [], ev_unreadStale := False\<rparr>"

text \<open>The timer: it fires only while it is set.\<close>

definition flush_timer :: "(string \<Rightarrow> string \<Rightarrow> int) \<Rightarrow> int \<Rightarrow> (nat \<Rightarrow> db_cache) \<Rightarrow> ev_world \<Rightarrow> ev_world" where
  "flush_timer lc now caches w = (if ev_flush w then flushRefreshes lc now caches w else w)"

section \<open>The handlers of \<open>watchLiveTables\<close>\<close>

text \<open>One constructor per group of callbacks that share a handler; those that look at the row carry it.
  Deleted rows of \<open>my_visible_users\<close> and updated rows of \<open>my_blocks\<close> have no handler.\<close>

datatype live_event = UsersInsertedOrUpdated | UserDeleted | ServersChanged | MemberChanged server_member_row
  | JoinRequestsChanged | MemberCountsChanged | ChannelsChanged | VoiceChanged
  | FriendInserted friend_row | FriendUpdated friend_row | FriendDeleted | BlockInsertedOrDeleted | BlockUpdated
  | DirectMessageInserted direct_message_row | DirectMessageChanged | DmVoiceChanged | PresenceChanged | TypingChanged
  | ReadStatesChanged | InvitesChanged | DmServerInviteInserted dm_server_invite_row | DmServerInvitesChanged
  | MessageInserted message_row | MessagesChanged | PinsChanged

definition friend_inserted :: "clock \<Rightarrow> friend \<Rightarrow> ev_world \<Rightarrow> ev_world" where
  "friend_inserted ck f w = (case signed_in (ev_app w) of None \<Rightarrow> w
     | Some me \<Rightarrow> if fr_status f = FriendPending \<and> fr_requestedBy f \<noteq> me
         then handleIncomingFriendRequest ck (findDisplayNameByIdentity (fr_requestedBy f) (ev_app w)) w else w)"

definition friend_updated :: "clock \<Rightarrow> friend \<Rightarrow> ev_world \<Rightarrow> ev_world" where
  "friend_updated ck f w = (case signed_in (ev_app w) of None \<Rightarrow> w
     | Some me \<Rightarrow> if fr_status f = FriendAccepted \<and> fr_requestedBy f = me
         then handleFriendAccepted ck (findDisplayNameByIdentity (if fr_userA f = me then fr_userB f else fr_userA f) (ev_app w)) w
         else w)"

definition dm_invite_inserted :: "clock \<Rightarrow> dm_server_invite \<Rightarrow> ev_world \<Rightarrow> ev_world" where
  "dm_invite_inserted ck i w = (case signed_in (ev_app w) of None \<Rightarrow> w
     | Some me \<Rightarrow> if di_recipientIdentity i \<noteq> [] \<and> js_lower (di_recipientIdentity i) = js_lower me
         then notify_in ck \<lparr>nf_payload = SystemP ''Server Invite''
             (findDisplayNameByIdentity (di_senderIdentity i) (ev_app w) @ '' invited you to join a server'') None,
           nf_dedupeKey = Some (''dm_invite:'' @ show_int (di_id i)), nf_suppress = False,
           nf_suppressIfFocusedAndActive = False\<rparr> w
         else w)"

fun handle_event :: "clock \<Rightarrow> nat \<Rightarrow> live_event \<Rightarrow> ev_world \<Rightarrow> ev_world" where
  "handle_event ck c UsersInsertedOrUpdated w = scheduleRefresh RefUsers c False w"
| "handle_event ck c UserDeleted w = w"
| "handle_event ck c ServersChanged w = scheduleRefresh RefServers c False w"
| "handle_event ck c (MemberChanged row) w = (case signed_in (ev_app w) of
     None \<Rightarrow> scheduleRefresh RefMembers c False w
   | Some me \<Rightarrow> if sameIdentity (mb_userIdentity (mapServerMember row)) me then scheduleRefresh RefServerScoped c False w
       else scheduleRefresh RefMembers c False w)"
| "handle_event ck c JoinRequestsChanged w = scheduleRefresh RefJoinRequests c False w"
| "handle_event ck c MemberCountsChanged w = scheduleRefresh RefDiscover c False w"
| "handle_event ck c ChannelsChanged w = scheduleRefresh RefChannels c False w"
| "handle_event ck c VoiceChanged w = scheduleRefresh RefVoice c False w"
| "handle_event ck c (FriendInserted row) w = friend_inserted ck (mapFriend row) (scheduleRefresh RefFriends c False w)"
| "handle_event ck c (FriendUpdated row) w = friend_updated ck (mapFriend row) (scheduleRefresh RefFriends c False w)"
| "handle_event ck c FriendDeleted w = scheduleRefresh RefFriends c False w"
| "handle_event ck c BlockInsertedOrDeleted w = scheduleRefresh RefFriends c False w"
| "handle_event ck c BlockUpdated w = w"
| "handle_event ck c (DirectMessageInserted row) w =
     handleIncomingDirectMessage ck (mapDirectMessage row) (scheduleRefresh RefDirectMessages c True w)"
| "handle_event ck c DirectMessageChanged w = scheduleRefresh RefDirectMessages c True w"
| "handle_event ck c DmVoiceChanged w = scheduleRefresh RefDmVoice c False w"
| "handle_event ck c PresenceChanged w = scheduleRefresh RefPresence c False w"
| "handle_event ck c TypingChanged w = scheduleRefresh RefTyping c False w"
| "handle_event ck c ReadStatesChanged w = scheduleRefresh RefReadStates c True w"
| "handle_event ck c InvitesChanged w = scheduleRefresh RefInvites c False w"
| "handle_event ck c (DmServerInviteInserted row) w =
     dm_invite_inserted ck (mapDmServerInvite row) (scheduleRefresh RefDmServerInvites c False w)"
| "handle_event ck c DmServerInvitesChanged w = scheduleRefresh RefDmServerInvites c False w"
| "handle_event ck c (MessageInserted row) w = handleIncomingMessage ck (mapMessage row) (scheduleRefresh RefMessages c True w)"
| "handle_event ck c MessagesChanged w = scheduleRefresh RefMessages c True w"
| "handle_event ck c PinsChanged w = scheduleRefresh RefPins c False w"

text \<open>\<open>watchLiveTables(conn, isLive)\<close>: every handler first asks whether the connection is live.\<close>

definition watchLiveTables :: "bool \<Rightarrow> clock \<Rightarrow> nat \<Rightarrow> live_event \<Rightarrow> ev_world \<Rightarrow> ev_world" where
  "watchLiveTables isLive ck c e w = (if isLive then handle_event ck c e w else w)"

end
