(* ===== verification/EventFacts.thy ===== *)
theory EventFacts
  imports Events
begin

text \<open>
  What the coalesced refreshes achieve: after the timer has run, the stores show the current cache again,
  whatever changed in between; no work is dropped; nothing of a connection that was torn down comes back.
\<close>

section \<open>Parts of the view\<close>

datatype view_part = VUsers | VServers | VDiscover | VMembers | VChannels | VInvites | VMessages | VPins | VVoice
  | VFriends | VDms | VDmVoice | VDmServerInvites

text \<open>The rows of the members store carry a copy of the user; the part \<open>VMembers\<close> is the rows without it.\<close>

definition bare_member :: "server_member_with_user \<Rightarrow> server_member_with_user" where
  "bare_member m = m\<lparr>mb_user := None\<rparr>"

definition blank_view :: app_view where
  "blank_view = \<lparr>av_users = (\<lambda>_. None), av_self = None, av_servers = [], av_discover = [], av_members = (\<lambda>_. []),
     av_channels = (\<lambda>_. []), av_invites = (\<lambda>_. []), av_messages = (\<lambda>_. []), av_pins = (\<lambda>_. []), av_voice = (\<lambda>_. []),
     av_friends = [], av_blocked = [], av_dms = (\<lambda>_. []), av_dmVoice = (\<lambda>_. []), av_dmInvites = []\<rparr>"

fun part :: "view_part \<Rightarrow> app_view \<Rightarrow> app_view" where
  "part VUsers v = blank_view\<lparr>av_users := av_users v, av_self := av_self v\<rparr>"
| "part VServers v = blank_view\<lparr>av_servers := av_servers v\<rparr>"
| "part VDiscover v = blank_view\<lparr>av_discover := av_discover v\<rparr>"
| "part VMembers v = blank_view\<lparr>av_members := (\<lambda>s. map bare_member (av_members v s))\<rparr>"
| "part VChannels v = blank_view\<lparr>av_channels := av_channels v\<rparr>"
| "part VInvites v = blank_view\<lparr>av_invites := av_invites v\<rparr>"
| "part VMessages v = blank_view\<lparr>av_messages := av_messages v\<rparr>"
| "part VPins v = blank_view\<lparr>av_pins := av_pins v\<rparr>"
| "part VVoice v = blank_view\<lparr>av_voice := av_voice v\<rparr>"
| "part VFriends v = blank_view\<lparr>av_friends := av_friends v, av_blocked := av_blocked v\<rparr>"
| "part VDms v = blank_view\<lparr>av_dms := av_dms v\<rparr>"
| "part VDmVoice v = blank_view\<lparr>av_dmVoice := av_dmVoice v\<rparr>"
| "part VDmServerInvites v = blank_view\<lparr>av_dmInvites := av_dmInvites v\<rparr>"

text \<open>Which parts a refresh rebuilds.\<close>

fun rebuilds :: "refresh_key \<Rightarrow> view_part list" where
  "rebuilds RefUsers = [VUsers]"
| "rebuilds RefServers = [VServers, VDiscover]"
| "rebuilds RefServerScoped = [VServers, VMembers, VChannels, VInvites, VDiscover]"
| "rebuilds RefMembers = [VMembers]"
| "rebuilds RefJoinRequests = []"
| "rebuilds RefDiscover = [VDiscover]"
| "rebuilds RefChannels = [VChannels]"
| "rebuilds RefVoice = [VVoice]"
| "rebuilds RefFriends = [VFriends]"
| "rebuilds RefDirectMessages = [VDms]"
| "rebuilds RefDmVoice = [VDmVoice]"
| "rebuilds RefPresence = []"
| "rebuilds RefTyping = []"
| "rebuilds RefReadStates = []"
| "rebuilds RefInvites = [VInvites]"
| "rebuilds RefDmServerInvites = [VDmServerInvites]"
| "rebuilds RefMessages = [VMessages]"
| "rebuilds RefPins = [VPins]"

section \<open>One refresh\<close>

lemmas refresh_defs = pass_upd syncServerScopedState_def syncUsers_def

lemma refresh_signed_in [simp]: "signed_in (run_refresh lc now conn k app) = signed_in app"
  by (cases k) (simp_all add: pass_upd syncServerScopedState_def)

lemma refresh_elsewhere:
  assumes "p \<notin> set (rebuilds k)"
  shows "part p (view_of (run_refresh lc now conn k app)) = part p (view_of app)"
  using assms by (cases k; cases p) (simp_all add: pass_upd syncServerScopedState_def view_of_def)

lemma scoped_fields:
  "as_servers (syncServerScopedState lc now conn st) = as_servers (syncServerList conn st)"
  "as_members (syncServerScopedState lc now conn st) = as_members (syncMembers conn st)"
  "as_channels (syncServerScopedState lc now conn st) = as_channels (syncChannels lc conn st)"
  "as_invites (syncServerScopedState lc now conn st) = as_invites (syncInvites now conn st)"
  "as_discover (syncServerScopedState lc now conn st) = as_discover (syncDiscover conn st)"
  by (simp_all add: syncServerScopedState_def pass_upd)

lemma discover_view:
  assumes "signed_in st = Some me"
  shows "dc_servers (as_discover (syncDiscover conn st)) = map (\<lambda>s. \<lparr>ds_id = sv_id s, ds_name = sv_name s,
         ds_ownerIdentity = sv_ownerIdentity s, ds_invitePolicy = sv_invitePolicy s, ds_iconUrl = sv_iconUrl s,
         ds_description = sv_description s, ds_tags = sv_tags s, ds_memberCount = rec_or (member_counts conn) (sv_id s) 0\<rparr>)
       (filter (\<lambda>s. sv_isDiscoverable s \<and> sv_id s \<notin> joined_of conn me) (map mapServer (my_servers conn)))"
  by (simp add: syncDiscover_def setDiscoverServers_def Let_def joined_signed_in[OF assms])

lemma servers_then_discover:
  "as_discover (syncDiscover conn (syncServerList conn st)) = as_discover (syncDiscover conn st)"
  "as_servers (syncDiscover conn (syncServerList conn st)) = as_servers (syncServerList conn st)"
  by (simp_all add: pass_upd)

lemma project_fields:
  "av_users (project lc now conn me older dmOlder) = ((\<lambda>i. find (\<lambda>u. u_identity u = i) (rev (map mapUser (my_visible_users conn)))))"
  "av_self (project lc now conn me older dmOlder) = (find (\<lambda>u. sameIdentity (u_identity u) me) (map mapUser (my_visible_users conn)))"
  "av_servers (project lc now conn me older dmOlder) = (filter (\<lambda>s. sv_id s \<in> joined_of conn me) (map mapServer (my_servers conn)))"
  "av_discover (project lc now conn me older dmOlder) = (map (\<lambda>s. \<lparr>ds_id = sv_id s, ds_name = sv_name s, ds_ownerIdentity = sv_ownerIdentity s, ds_invitePolicy = sv_invitePolicy s, ds_iconUrl = sv_iconUrl s, ds_description = sv_description s, ds_tags = sv_tags s, ds_memberCount = rec_or (member_counts conn) (sv_id s) 0\<rparr>) (filter (\<lambda>s. sv_isDiscoverable s \<and> sv_id s \<notin> joined_of conn me) (map mapServer (my_servers conn))))"
  "av_members (project lc now conn me older dmOlder) = ((\<lambda>s. if s \<in> joined_of conn me then map (with_user (map mapUser (my_visible_users conn))) (filter (\<lambda>m. mb_serverId m = s) (map mapServerMember (my_server_members conn))) else []))"
  "av_channels (project lc now conn me older dmOlder) = ((\<lambda>s. if s \<in> joined_of conn me then js_sort (compareChannelsByLayout lc) (filter (\<lambda>c. ch_serverId c = s) (map mapChannel (my_channels conn))) else []))"
  "av_invites (project lc now conn me older dmOlder) = ((\<lambda>s. if s \<in> joined_of conn me then filter (\<lambda>i. iv_serverId i = s \<and> isInviteActive now i) (map mapInvite (my_invites conn)) else []))"
  "av_messages (project lc now conn me older dmOlder) = ((\<lambda>c. mergeHistory lc (older c) (js_sort (\<lambda>a b. lc (msg_sentAt a) (msg_sentAt b)) (filter (\<lambda>m. msg_channelId m = c) (map mapMessage (my_channel_messages conn))))))"
  "av_pins (project lc now conn me older dmOlder) = ((\<lambda>c. map (\<lambda>p. (pn_pinId p, pn_messageId p)) (js_sort (\<lambda>a b. lc (pn_pinnedAt b) (pn_pinnedAt a)) (filter (\<lambda>p. pn_channelId p = c) (map mapPinnedMessage (my_pinned_messages conn))))))"
  "av_voice (project lc now conn me older dmOlder) = ((\<lambda>c. filter (\<lambda>p. vp_channelId p = c) (map mapVoiceParticipant (my_voice_participants conn))))"
  "av_friends (project lc now conn me older dmOlder) = (map mapFriend (my_friends conn))"
  "av_blocked (project lc now conn me older dmOlder) = (map mapBlock (my_blocks conn))"
  "av_dms (project lc now conn me older dmOlder) = ((\<lambda>p. map dm_shown (mergeDmHistory lc (dmOlder p) (js_sort (\<lambda>a b. lc (dm_sentAt a) (dm_sentAt b)) (filter (\<lambda>m. dm_partner me m = p) (map mapDirectMessage (my_direct_messages conn)))))))"
  "av_dmVoice (project lc now conn me older dmOlder) = ((\<lambda>k. filter (\<lambda>p. dv_roomKey p = k) (map mapDmVoiceParticipant (my_dm_voice_participants conn))))"
  "av_dmInvites (project lc now conn me older dmOlder) = (map mapDmServerInvite (my_dm_server_invites conn))"
  by (simp_all add: project_def Let_def)

lemma view_fields:
  "av_users (view_of st) = (\<lambda>i. getByIdentity i (as_users st))"
  "av_self (view_of st) = self_user (as_self st)"
  "av_servers (view_of st) = ss_servers (as_servers st)"
  "av_discover (view_of st) = dc_servers (as_discover st)"
  "av_members (view_of st) = server_members (as_members st)"
  "av_channels (view_of st) = server_channels (as_channels st)"
  "av_invites (view_of st) = server_invites (as_invites st)"
  "av_messages (view_of st) = channel_view (as_messages st)"
  "av_pins (view_of st) = pin_view (as_pins st)"
  "av_voice (view_of st) = channel_participants (as_voice st)"
  "av_friends (view_of st) = fs_friends (as_friends st)"
  "av_blocked (view_of st) = fs_blocked (as_friends st)"
  "av_dms (view_of st) = dm_shown_view (as_dms st)"
  "av_dmVoice (view_of st) = room_participants (as_dmVoice st)"
  "av_dmInvites (view_of st) = dsi_invites (as_dmInvites st)"
  by (simp_all add: view_of_def)

lemma refresh_shows:
  assumes p: "p \<in> set (rebuilds k)" and me: "signed_in app = Some me" and ok: "app_ok app"
  shows "part p (view_of (run_refresh lc now conn k app)) = part p (project lc now conn me
    (map_of (olderByChannel (as_messages app))) (map_of (olderByConversation (as_dms app))))"
  using p
  by (cases k; cases p rule: view_part.exhaust) (simp_all add: view_fields scoped_fields servers_then_discover discover_view[OF me] lists_view[OF me]
      members_view[OF me] channels_view[OF me] invites_view[OF me] messages_view[OF ok] dms_view[OF me ok] pins_view voice_view
      project_fields)

lemma refresh_older [simp]:
  "olderByChannel (as_messages (run_refresh lc now conn k app)) = olderByChannel (as_messages app)"
  "olderByConversation (as_dms (run_refresh lc now conn k app)) = olderByConversation (as_dms app)"
  by (cases k; simp add: pass_upd syncServerScopedState_def replace_all_keeps[of olderByChannel] setChannelMessages_def)
    (cases k; simp add: pass_upd syncServerScopedState_def replace_all_keeps[of olderByConversation] setConversation_def
      split: option.split)

lemma refresh_ok: "app_ok app \<Longrightarrow> app_ok (run_refresh lc now conn k app)"
  by (cases k) (auto simp: app_ok_def pass_upd syncServerScopedState_def message_rows.replace_all_ok
      dm_rows.replace_all_ok split: option.split)

section \<open>Being up to date\<close>

text \<open>A part shows the cache \<open>conn\<close>; which invitations have expired was decided at some moment.\<close>

definition shows_part :: "(string \<Rightarrow> string \<Rightarrow> int) \<Rightarrow> identity \<Rightarrow> db_cache \<Rightarrow> view_part \<Rightarrow> app_state \<Rightarrow> bool" where
  "shows_part lc me conn p app \<longleftrightarrow> (\<exists>now. part p (view_of app) = part p (project lc now conn me
    (map_of (olderByChannel (as_messages app))) (map_of (olderByConversation (as_dms app)))))"

definition up_to_date :: "(string \<Rightarrow> string \<Rightarrow> int) \<Rightarrow> identity \<Rightarrow> db_cache \<Rightarrow> app_state \<Rightarrow> bool" where
  "up_to_date lc me conn app \<longleftrightarrow> (\<forall>p. shows_part lc me conn p app)"

lemma refresh_keeps_shown:
  assumes "shows_part lc me conn p app" and "signed_in app = Some me" and "app_ok app"
  shows "shows_part lc me conn p (run_refresh lc now conn k app)"
  using assms refresh_elsewhere[of p k lc now conn app] refresh_shows[of p k app me lc now conn]
  unfolding shows_part_def by (cases "p \<in> set (rebuilds k)") auto

lemma refreshes_shown:
  assumes "signed_in app = Some me" and "app_ok app"
    and "shows_part lc me conn p app \<or> (\<exists>k\<in>fst ` set ps. p \<in> set (rebuilds k))"
  shows "shows_part lc me conn p (foldl (\<lambda>app (k, c). run_refresh lc now conn k app) app ps)"
  using assms
proof (induction ps arbitrary: app)
  case (Cons kc ps)
  obtain k c where kc: "kc = (k, c)" by (cases kc)
  have "shows_part lc me conn p (run_refresh lc now conn k app) \<or> (\<exists>k\<in>fst ` set ps. p \<in> set (rebuilds k))"
  proof (cases "p \<in> set (rebuilds k)")
    case True
    from refresh_shows[OF this Cons.prems(1,2)] have "shows_part lc me conn p (run_refresh lc now conn k app)"
      unfolding shows_part_def by auto
    then show ?thesis ..
  next
    case False
    with Cons.prems kc refresh_keeps_shown show ?thesis by fastforce
  qed
  with Cons kc show ?case by (simp add: refresh_ok)
qed simp

lemma refreshes_keep:
  assumes "signed_in app = Some me" and "app_ok app"
  shows "signed_in (foldl (\<lambda>app (k, c). run_refresh lc now (caches c) k app) app ps) = Some me"
    and "app_ok (foldl (\<lambda>app (k, c). run_refresh lc now (caches c) k app) app ps)"
  using assms by (induction ps arbitrary: app) (auto simp: refresh_ok)

lemma recompute_view [simp]: "view_of (recomputeUnread st) = view_of st"
  by (simp add: view_of_def)

lemma recompute_signed_in [simp]: "signed_in (recomputeUnread st) = signed_in st"
  by (simp add: signed_in_def)

lemma recompute_ok [simp]: "app_ok (recomputeUnread st) = app_ok st"
  by (simp add: app_ok_def)

section \<open>Events\<close>

lemma notify_in_keeps [simp]:
  "ev_app (notify_in ck n w) = ev_app w" "ev_pending (notify_in ck n w) = ev_pending w"
  "ev_flush (notify_in ck n w) = ev_flush w" "ev_unreadStale (notify_in ck n w) = ev_unreadStale w"
  by (simp_all add: notify_in_def split: prod.split)

text \<open>The refresh an event marks, for the account \<open>me\<close>.\<close>

fun wakes :: "identity \<Rightarrow> live_event \<Rightarrow> refresh_key option" where
  "wakes me UsersInsertedOrUpdated = Some RefUsers"
| "wakes me UserDeleted = None"
| "wakes me ServersChanged = Some RefServers"
| "wakes me (MemberChanged row) = Some (if sameIdentity (mb_userIdentity (mapServerMember row)) me then RefServerScoped else RefMembers)"
| "wakes me JoinRequestsChanged = Some RefJoinRequests"
| "wakes me MemberCountsChanged = Some RefDiscover"
| "wakes me ChannelsChanged = Some RefChannels"
| "wakes me VoiceChanged = Some RefVoice"
| "wakes me (FriendInserted _) = Some RefFriends"
| "wakes me (FriendUpdated _) = Some RefFriends"
| "wakes me FriendDeleted = Some RefFriends"
| "wakes me BlockInsertedOrDeleted = Some RefFriends"
| "wakes me BlockUpdated = None"
| "wakes me (DirectMessageInserted _) = Some RefDirectMessages"
| "wakes me DirectMessageChanged = Some RefDirectMessages"
| "wakes me DmVoiceChanged = Some RefDmVoice"
| "wakes me PresenceChanged = Some RefPresence"
| "wakes me TypingChanged = Some RefTyping"
| "wakes me ReadStatesChanged = Some RefReadStates"
| "wakes me InvitesChanged = Some RefInvites"
| "wakes me (DmServerInviteInserted _) = Some RefDmServerInvites"
| "wakes me DmServerInvitesChanged = Some RefDmServerInvites"
| "wakes me (MessageInserted _) = Some RefMessages"
| "wakes me MessagesChanged = Some RefMessages"
| "wakes me PinsChanged = Some RefPins"

lemmas event_defs = scheduleRefresh_def handleIncomingMessage_def handleIncomingDirectMessage_def friend_inserted_def
  friend_updated_def dm_invite_inserted_def handleIncomingFriendRequest_def handleFriendAccepted_def Let_def

lemma handle_event_effect:
  assumes "signed_in (ev_app w) = Some me"
  shows "ev_app (handle_event ck c e w) = ev_app w
    \<and> ev_pending (handle_event ck c e w) = (case wakes me e of None \<Rightarrow> ev_pending w | Some k \<Rightarrow> rec_set k c (ev_pending w))
    \<and> ev_flush (handle_event ck c e w) = (ev_flush w \<or> wakes me e \<noteq> None)"
  using assms by (cases e) (simp_all add: event_defs)

text \<open>
  What the client library promises about a change of the cache from \<open>c\<close> to \<open>c'\<close>: for each table whose rows
  differ at least one callback of that table runs, and if it is the account's own memberships that differ, one
  with a row of the account.  Users are only inserted or updated, blocks only inserted or deleted.
\<close>

datatype cache_table = TUsers | TServers | TMembers | TOwnMemberships | TMemberCounts | TChannels | TMessages | TPins
  | TVoice | TFriends | TBlocks | TDms | TDmVoice | TInvites | TDmServerInvites

fun table_differs :: "identity \<Rightarrow> db_cache \<Rightarrow> db_cache \<Rightarrow> cache_table \<Rightarrow> bool" where
  "table_differs me c c' TUsers = (my_visible_users c' \<noteq> my_visible_users c)"
| "table_differs me c c' TServers = (my_servers c' \<noteq> my_servers c)"
| "table_differs me c c' TMembers = (my_server_members c' \<noteq> my_server_members c)"
| "table_differs me c c' TOwnMemberships = (joined_of c' me \<noteq> joined_of c me)"
| "table_differs me c c' TMemberCounts = (discover_server_member_counts c' \<noteq> discover_server_member_counts c)"
| "table_differs me c c' TChannels = (my_channels c' \<noteq> my_channels c)"
| "table_differs me c c' TMessages = (my_channel_messages c' \<noteq> my_channel_messages c)"
| "table_differs me c c' TPins = (my_pinned_messages c' \<noteq> my_pinned_messages c)"
| "table_differs me c c' TVoice = (my_voice_participants c' \<noteq> my_voice_participants c)"
| "table_differs me c c' TFriends = (my_friends c' \<noteq> my_friends c)"
| "table_differs me c c' TBlocks = (my_blocks c' \<noteq> my_blocks c)"
| "table_differs me c c' TDms = (my_direct_messages c' \<noteq> my_direct_messages c)"
| "table_differs me c c' TDmVoice = (my_dm_voice_participants c' \<noteq> my_dm_voice_participants c)"
| "table_differs me c c' TInvites = (my_invites c' \<noteq> my_invites c)"
| "table_differs me c c' TDmServerInvites = (my_dm_server_invites c' \<noteq> my_dm_server_invites c)"

fun reports :: "identity \<Rightarrow> cache_table \<Rightarrow> live_event \<Rightarrow> bool" where
  "reports me TUsers e = (e = UsersInsertedOrUpdated)"
| "reports me TServers e = (e = ServersChanged)"
| "reports me TMembers e = (case e of MemberChanged _ \<Rightarrow> True | _ \<Rightarrow> False)"
| "reports me TOwnMemberships e = (case e of MemberChanged row \<Rightarrow> sameIdentity (mb_userIdentity (mapServerMember row)) me | _ \<Rightarrow> False)"
| "reports me TMemberCounts e = (e = MemberCountsChanged)"
| "reports me TChannels e = (e = ChannelsChanged)"
| "reports me TMessages e = (case e of MessagesChanged \<Rightarrow> True | MessageInserted _ \<Rightarrow> True | _ \<Rightarrow> False)"
| "reports me TPins e = (e = PinsChanged)"
| "reports me TVoice e = (e = VoiceChanged)"
| "reports me TFriends e = (case e of FriendDeleted \<Rightarrow> True | FriendInserted _ \<Rightarrow> True | FriendUpdated _ \<Rightarrow> True | _ \<Rightarrow> False)"
| "reports me TBlocks e = (e = BlockInsertedOrDeleted)"
| "reports me TDms e = (case e of DirectMessageChanged \<Rightarrow> True | DirectMessageInserted _ \<Rightarrow> True | _ \<Rightarrow> False)"
| "reports me TDmVoice e = (e = DmVoiceChanged)"
| "reports me TInvites e = (e = InvitesChanged)"
| "reports me TDmServerInvites e = (case e of DmServerInvitesChanged \<Rightarrow> True | DmServerInviteInserted _ \<Rightarrow> True | _ \<Rightarrow> False)"

definition delivers :: "identity \<Rightarrow> db_cache \<Rightarrow> db_cache \<Rightarrow> live_event list \<Rightarrow> bool" where
  "delivers me c c' es \<longleftrightarrow> (\<forall>t. table_differs me c c' t \<longrightarrow> (\<exists>e\<in>set es. reports me t e))"

text \<open>The tables a part of the view is made of.\<close>

fun made_of :: "view_part \<Rightarrow> cache_table list" where
  "made_of VUsers = [TUsers]"
| "made_of VServers = [TServers, TOwnMemberships]"
| "made_of VDiscover = [TServers, TOwnMemberships, TMemberCounts]"
| "made_of VMembers = [TMembers, TOwnMemberships]"
| "made_of VChannels = [TChannels, TOwnMemberships]"
| "made_of VInvites = [TInvites, TOwnMemberships]"
| "made_of VMessages = [TMessages]"
| "made_of VPins = [TPins]"
| "made_of VVoice = [TVoice]"
| "made_of VFriends = [TFriends, TBlocks]"
| "made_of VDms = [TDms]"
| "made_of VDmVoice = [TDmVoice]"
| "made_of VDmServerInvites = [TDmServerInvites]"

definition woken :: "identity \<Rightarrow> live_event list \<Rightarrow> refresh_key set" where
  "woken me es = {k. \<exists>e\<in>set es. wakes me e = Some k}"

lemma woken_intros:
  "e \<in> set es \<Longrightarrow> wakes me e = Some k \<Longrightarrow> k \<in> woken me es"
  by (auto simp: woken_def)

lemma bare_with_user: "bare_member (with_user us m) = bare_member (with_user [] m)"
  by (simp add: bare_member_def with_user_def server_member.defs)

lemma bare_members:
  "map bare_member (if b then map (with_user us) xs else []) = map bare_member (if b then map (with_user []) xs else [])"
  using bare_with_user[of us] by simp

lemma same_tables_same_part:
  assumes "\<forall>t\<in>set (made_of p). \<not> table_differs me c c' t"
  shows "part p (project lc now c' me o1 o2) = part p (project lc now c me o1 o2)"
proof (cases p)
  case VMembers
  with assms have m: "my_server_members c' = my_server_members c" "joined_of c' me = joined_of c me" by simp_all
  show ?thesis unfolding VMembers part.simps project_fields bare_members[of _ "map mapUser _"] m ..
next
  case VChannels
  with assms have m: "my_channels c' = my_channels c" "joined_of c' me = joined_of c me" by simp_all
  show ?thesis unfolding VChannels part.simps project_fields m ..
next
  case VInvites
  with assms have m: "my_invites c' = my_invites c" "joined_of c' me = joined_of c me" by simp_all
  show ?thesis unfolding VInvites part.simps project_fields m ..
qed (use assms in \<open>simp_all add: project_fields member_counts_def\<close>)

lemma report_rebuilds:
  assumes "t \<in> set (made_of p)" and "reports me t e"
  shows "\<exists>k. wakes me e = Some k \<and> p \<in> set (rebuilds k)"
proof -
  have "\<exists>k. wakes me e = Some k \<and> (\<forall>p. t \<in> set (made_of p) \<longrightarrow> p \<in> set (rebuilds k))"
  proof -
    have own: "p \<in> set (rebuilds RefServerScoped)" if "TOwnMemberships \<in> set (made_of p) \<or> TMembers \<in> set (made_of p)" for p
      using that by (cases p) auto
    have one: "p = q" if "t \<in> set (made_of p)" "t \<in> set (made_of q)" "t \<notin> {TServers, TOwnMemberships}" for t p q
      using that by (cases t; cases p; cases q) auto
    have srv: "p \<in> {VServers, VDiscover}" if "TServers \<in> set (made_of p)" for p using that by (cases p) auto
    show ?thesis
      using assms(2) own srv one[of t _ VMembers] one[of t _ VUsers] one[of t _ VDiscover] one[of t _ VChannels]
        one[of t _ VMessages] one[of t _ VPins] one[of t _ VVoice] one[of t _ VFriends] one[of t _ VDms] one[of t _ VDmVoice]
        one[of t _ VInvites] one[of t _ VDmServerInvites]
      by (cases t) (auto split: live_event.splits)
  qed
  with assms(1) show ?thesis by blast
qed

lemma delivers_parts:
  assumes d: "delivers me c c' es"
  shows "(\<forall>now. part p (project lc now c' me o1 o2) = part p (project lc now c me o1 o2))
    \<or> (\<exists>k\<in>woken me es. p \<in> set (rebuilds k))"
proof (cases "\<exists>t\<in>set (made_of p). table_differs me c c' t")
  case True
  with d obtain t e where "t \<in> set (made_of p)" "e \<in> set es" "reports me t e" unfolding delivers_def by blast
  with report_rebuilds[of t p me e] show ?thesis unfolding woken_def by blast
next
  case False
  with same_tables_same_part show ?thesis by blast
qed

section \<open>Runs of a live connection\<close>

text \<open>The cache changes and the callbacks of that change run, or the timer fires.\<close>

datatype live_input = RowsChanged clock db_cache "live_event list" | TimerFires int

fun live_step :: "(string \<Rightarrow> string \<Rightarrow> int) \<Rightarrow> nat \<Rightarrow> ev_world \<times> db_cache \<Rightarrow> live_input \<Rightarrow> ev_world \<times> db_cache" where
  "live_step lc cid (w, c) (RowsChanged ck c' es) = (foldl (\<lambda>w e. watchLiveTables True ck cid e w) w es, c')"
| "live_step lc cid (w, c) (TimerFires now) = (flush_timer lc now (\<lambda>_. c) w, c)"

fun sdk_delivers :: "identity \<Rightarrow> db_cache \<Rightarrow> live_input list \<Rightarrow> bool" where
  "sdk_delivers me c [] = True"
| "sdk_delivers me c (RowsChanged ck c' es # ss) = (delivers me c c' es \<and> sdk_delivers me c' ss)"
| "sdk_delivers me c (TimerFires now # ss) = sdk_delivers me c ss"

definition live_inv :: "(string \<Rightarrow> string \<Rightarrow> int) \<Rightarrow> identity \<Rightarrow> ev_world \<Rightarrow> db_cache \<Rightarrow> bool" where
  "live_inv lc me w c \<longleftrightarrow> signed_in (ev_app w) = Some me \<and> app_ok (ev_app w)
     \<and> (ev_pending w \<noteq> [] \<longrightarrow> ev_flush w)
     \<and> (\<forall>p. shows_part lc me c p (ev_app w) \<or> (\<exists>k\<in>fst ` set (ev_pending w). p \<in> set (rebuilds k)))"

lemma events_effect:
  assumes "signed_in (ev_app w) = Some me" and "w' = foldl (\<lambda>w e. watchLiveTables True ck cid e w) w es"
  shows "ev_app w' = ev_app w \<and> fst ` set (ev_pending w') = fst ` set (ev_pending w) \<union> woken me es
    \<and> ((ev_pending w \<noteq> [] \<longrightarrow> ev_flush w) \<longrightarrow> ev_pending w' \<noteq> [] \<longrightarrow> ev_flush w')"
  unfolding assms(2) using assms(1)
proof (induction es arbitrary: w)
  case (Cons e es)
  define u where "u = handle_event ck cid e w"
  have u: "ev_app u = ev_app w" "ev_pending u = (case wakes me e of None \<Rightarrow> ev_pending w | Some k \<Rightarrow> rec_set k cid (ev_pending w))"
    "ev_flush u = (ev_flush w \<or> wakes me e \<noteq> None)"
    using handle_event_effect[OF Cons.prems, of ck cid e] by (simp_all add: u_def)
  have wk: "woken me (e # es) = (case wakes me e of None \<Rightarrow> {} | Some k \<Rightarrow> {k}) \<union> woken me es"
    by (auto simp: woken_def split: option.splits)
  have "signed_in (ev_app u) = Some me" using Cons.prems u by simp
  from Cons.IH[OF this] u wk show ?case
    by (auto simp: watchLiveTables_def u_def[symmetric] split: option.splits)
qed (simp add: woken_def)

lemma flush_inv:
  assumes "live_inv lc me w c"
  shows "up_to_date lc me c (ev_app (flush_timer lc now (\<lambda>_. c) w)) \<and> ev_pending (flush_timer lc now (\<lambda>_. c) w) = []
    \<and> live_inv lc me (flush_timer lc now (\<lambda>_. c) w) c"
proof (cases "ev_flush w")
  case True
  define app where "app = foldl (\<lambda>app (k, x). run_refresh lc now c k app) (ev_app w) (ev_pending w)"
  have keep: "signed_in app = Some me" "app_ok app"
    using refreshes_keep[of "ev_app w" me lc now "\<lambda>_. c" "ev_pending w"] assms by (simp_all add: live_inv_def app_def)
  have up: "shows_part lc me c p app" for p
    using refreshes_shown[of "ev_app w" me lc c p "ev_pending w" now] assms by (auto simp: live_inv_def app_def)
  have up': "shows_part lc me c p (recomputeUnread app)" for p
    using up[of p] by (simp add: shows_part_def)
  show ?thesis
    using keep up up' True by (simp add: flush_timer_def flushRefreshes_def Let_def app_def[symmetric] live_inv_def up_to_date_def)
next
  case False
  with assms show ?thesis by (auto simp: live_inv_def flush_timer_def up_to_date_def)
qed

lemma live_step_inv:
  assumes "live_inv lc me w c" and "sdk_delivers me c (s # ss)" and "live_step lc cid (w, c) s = (w', c')"
  shows "live_inv lc me w' c' \<and> sdk_delivers me c' ss"
proof (cases s)
  case (RowsChanged ck c1 es)
  with assms have w': "w' = foldl (\<lambda>w e. watchLiveTables True ck cid e w) w es" and c1: "c' = c1"
    and d: "delivers me c c1 es" "sdk_delivers me c1 ss" by auto
  have me: "signed_in (ev_app w) = Some me" using assms(1) by (simp add: live_inv_def)
  note e = events_effect[OF me w']
  have "shows_part lc me c1 p (ev_app w') \<or> (\<exists>k\<in>fst ` set (ev_pending w'). p \<in> set (rebuilds k))" for p
  proof (cases "\<exists>k\<in>woken me es. p \<in> set (rebuilds k)")
    case True
    with e show ?thesis by blast
  next
    case False
    with delivers_parts[OF d(1)] have "part p (project lc now c1 me o1 o2) = part p (project lc now c me o1 o2)" for now o1 o2
      by blast
    then have same: "shows_part lc me c1 p (ev_app w) = shows_part lc me c p (ev_app w)"
      by (simp add: shows_part_def)
    from assms(1) have "shows_part lc me c p (ev_app w) \<or> (\<exists>k\<in>fst ` set (ev_pending w). p \<in> set (rebuilds k))"
      unfolding live_inv_def by blast
    with same e show ?thesis by auto
  qed
  with assms(1) e d c1 show ?thesis by (auto simp: live_inv_def)
next
  case (TimerFires now)
  with assms flush_inv[of lc me w c now] show ?thesis by auto
qed

lemma live_run_inv:
  assumes "live_inv lc me w c" and "sdk_delivers me c ss"
  shows "live_inv lc me (fst (foldl (live_step lc cid) (w, c) ss)) (snd (foldl (live_step lc cid) (w, c) ss))"
  using assms
proof (induction ss arbitrary: w c)
  case (Cons s ss)
  obtain w' c' where r: "live_step lc cid (w, c) s = (w', c')" by fastforce
  from live_step_inv[OF Cons.prems(1,2) this] Cons.IH[of w' c'] r show ?case by simp
qed simp


lemma sync_all_up_to_date:
  assumes "signed_in st = Some me" and "app_ok st"
  shows "up_to_date lc me conn (syncAll lc now conn st)"
  using pass_view[OF assms, of lc now conn] by (auto simp: up_to_date_def shows_part_def older_kept)

definition demo_clock :: "int \<Rightarrow> clock" where
  "demo_clock now = \<lparr>ck_now = now, ck_minutes = 720, ck_focused = False\<rparr>"

definition demo_world :: ev_world where
  "demo_world = \<lparr>ev_app = syncAll code_unit_compare 0 (demo_cache 1) demo_app, ev_pending = [], ev_unreadStale = False,
     ev_flush = False, ev_notify = notify_init, ev_shown = [], ev_badge = None\<rparr>"


section \<open>What the handlers leave out\<close>

text \<open>When a user changes his name or picture, only the user list is rebuilt: after the event and the timer
  the member lists and the join requests still carry the copy of the user they were built with.\<close>

theorem user_change_leaves_copies:
  assumes "ev_pending w = []" and "\<not> ev_unreadStale w"
  shows "let w' = flush_timer lc now caches (watchLiveTables True ck cid UsersInsertedOrUpdated w) in
    as_users (ev_app w') = setUsers (map mapUser (my_visible_users (caches cid))) (as_users (ev_app w))
    \<and> as_members (ev_app w') = as_members (ev_app w) \<and> as_joinRequests (ev_app w') = as_joinRequests (ev_app w)"
  using assms by (simp add: watchLiveTables_def scheduleRefresh_def flush_timer_def flushRefreshes_def Let_def syncUsers_def
      split: option.split)

theorem user_change_leaves_copies_witness:
  "as_members (ev_app (flush_timer code_unit_compare 9 (\<lambda>_. demo_cache 2)
     (watchLiveTables True (demo_clock 5) 0 UsersInsertedOrUpdated demo_world))) = as_members (ev_app demo_world)"
proof -
  have "ev_pending demo_world = []" "\<not> ev_unreadStale demo_world" by (simp_all add: demo_world_def)
  from user_change_leaves_copies[OF this] show ?thesis by (simp add: Let_def)
qed

lemma map_of_filter_update: "P (k, v) \<Longrightarrow> map_of (filter P (rec_set k v m)) k = Some v"
  by (induction m) auto

lemma seenRecently_marks:
  "seenRecently key now st = (st', False) \<Longrightarrow> map_of (recentByDedupeKey st') key = Some now"
  by (auto simp: seenRecently_def DEDUPE_WINDOW_MS_def map_of_filter_update split: option.splits if_splits)

lemma rate_limit_keeps_keys:
  "shouldRateLimit now st = (st', b) \<Longrightarrow> recentByDedupeKey st' = recentByDedupeKey st"
  by (auto simp: shouldRateLimit_def Let_def)

lemma notify_marks:
  assumes "notify env n st = (st', Some f)"
  shows "map_of (recentByDedupeKey st') (fn_dedupeKey f) = Some (ne_now env)"
  using assms
proof (cases rule: notify_cases)
  case (shown f s1 s2)
  with seenRecently_marks[OF shown(2)] rate_limit_keeps_keys[OF shown(3)] show ?thesis by auto
qed auto

lemma notify_key:
  assumes "notify env n st = (st', Some f)" and "nf_dedupeKey n = Some k"
  shows "fn_dedupeKey f = k"
  using assms by (auto simp: notify_def formatNotification_def or_text_def Let_def split: if_splits prod.splits)

lemma notify_silenced:
  assumes "nf_dedupeKey n = Some k" and "map_of (recentByDedupeKey st) k = Some t" and "ne_now env - t < DEDUPE_WINDOW_MS"
  shows "notify env n st = (st, None)"
  using assms by (simp add: notify_def seenRecently_def formatNotification_def or_text_def split: prod.split)

text \<open>Channel messages and direct messages are numbered independently, but both are kept silent under their bare
  number: when a channel message has been announced, a direct message with the same number that arrives within two
  seconds is never announced, whoever it is from and whatever it says.
\<close>

theorem same_number_silences_direct_message:
  assumes "ev_shown (handleIncomingMessage ck m w) \<noteq> ev_shown w" and "dm_id d = msg_id m"
    and "ck_now ck' < ck_now ck + 2000"
  shows "ev_shown (handleIncomingDirectMessage ck' d (handleIncomingMessage ck m w)) = ev_shown (handleIncomingMessage ck m w)"
proof -
  define w1 where "w1 = handleIncomingMessage ck m w"
  obtain n where n: "w1 = notify_in ck n w" "nf_dedupeKey n = Some (show_int (msg_id m))"
  proof -
    note t = that
    obtain A B P S where h: "w1 = (case signed_in (ev_app w) of None \<Rightarrow> w | Some me \<Rightarrow> if A me then w else if B then w
        else notify_in ck \<lparr>nf_payload = P, nf_dedupeKey = Some (show_int (msg_id m)), nf_suppress = False,
          nf_suppressIfFocusedAndActive = S\<rparr> w)"
      by (rule that[OF w1_def[unfolded handleIncomingMessage_def Let_def]])
    have "w1 \<noteq> w" using assms(1) unfolding w1_def[symmetric] by auto
    with h show thesis by (intro t[OF _ notification.select_convs(2)]) (auto split: option.splits if_splits)
  qed
  define env where "env = \<lparr>ne_settings = notificationSettings (as_ui (ev_app w)), ne_focused = ck_focused ck,
       ne_now = ck_now ck, ne_minutes = ck_minutes ck\<rparr>"
  obtain st' r where r: "notify env n (ev_notify w) = (st', r)" by fastforce
  have w1: "w1 = w\<lparr>ev_notify := st', ev_shown := ev_shown w @ (case r of None \<Rightarrow> [] | Some f \<Rightarrow> [f])\<rparr>"
    using n r by (simp add: notify_in_def env_def)
  from assms(1) w1 obtain f where f: "r = Some f" unfolding w1_def[symmetric] by (cases r) auto
  have mark: "map_of (recentByDedupeKey (ev_notify w1)) (show_int (msg_id m)) = Some (ck_now ck)"
    using notify_marks[of env n "ev_notify w" st' f] notify_key[of env n "ev_notify w" st' f] r f n(2) unfolding w1 by (simp add: env_def)
  have quiet: "ev_shown (notify_in ck' k w1) = ev_shown w1" if "nf_dedupeKey k = Some (show_int (msg_id m))" for k
    using notify_silenced[OF that mark] assms(3) by (simp add: notify_in_def DEDUPE_WINDOW_MS_def)
  show ?thesis
    unfolding w1_def[symmetric] handleIncomingDirectMessage_def Let_def
    using assms(2) by (simp add: quiet split: option.split)
qed

definition demo_dm :: direct_message where
  "demo_dm = mapDirectMessage \<lparr>r_dm_id = BigIntValue 5, r_dm_senderIdentity = IdentText ''ann'', r_dm_recipientIdentity = IdentText ''me'',
     r_dm_content = Some ''hi'', r_dm_sentAt = TimeText ''2026-01-01T10:00:00.000Z'', r_dm_editedAt = None,
     r_dm_deletedBySender = False, r_dm_deletedByRecipient = False\<rparr>"

theorem same_number_silences_direct_message_witness:
  "let w = demo_world\<lparr>ev_app := demo_app\<rparr>;
       w1 = handleIncomingMessage (demo_clock 1000) (mapMessage (demo_message 5 7 ''you'' ''2026-01-01T10:00:00.000Z'')) w
   in length (ev_shown w1) = 1 \<and> ev_shown (handleIncomingDirectMessage (demo_clock 2500) demo_dm w1) = ev_shown w1"
proof -
  define w where "w = demo_world\<lparr>ev_app := demo_app\<rparr>"
  have w': "w = \<lparr>ev_app = demo_app, ev_pending = [], ev_unreadStale = False,
     ev_flush = False, ev_notify = notify_init, ev_shown = [], ev_badge = None\<rparr>" by (simp add: w_def demo_world_def)
  define m where "m = mapMessage (demo_message 5 7 ''you'' ''2026-01-01T10:00:00.000Z'')"
  have l: "length (ev_shown (handleIncomingMessage (demo_clock 1000) m w)) = 1" and s: "ev_shown w = []"
    unfolding w' m_def by code_simp+
  then have d: "ev_shown (handleIncomingMessage (demo_clock 1000) m w) \<noteq> ev_shown w" by auto
  have i: "dm_id demo_dm = msg_id m" and t: "ck_now (demo_clock 2500) < ck_now (demo_clock 1000) + 2000"
    unfolding m_def by code_simp+
  show ?thesis
    using same_number_silences_direct_message[OF d i t] l unfolding Let_def w_def[symmetric] m_def[symmetric] by blast
qed

end
