(* ===== verification/Connection.thy ===== *)
theory Connection
  imports Events ServerConfig
begin

text \<open>
  \<open>src/lib/spacetimedb/connection.ts\<close>: the life of the database connection as a state machine.  A step is one
  task of the event loop with the promise continuations it releases.  Connections of the client library and
  runs of \<open>connect()\<close> are numbered by their position in \<open>cl_conns\<close> and \<open>cl_runs\<close>; all module variables
  of the file, the stored tokens and the stores it writes are fields of \<open>client\<close>.  The client library itself,
  the platform's URL parser and the build configuration are the parameters in \<open>platform\<close>.
\<close>

section \<open>Errors\<close>

datatype thrown = ThrownError string | ThrownString string | ThrownEvent "string option" "string option" string
  | ThrownOther string

text \<open>\<open>ThrownEvent type message text\<close> is an object with those fields and that \<open>String(error)\<close>.\<close>

definition network_text :: "string \<Rightarrow> string" where
  "network_text s = (if s = ''[object Event]'' then ''network event'' else s)"

fun getConnectionErrorDetails :: "thrown \<Rightarrow> string" where
  "getConnectionErrorDetails (ThrownError m) = (if js_trim m \<noteq> [] then js_trim m else network_text (''Error'' @ (if m = [] then [] else '': '' @ m)))"
| "getConnectionErrorDetails (ThrownString s) = (if js_trim s \<noteq> [] then js_trim s else s)"
| "getConnectionErrorDetails (ThrownEvent ty m s) =
     (if m \<noteq> None \<and> js_trim (the m) \<noteq> [] then js_trim (the m)
      else if ty \<noteq> None \<and> js_trim (the ty) \<noteq> [] then js_trim (the ty) @ '' event''
      else network_text s)"
| "getConnectionErrorDetails (ThrownOther s) = network_text s"

definition REAUTHENTICATION_REQUIRED_MESSAGE :: string where
  "REAUTHENTICATION_REQUIRED_MESSAGE = ''Your session is no longer valid. Please sign in again.''"

section \<open>Platform\<close>

record url =
  url_protocol :: string
  url_host :: string
  url_hostname :: string
  url_pathname :: string
  url_search :: string
  url_hash :: string
  url_href :: string

text \<open>\<open>pf_url\<close> is the URL constructor (\<open>None\<close> where it throws), \<open>pf_set_hostname\<close> the text of a URL with
  another host name, \<open>pf_build_error\<close> what the connection builder throws for an address, if anything.\<close>

record platform =
  pf_url :: "string \<Rightarrow> url option"
  pf_set_hostname :: "url \<Rightarrow> string \<Rightarrow> string option"
  pf_build_error :: "string \<Rightarrow> thrown option"
  pf_desktop :: bool
  pf_compression_off :: bool
  pf_lc :: "string \<Rightarrow> string \<Rightarrow> int"

definition canonicalizeUriCandidate :: "platform \<Rightarrow> string \<Rightarrow> string" where
  "canonicalizeUriCandidate pf raw = (case pf_url pf (js_trim raw) of
     Some u \<Rightarrow> if url_pathname u = ''/'' \<and> url_search u = [] \<and> url_hash u = [] then url_protocol u @ ''//'' @ url_host u
       else url_href u
   | None \<Rightarrow> js_trim raw)"

definition pushCandidate :: "platform \<Rightarrow> string list \<Rightarrow> string \<Rightarrow> string list" where
  "pushCandidate pf cs candidate = (let canonical = canonicalizeUriCandidate pf candidate in
     if canonical = [] then cs else if canonical \<in> set cs then cs else cs @ [canonical])"

definition loopback_hosts :: "string list" where
  "loopback_hosts = [''127.0.0.1'', ''localhost'', ''::1'']"

definition buildSpacetimeUriCandidates :: "platform \<Rightarrow> string \<Rightarrow> string list" where
  "buildSpacetimeUriCandidates pf raw = (let trimmed = js_trim raw in
     if trimmed = [] then [''ws://127.0.0.1:4300'']
     else let cs = pushCandidate pf [] trimmed in
       case pf_url pf trimmed of None \<Rightarrow> cs
       | Some parsed \<Rightarrow> if js_lower (url_hostname parsed) \<notin> set loopback_hosts then cs
           else foldl (\<lambda>cs host. case pf_set_hostname pf parsed host of None \<Rightarrow> cs | Some next \<Rightarrow> pushCandidate pf cs next)
             cs loopback_hosts)"

section \<open>State\<close>

record sdk_conn =
  sk_uri :: string
  sk_gzip :: bool
  sk_report :: bool
  sk_run :: nat
  sk_appliedOnce :: bool
  sk_established :: bool
  sk_timer :: bool
  sk_active :: bool
  sk_closed :: bool

record connect_run =
  cr_generation :: nat
  cr_uri :: string
  cr_todo :: "string list"
  cr_errors :: "string list"
  cr_canDowngrade :: bool
  cr_second :: bool
  cr_retry :: bool
  cr_joined :: bool
  cr_outcome :: "string option option"

record client =
  cl_ev :: ev_world
  cl_server :: server_config_state
  cl_conns :: "sdk_conn list"
  cl_runs :: "connect_run list"
  cl_connection :: "nat option"
  cl_subscription :: "nat option"
  cl_connectPromise :: "nat option"
  cl_live :: bool
  cl_heartbeat :: bool
  cl_heartbeatInFlight :: bool
  cl_reconnectTimer :: "int option"
  cl_reconnectAttempts :: nat
  cl_intentional :: bool
  cl_generation :: nat
  cl_downgraded :: bool
  cl_token :: "string option"

text \<open>\<open>cr_outcome\<close> is \<open>None\<close> while the run is pending, \<open>Some None\<close> when \<open>connect()\<close> returned and \<open>Some (Some e)\<close>
  when it threw \<open>e\<close>.  \<open>cl_reconnectTimer\<close> holds the upper bound of the delay it was set with.\<close>

definition is_active :: "client \<Rightarrow> bool" where
  "is_active w = (case cl_connection w of None \<Rightarrow> False | Some c \<Rightarrow> sk_active (cl_conns w ! c))"

definition abandoned :: "nat \<Rightarrow> client \<Rightarrow> bool" where
  "abandoned r w \<longleftrightarrow> cr_generation (cl_runs w ! r) \<noteq> cl_generation w"

definition set_conn :: "nat \<Rightarrow> (sdk_conn \<Rightarrow> sdk_conn) \<Rightarrow> client \<Rightarrow> client" where
  "set_conn c f w = w\<lparr>cl_conns := (cl_conns w)[c := f (cl_conns w ! c)]\<rparr>"

definition set_run :: "nat \<Rightarrow> (connect_run \<Rightarrow> connect_run) \<Rightarrow> client \<Rightarrow> client" where
  "set_run r f w = w\<lparr>cl_runs := (cl_runs w)[r := f (cl_runs w ! r)]\<rparr>"

definition on_app :: "(app_state \<Rightarrow> app_state) \<Rightarrow> client \<Rightarrow> client" where
  "on_app f w = w\<lparr>cl_ev := (cl_ev w)\<lparr>ev_app := f (ev_app (cl_ev w))\<rparr>\<rparr>"

definition setStatus :: "connection_status \<Rightarrow> string option \<Rightarrow> client \<Rightarrow> client" where
  "setStatus status msg = on_app (\<lambda>st. st\<lparr>as_connection := setConnStatus status msg (as_connection st)\<rparr>)"

section \<open>Parts of the handlers\<close>

definition pickCompression :: "platform \<Rightarrow> client \<Rightarrow> bool" where
  "pickCompression pf w = (if pf_desktop pf then False else if pf_compression_off pf then False else \<not> cl_downgraded w)"

definition teardownConnection :: "bool \<Rightarrow> client \<Rightarrow> client" where
  "teardownConnection closeSocket w = (let w = w\<lparr>cl_subscription := None, cl_live := False, cl_ev := cancelPendingRefreshes (cl_ev w)\<rparr>;
     w = (if closeSocket then case cl_connection w of None \<Rightarrow> w | Some c \<Rightarrow> set_conn c (\<lambda>k. k\<lparr>sk_closed := True\<rparr>) w else w)
   in w\<lparr>cl_connection := None\<rparr>)"

definition stopHeartbeat :: "client \<Rightarrow> client" where
  "stopHeartbeat w = w\<lparr>cl_heartbeat := False, cl_heartbeatInFlight := False\<rparr>"

definition startHeartbeat :: "client \<Rightarrow> client" where
  "startHeartbeat w = (stopHeartbeat w)\<lparr>cl_heartbeat := True\<rparr>"

definition RECONNECT_BASE_DELAY_MS :: int where "RECONNECT_BASE_DELAY_MS = 1000"
definition RECONNECT_MAX_DELAY_MS :: int where "RECONNECT_MAX_DELAY_MS = 30000"

definition reconnect_ceiling :: "nat \<Rightarrow> int" where
  "reconnect_ceiling attempts = min RECONNECT_MAX_DELAY_MS (RECONNECT_BASE_DELAY_MS * 2 ^ attempts)"

definition scheduleReconnect :: "client \<Rightarrow> client" where
  "scheduleReconnect w = (if cl_intentional w \<or> cl_reconnectTimer w \<noteq> None then w
     else w\<lparr>cl_reconnectTimer := Some (reconnect_ceiling (cl_reconnectAttempts w)),
       cl_reconnectAttempts := Suc (cl_reconnectAttempts w)\<rparr>)"

definition client_disconnect :: "int \<Rightarrow> client \<Rightarrow> client" where
  "client_disconnect now w = (let w = w\<lparr>cl_intentional := True, cl_generation := Suc (cl_generation w)\<rparr>;
     w = (stopHeartbeat w)\<lparr>cl_reconnectTimer := None, cl_reconnectAttempts := 0\<rparr>;
     w = (teardownConnection True w)\<lparr>cl_connectPromise := None\<rparr>
   in on_app (resetClientState now) (setStatus Disconnected None w))"

definition onError :: "clock \<Rightarrow> thrown \<Rightarrow> client \<Rightarrow> client" where
  "onError ck e w = (let w = setStatus Disconnected None w;
     body = (case e of ThrownError m \<Rightarrow> m | _ \<Rightarrow> ''Unknown connection error'')
   in w\<lparr>cl_ev := notify_in ck \<lparr>nf_payload = SystemP ''Connection Error'' body None,
        nf_dedupeKey = Some (''connection_error:'' @ body), nf_suppress = False, nf_suppressIfFocusedAndActive = False\<rparr> (cl_ev w)\<rparr>)"

section \<open>One run of \<open>connect()\<close>\<close>

text \<open>Opening the socket of one candidate: everything \<open>connectWithUri\<close> does before it waits.\<close>

definition open_candidate :: "platform \<Rightarrow> nat \<Rightarrow> string \<Rightarrow> bool \<Rightarrow> client \<Rightarrow> client" where
  "open_candidate pf r uri report w = (let c = length (cl_conns w) in
     w\<lparr>cl_conns := cl_conns w @ [\<lparr>sk_uri = uri, sk_gzip = pickCompression pf w, sk_report = report, sk_run = r,
         sk_appliedOnce = False, sk_established = False, sk_timer = True, sk_active = False, sk_closed = False\<rparr>],
       cl_connection := Some c, cl_subscription := Some c\<rparr>)"

definition candidate_error :: "string \<Rightarrow> thrown \<Rightarrow> string" where
  "candidate_error uri e = uri @ '' -> '' @ getConnectionErrorDetails e"

definition join_errors :: "string list \<Rightarrow> string" where
  "join_errors es = (case es of [] \<Rightarrow> [] | e # es \<Rightarrow> e @ concat (map (\<lambda>x. ''; '' @ x) es))"

text \<open>The loop of \<open>tryAllCandidates\<close> up to the next wait; \<open>Some e\<close> when it throws before one.\<close>

fun try_candidates :: "platform \<Rightarrow> nat \<Rightarrow> bool \<Rightarrow> string list \<Rightarrow> string list \<Rightarrow> client \<Rightarrow> client \<times> string option" where
  "try_candidates pf r report [] errors w = (w, Some (''SpacetimeDB connection failed at '' @ cr_uri (cl_runs w ! r) @ ''. Tried '' @
     show_nat (length (buildSpacetimeUriCandidates pf (cr_uri (cl_runs w ! r)))) @ '' URI(s): '' @ join_errors errors))"
| "try_candidates pf r report (uri # todo) errors w =
     (if abandoned r w then (w, Some ''Connection attempt abandoned by sign-out.'')
      else case pf_build_error pf uri of
        Some e \<Rightarrow> try_candidates pf r report todo (errors @ [candidate_error uri e]) (teardownConnection True w)
      | None \<Rightarrow> (open_candidate pf r uri (todo = [] \<and> report)
            (set_run r (\<lambda>k. k\<lparr>cr_todo := todo, cr_errors := errors\<rparr>) w), None))"

text \<open>\<open>connectPromise\<close> has settled: the rest of the \<open>connect()\<close> that created it.\<close>

definition run_returns :: "nat \<Rightarrow> client \<Rightarrow> client" where
  "run_returns r w = set_run r (\<lambda>k. k\<lparr>cr_outcome := Some None\<rparr>)
     ((if abandoned r w then w else startHeartbeat (w\<lparr>cl_reconnectAttempts := 0\<rparr>))\<lparr>cl_connectPromise := None\<rparr>)"

text \<open>
  When the reconnect timer started the run itself, its failure schedules the next attempt unless the run had been
  abandoned; when the timer only joined a pending run, every rejection of the shared promise does.
\<close>

definition run_throws :: "int \<Rightarrow> nat \<Rightarrow> string \<Rightarrow> client \<Rightarrow> client" where
  "run_throws now r e w = (let
     reauth = (cl_token w \<noteq> None \<and> cl_token w \<noteq> Some [] \<and> js_includes ''verify token'' (js_lower e));
     w = (if reauth then client_disconnect now (w\<lparr>cl_token := None, cl_server := (cl_server w)\<lparr>sessionToken := None\<rparr>\<rparr>) else w);
     e = (if reauth then REAUTHENTICATION_REQUIRED_MESSAGE else e);
     w = (if abandoned r w \<and> e \<noteq> REAUTHENTICATION_REQUIRED_MESSAGE
       then set_run r (\<lambda>k. k\<lparr>cr_outcome := Some None\<rparr>) (w\<lparr>cl_connectPromise := None\<rparr>)
       else let w = set_run r (\<lambda>k. k\<lparr>cr_outcome := Some (Some e)\<rparr>) ((setStatus ConnError (Some e) w)\<lparr>cl_connectPromise := None\<rparr>)
         in if cr_retry (cl_runs w ! r) then scheduleReconnect w else w)
   in if cr_joined (cl_runs w ! r) then scheduleReconnect w else w)"

definition pass_throws :: "platform \<Rightarrow> int \<Rightarrow> nat \<Rightarrow> string \<Rightarrow> client \<Rightarrow> client" where
  "pass_throws pf now r e w = (let k = cl_runs w ! r in
     if cr_canDowngrade k \<and> \<not> cr_second k \<and> \<not> abandoned r w then
       (let w = set_run r (\<lambda>k. k\<lparr>cr_second := True\<rparr>) (w\<lparr>cl_downgraded := True\<rparr>) in
        case try_candidates pf r True (buildSpacetimeUriCandidates pf (cr_uri k)) [] w of
          (w, None) \<Rightarrow> w | (w, Some e) \<Rightarrow> run_throws now r e w)
     else run_throws now r e w)"

definition connect_to :: "platform \<Rightarrow> int \<Rightarrow> bool \<Rightarrow> server_config \<Rightarrow> client \<Rightarrow> client" where
  "connect_to pf now retry config w = (let r = length (cl_runs w);
     canDowngrade = (\<not> pf_desktop pf \<and> \<not> cl_downgraded w \<and> pickCompression pf w);
     w = setStatus Connecting None (w\<lparr>cl_runs := cl_runs w @ [\<lparr>cr_generation = cl_generation w, cr_uri = spacetimedbUri config,
       cr_todo = [], cr_errors = [], cr_canDowngrade = canDowngrade, cr_second = False, cr_retry = retry, cr_joined = False, cr_outcome = None\<rparr>],
       cl_connectPromise := Some r\<rparr>)
   in case try_candidates pf r (\<not> canDowngrade) (buildSpacetimeUriCandidates pf (spacetimedbUri config)) [] w of
        (w, None) \<Rightarrow> w | (w, Some e) \<Rightarrow> pass_throws pf now r e w)"

text \<open>\<open>connect()\<close>; \<open>retry\<close> when the caller is the reconnect timer.\<close>

definition connect :: "platform \<Rightarrow> int \<Rightarrow> bool \<Rightarrow> client \<Rightarrow> client" where
  "connect pf now retry w = (let w = w\<lparr>cl_intentional := False\<rparr> in
     if is_active w then w
     else case cl_connectPromise w of
       Some r \<Rightarrow> if retry then set_run r (\<lambda>k. k\<lparr>cr_joined := True\<rparr>) w else w
     | None \<Rightarrow> (case sc_config (cl_server w) of
         None \<Rightarrow> if retry then scheduleReconnect w else w
       | Some config \<Rightarrow> connect_to pf now retry config w))"

text \<open>The wait of \<open>connectWithUri\<close> has been rejected or resolved.\<close>

definition candidate_rejected :: "platform \<Rightarrow> int \<Rightarrow> nat \<Rightarrow> thrown \<Rightarrow> client \<Rightarrow> client" where
  "candidate_rejected pf now c e w = (let k = cl_conns w ! c; r = sk_run k;
     w = set_conn c (\<lambda>k. k\<lparr>sk_timer := False\<rparr>) w;
     w = (if \<not> sk_appliedOnce k then teardownConnection True w else w);
     run = cl_runs w ! r; errors = cr_errors run @ [candidate_error (sk_uri k) e]
   in case try_candidates pf r (cr_second run \<or> \<not> cr_canDowngrade run) (cr_todo run) errors w of
        (w, None) \<Rightarrow> w | (w, Some e) \<Rightarrow> pass_throws pf now r e w)"

definition candidate_resolved :: "nat \<Rightarrow> client \<Rightarrow> client" where
  "candidate_resolved c w = (let k = cl_conns w ! c; r = sk_run k; uri = cr_uri (cl_runs w ! r);
     w = (if sk_uri k \<noteq> uri then (case sc_config (cl_server w) of
            Some config \<Rightarrow> if spacetimedbUri config = uri
              then w\<lparr>cl_server := setConfig (config\<lparr>spacetimedbUri := sk_uri k\<rparr>) (cl_server w)\<rparr> else w
          | None \<Rightarrow> w) else w)
   in run_returns r w)"

definition rejectIfPending :: "platform \<Rightarrow> int \<Rightarrow> nat \<Rightarrow> thrown \<Rightarrow> client \<Rightarrow> client" where
  "rejectIfPending pf now c e w = (if sk_appliedOnce (cl_conns w ! c) then w
     else candidate_rejected pf now c e (set_conn c (\<lambda>k. k\<lparr>sk_appliedOnce := True\<rparr>) w))"

section \<open>Steps\<close>

text \<open>
  \<open>SdkConnect c i t\<close> to \<open>SdkSubscriptionError c\<close> are the callbacks of connection \<open>c\<close>; \<open>SdkApplied\<close> carries what its
  cache holds then.  \<open>Timeout c\<close> is its connect timeout.  \<open>HeartbeatOk\<close> and \<open>HeartbeatFails\<close> settle the call a
  tick sent.
\<close>

datatype client_event =
    UserConnect
  | UserDisconnect
  | SdkConnect nat identity string
  | SdkDisconnect nat
  | SdkConnectError nat thrown
  | SdkApplied nat db_cache
  | SdkSubscriptionError nat
  | Timeout nat
  | RowEvent nat live_event
  | RefreshTimer "nat \<Rightarrow> db_cache"
  | HeartbeatTick
  | HeartbeatOk
  | HeartbeatFails
  | ReconnectFires

definition timed_out :: "string \<Rightarrow> thrown" where
  "timed_out uri = ThrownError (''Timed out connecting to SpacetimeDB at '' @ uri @
     ''. Ensure `spacetime start` is running and the module is published.'')"

definition connection_failed :: "string \<Rightarrow> thrown \<Rightarrow> thrown" where
  "connection_failed uri e = ThrownError (''SpacetimeDB connection failed at '' @ uri @ '' ('' @ getConnectionErrorDetails e @ '').'')"

definition onConnect :: "nat \<Rightarrow> identity \<Rightarrow> string \<Rightarrow> client \<Rightarrow> client" where
  "onConnect c i token w = (let w = set_conn c (\<lambda>k. k\<lparr>sk_active := True\<rparr>) w;
     w = on_app (\<lambda>st. st\<lparr>as_connection := setConnIdentity (Some i) (as_connection st)\<rparr>) (setStatus Connected None w)
   in w\<lparr>cl_token := Some token\<rparr>)"

definition onDisconnect :: "platform \<Rightarrow> int \<Rightarrow> nat \<Rightarrow> client \<Rightarrow> client" where
  "onDisconnect pf now c w = (let w = set_conn c (\<lambda>k. k\<lparr>sk_active := False, sk_closed := True\<rparr>) w;
     w = setStatus Disconnected None w;
     w = (if cl_connection w = Some c then teardownConnection False w else w);
     w = stopHeartbeat w;
     w = (if sk_established (cl_conns w ! c) \<and> \<not> cl_intentional w then scheduleReconnect w else w)
   in rejectIfPending pf now c (ThrownError ''Disconnected before initial data sync completed.'') w)"

definition onConnectError :: "platform \<Rightarrow> clock \<Rightarrow> nat \<Rightarrow> thrown \<Rightarrow> client \<Rightarrow> client" where
  "onConnectError pf ck c e w = (let k = cl_conns w ! c; wrapped = connection_failed (sk_uri k) e;
     w = (if sk_report k then onError ck wrapped w else w)
   in rejectIfPending pf (ck_now ck) c wrapped w)"

definition onApplied :: "platform \<Rightarrow> int \<Rightarrow> nat \<Rightarrow> db_cache \<Rightarrow> client \<Rightarrow> client" where
  "onApplied pf now c cache w = (let
     w = on_app (\<lambda>st. st\<lparr>as_connection := setSynced True (as_connection st)\<rparr>) (on_app (syncAll (pf_lc pf) now cache) w);
     w = set_conn c (\<lambda>k. k\<lparr>sk_established := True\<rparr>) (w\<lparr>cl_live := True\<rparr>)
   in if sk_appliedOnce (cl_conns w ! c) then w
      else candidate_resolved c (set_conn c (\<lambda>k. k\<lparr>sk_appliedOnce := True, sk_timer := False\<rparr>) w))"

definition onSubscriptionError :: "platform \<Rightarrow> clock \<Rightarrow> nat \<Rightarrow> client \<Rightarrow> client" where
  "onSubscriptionError pf ck c w = (let e = ThrownError ''Subscription failed'';
     w = (if sk_report (cl_conns w ! c) then onError ck e w else w)
   in rejectIfPending pf (ck_now ck) c e (set_conn c (\<lambda>k. k\<lparr>sk_timer := False\<rparr>) w))"

definition runHeartbeat :: "client \<Rightarrow> client" where
  "runHeartbeat w = (if cl_heartbeatInFlight w \<or> \<not> is_active w then w else w\<lparr>cl_heartbeatInFlight := True\<rparr>)"

definition heartbeat_fails :: "client \<Rightarrow> client" where
  "heartbeat_fails w = (case cl_connection w of None \<Rightarrow> w | Some c \<Rightarrow> set_conn c (\<lambda>k. k\<lparr>sk_closed := True\<rparr>) w)
     \<lparr>cl_heartbeatInFlight := False\<rparr>"

fun client_step :: "platform \<Rightarrow> clock \<Rightarrow> client_event \<Rightarrow> client \<Rightarrow> client" where
  "client_step pf ck UserConnect w = connect pf (ck_now ck) False w"
| "client_step pf ck UserDisconnect w = client_disconnect (ck_now ck) w"
| "client_step pf ck (SdkConnect c i t) w = onConnect c i t w"
| "client_step pf ck (SdkDisconnect c) w = onDisconnect pf (ck_now ck) c w"
| "client_step pf ck (SdkConnectError c e) w = onConnectError pf ck c e w"
| "client_step pf ck (SdkApplied c cache) w = onApplied pf (ck_now ck) c cache w"
| "client_step pf ck (SdkSubscriptionError c) w = onSubscriptionError pf ck c w"
| "client_step pf ck (Timeout c) w = rejectIfPending pf (ck_now ck) c (timed_out (sk_uri (cl_conns w ! c)))
     (set_conn c (\<lambda>k. k\<lparr>sk_timer := False\<rparr>) w)"
| "client_step pf ck (RowEvent c e) w = w\<lparr>cl_ev := watchLiveTables (cl_live w) ck c e (cl_ev w)\<rparr>"
| "client_step pf ck (RefreshTimer caches) w = w\<lparr>cl_ev := flush_timer (pf_lc pf) (ck_now ck) caches (cl_ev w)\<rparr>"
| "client_step pf ck HeartbeatTick w = runHeartbeat w"
| "client_step pf ck HeartbeatOk w = w\<lparr>cl_heartbeatInFlight := False\<rparr>"
| "client_step pf ck HeartbeatFails w = heartbeat_fails w"
| "client_step pf ck ReconnectFires w = connect pf (ck_now ck) True (w\<lparr>cl_reconnectTimer := None\<rparr>)"

text \<open>
  When an event can happen: timers fire only while they are set, a heartbeat settles only when one was sent, and
  the client library promises that a connection that has been closed delivers nothing but its \<open>onDisconnect\<close>,
  and that only once it was active or opening.
\<close>

definition open_conn :: "nat \<Rightarrow> client \<Rightarrow> bool" where
  "open_conn c w \<longleftrightarrow> c < length (cl_conns w) \<and> \<not> sk_closed (cl_conns w ! c)"

fun may_happen :: "client_event \<Rightarrow> client \<Rightarrow> bool" where
  "may_happen UserConnect w = True"
| "may_happen UserDisconnect w = True"
| "may_happen (SdkConnect c i t) w = (open_conn c w \<and> \<not> sk_active (cl_conns w ! c))"
| "may_happen (SdkDisconnect c) w = (c < length (cl_conns w))"
| "may_happen (SdkConnectError c e) w = (open_conn c w \<and> \<not> sk_active (cl_conns w ! c))"
| "may_happen (SdkApplied c cache) w = (open_conn c w \<and> sk_active (cl_conns w ! c))"
| "may_happen (SdkSubscriptionError c) w = (open_conn c w \<and> sk_active (cl_conns w ! c))"
| "may_happen (Timeout c) w = (c < length (cl_conns w) \<and> sk_timer (cl_conns w ! c))"
| "may_happen (RowEvent c e) w = (open_conn c w \<and> sk_active (cl_conns w ! c))"
| "may_happen (RefreshTimer caches) w = ev_flush (cl_ev w)"
| "may_happen HeartbeatTick w = cl_heartbeat w"
| "may_happen HeartbeatOk w = cl_heartbeatInFlight w"
| "may_happen HeartbeatFails w = cl_heartbeatInFlight w"
| "may_happen ReconnectFires w = (cl_reconnectTimer w \<noteq> None)"

definition client_init :: "int \<Rightarrow> server_config_state \<Rightarrow> string option \<Rightarrow> client" where
  "client_init now server token = \<lparr>cl_ev = \<lparr>ev_app = app_init now, ev_pending = [], ev_unreadStale = False, ev_flush = False,
       ev_notify = notify_init, ev_shown = [], ev_badge = None\<rparr>,
     cl_server = server, cl_conns = [], cl_runs = [], cl_connection = None, cl_subscription = None, cl_connectPromise = None,
     cl_live = False, cl_heartbeat = False, cl_heartbeatInFlight = False, cl_reconnectTimer = None, cl_reconnectAttempts = 0,
     cl_intentional = False, cl_generation = 0, cl_downgraded = False, cl_token = token\<rparr>"

inductive client_reach :: "platform \<Rightarrow> client \<Rightarrow> bool" for pf where
  start: "client_reach pf (client_init now server token)"
| step: "client_reach pf w \<Longrightarrow> may_happen e w \<Longrightarrow> client_reach pf (client_step pf ck e w)"

section \<open>Calls\<close>

text \<open>
  \<open>call\<close> and \<open>callProcedure\<close> after the \<open>connect()\<close> they start with when the socket is not active: \<open>known\<close> is the
  list of names the client library offers on the connection.  The result is the connection to send on.
\<close>

definition call_target :: "string \<Rightarrow> string list \<Rightarrow> string \<Rightarrow> client \<Rightarrow> string + nat" where
  "call_target kind known name w = (if \<not> is_active w then Inl ''SpacetimeDB connection is not available''
     else if name \<notin> set known then Inl (kind @ '' not found: '' @ name)
     else Inr (the (cl_connection w)))"

definition REDUCER_CALL_TIMEOUT_MS :: int where "REDUCER_CALL_TIMEOUT_MS = 15000"

text \<open>\<open>Promise.race\<close> against the timeout; \<open>reply\<close> is when the call settles and with what, if ever.\<close>

definition withCallTimeout :: "(int \<times> (string + 'a)) option \<Rightarrow> string \<Rightarrow> string + 'a" where
  "withCallTimeout reply label = (let timeout = Inl (label @ '' timed out after '' @ show_int REDUCER_CALL_TIMEOUT_MS @ ''ms'') in
     case reply of None \<Rightarrow> timeout | Some (t, r) \<Rightarrow> if t < REDUCER_CALL_TIMEOUT_MS then r else timeout)"

definition call_reducer :: "string list \<Rightarrow> string \<Rightarrow> (nat \<Rightarrow> (int \<times> (string + 'a)) option) \<Rightarrow> client \<Rightarrow> string + 'a" where
  "call_reducer known reducer reply w = (case call_target ''Reducer'' known reducer w of Inl e \<Rightarrow> Inl e
     | Inr c \<Rightarrow> withCallTimeout (reply c) (''Reducer '' @ [CHR 0x22] @ reducer @ [CHR 0x22]))"

definition callProcedure :: "string list \<Rightarrow> string \<Rightarrow> (nat \<Rightarrow> (int \<times> (string + 'a)) option) \<Rightarrow> client \<Rightarrow> string + 'a" where
  "callProcedure known procedure reply w = (case call_target ''Procedure'' known procedure w of Inl e \<Rightarrow> Inl e
     | Inr c \<Rightarrow> withCallTimeout (reply c) (''Procedure '' @ [CHR 0x22] @ procedure @ [CHR 0x22]))"

end
