(* ===== verification/ConnectionFacts.thy ===== *)
theory ConnectionFacts
  imports Connection
begin

text \<open>
  What holds of every reachable state of the connection: after a sign-out nothing opens a socket again until the
  user connects, compression is given up at most once, a dropped connection is always followed by a reconnect
  timer; and the runs of events that show where the code does less than it means to.
\<close>

section \<open>Fields the parts leave alone\<close>

lemma on_app_simps [simp]:
  "cl_conns (on_app f w) = cl_conns w" "cl_runs (on_app f w) = cl_runs w" "cl_connection (on_app f w) = cl_connection w"
  "cl_connectPromise (on_app f w) = cl_connectPromise w" "cl_live (on_app f w) = cl_live w"
  "cl_heartbeat (on_app f w) = cl_heartbeat w" "cl_heartbeatInFlight (on_app f w) = cl_heartbeatInFlight w"
  "cl_reconnectTimer (on_app f w) = cl_reconnectTimer w" "cl_reconnectAttempts (on_app f w) = cl_reconnectAttempts w"
  "cl_intentional (on_app f w) = cl_intentional w" "cl_generation (on_app f w) = cl_generation w"
  "cl_downgraded (on_app f w) = cl_downgraded w" "cl_token (on_app f w) = cl_token w" "cl_server (on_app f w) = cl_server w"
  "cl_subscription (on_app f w) = cl_subscription w"
  by (simp_all add: on_app_def)

lemma set_conn_simps [simp]:
  "cl_runs (set_conn c f w) = cl_runs w" "cl_connection (set_conn c f w) = cl_connection w"
  "cl_connectPromise (set_conn c f w) = cl_connectPromise w" "cl_live (set_conn c f w) = cl_live w"
  "cl_heartbeat (set_conn c f w) = cl_heartbeat w" "cl_heartbeatInFlight (set_conn c f w) = cl_heartbeatInFlight w"
  "cl_reconnectTimer (set_conn c f w) = cl_reconnectTimer w" "cl_reconnectAttempts (set_conn c f w) = cl_reconnectAttempts w"
  "cl_intentional (set_conn c f w) = cl_intentional w" "cl_generation (set_conn c f w) = cl_generation w"
  "cl_downgraded (set_conn c f w) = cl_downgraded w" "cl_token (set_conn c f w) = cl_token w"
  "cl_server (set_conn c f w) = cl_server w" "cl_ev (set_conn c f w) = cl_ev w"
  "length (cl_conns (set_conn c f w)) = length (cl_conns w)"
  by (simp_all add: set_conn_def)

lemma set_run_simps [simp]:
  "cl_conns (set_run c f w) = cl_conns w" "cl_connection (set_run c f w) = cl_connection w"
  "cl_connectPromise (set_run c f w) = cl_connectPromise w" "cl_live (set_run c f w) = cl_live w"
  "cl_heartbeat (set_run c f w) = cl_heartbeat w" "cl_heartbeatInFlight (set_run c f w) = cl_heartbeatInFlight w"
  "cl_reconnectTimer (set_run c f w) = cl_reconnectTimer w" "cl_reconnectAttempts (set_run c f w) = cl_reconnectAttempts w"
  "cl_intentional (set_run c f w) = cl_intentional w" "cl_generation (set_run c f w) = cl_generation w"
  "cl_downgraded (set_run c f w) = cl_downgraded w" "cl_token (set_run c f w) = cl_token w"
  "cl_server (set_run c f w) = cl_server w" "cl_ev (set_run c f w) = cl_ev w"
  "length (cl_runs (set_run c f w)) = length (cl_runs w)"
  by (simp_all add: set_run_def)

lemma nth_set_run: "c < length (cl_runs w) \<Longrightarrow> cl_runs (set_run r f w) ! c = (if c = r then f (cl_runs w ! r) else cl_runs w ! c)"
  by (simp add: set_run_def)

lemma nth_set_conn: "c < length (cl_conns w) \<Longrightarrow> cl_conns (set_conn d f w) ! c = (if c = d then f (cl_conns w ! d) else cl_conns w ! c)"
  by (simp add: set_conn_def)

lemma setStatus_simps [simp]:
  "cl_conns (setStatus s m w) = cl_conns w" "cl_runs (setStatus s m w) = cl_runs w"
  "cl_connection (setStatus s m w) = cl_connection w" "cl_connectPromise (setStatus s m w) = cl_connectPromise w"
  "cl_heartbeat (setStatus s m w) = cl_heartbeat w" "cl_heartbeatInFlight (setStatus s m w) = cl_heartbeatInFlight w"
  "cl_reconnectTimer (setStatus s m w) = cl_reconnectTimer w" "cl_intentional (setStatus s m w) = cl_intentional w"
  "cl_generation (setStatus s m w) = cl_generation w" "cl_downgraded (setStatus s m w) = cl_downgraded w"
  "cl_token (setStatus s m w) = cl_token w" "cl_server (setStatus s m w) = cl_server w"
  "cl_reconnectAttempts (setStatus s m w) = cl_reconnectAttempts w"
  by (simp_all add: setStatus_def)

lemma teardown_simps [simp]:
  "cl_runs (teardownConnection b w) = cl_runs w" "cl_connection (teardownConnection b w) = None"
  "cl_connectPromise (teardownConnection b w) = cl_connectPromise w"
  "cl_heartbeat (teardownConnection b w) = cl_heartbeat w" "cl_heartbeatInFlight (teardownConnection b w) = cl_heartbeatInFlight w"
  "cl_reconnectTimer (teardownConnection b w) = cl_reconnectTimer w" "cl_intentional (teardownConnection b w) = cl_intentional w"
  "cl_generation (teardownConnection b w) = cl_generation w" "cl_downgraded (teardownConnection b w) = cl_downgraded w"
  "cl_token (teardownConnection b w) = cl_token w" "cl_server (teardownConnection b w) = cl_server w"
  "cl_reconnectAttempts (teardownConnection b w) = cl_reconnectAttempts w"
  "length (cl_conns (teardownConnection b w)) = length (cl_conns w)" "cl_live (teardownConnection b w) = False"
  by (simp_all add: teardownConnection_def Let_def split: option.split)

lemma heartbeat_simps [simp]:
  "cl_runs (stopHeartbeat w) = cl_runs w" "cl_conns (stopHeartbeat w) = cl_conns w" "cl_connection (stopHeartbeat w) = cl_connection w"
  "cl_connectPromise (stopHeartbeat w) = cl_connectPromise w" "cl_heartbeat (stopHeartbeat w) = False"
  "cl_heartbeatInFlight (stopHeartbeat w) = False" "cl_reconnectTimer (stopHeartbeat w) = cl_reconnectTimer w"
  "cl_intentional (stopHeartbeat w) = cl_intentional w" "cl_generation (stopHeartbeat w) = cl_generation w"
  "cl_downgraded (stopHeartbeat w) = cl_downgraded w" "cl_server (stopHeartbeat w) = cl_server w" "cl_token (stopHeartbeat w) = cl_token w"
  "cl_ev (stopHeartbeat w) = cl_ev w"
  by (simp_all add: stopHeartbeat_def)

lemma schedule_simps [simp]:
  "cl_runs (scheduleReconnect w) = cl_runs w" "cl_conns (scheduleReconnect w) = cl_conns w"
  "cl_connection (scheduleReconnect w) = cl_connection w" "cl_connectPromise (scheduleReconnect w) = cl_connectPromise w"
  "cl_heartbeat (scheduleReconnect w) = cl_heartbeat w" "cl_heartbeatInFlight (scheduleReconnect w) = cl_heartbeatInFlight w"
  "cl_intentional (scheduleReconnect w) = cl_intentional w" "cl_generation (scheduleReconnect w) = cl_generation w"
  "cl_downgraded (scheduleReconnect w) = cl_downgraded w" "cl_server (scheduleReconnect w) = cl_server w"
  "cl_token (scheduleReconnect w) = cl_token w" "cl_ev (scheduleReconnect w) = cl_ev w"
  by (simp_all add: scheduleReconnect_def)

lemma onError_simps [simp]:
  "cl_conns (onError ck e w) = cl_conns w" "cl_runs (onError ck e w) = cl_runs w"
  by (simp_all add: onError_def Let_def)

section \<open>The invariant\<close>

text \<open>
  Everything a step can do to the fields below, in one relation: the lists only grow, the generation does not
  fall, and whatever starts happening belongs to a run of the current generation.
\<close>

definition wf_client :: "client \<Rightarrow> bool" where
  "wf_client w \<longleftrightarrow> (\<forall>c. cl_connection w = Some c \<longrightarrow> c < length (cl_conns w))
     \<and> (\<forall>r. cl_connectPromise w = Some r \<longrightarrow> r < length (cl_runs w))
     \<and> (\<forall>c < length (cl_conns w). sk_run (cl_conns w ! c) < length (cl_runs w))
     \<and> (\<forall>r < length (cl_runs w). cr_generation (cl_runs w ! r) \<le> cl_generation w)"

text \<open>Signed out: the state after \<open>disconnect()\<close> until the next \<open>connect()\<close>.\<close>

definition quiet :: "client \<Rightarrow> bool" where
  "quiet w \<longleftrightarrow> cl_reconnectTimer w = None \<and> \<not> cl_heartbeat w \<and> \<not> cl_heartbeatInFlight w
     \<and> (\<forall>r < length (cl_runs w). cr_generation (cl_runs w ! r) < cl_generation w)"

definition client_inv :: "client \<Rightarrow> bool" where
  "client_inv w \<longleftrightarrow> wf_client w \<and> (cl_intentional w \<longrightarrow> quiet w)"

lemma client_inv_init: "client_inv (client_init now server token)"
  by (simp add: client_inv_def wf_client_def quiet_def client_init_def)

lemma client_inv_cong:
  assumes "client_inv w" "cl_conns w' = cl_conns w" "cl_runs w' = cl_runs w" "cl_connection w' = cl_connection w"
    "cl_connectPromise w' = cl_connectPromise w" "cl_generation w' = cl_generation w" "cl_intentional w' = cl_intentional w"
    "cl_reconnectTimer w' = cl_reconnectTimer w" "cl_heartbeat w' = cl_heartbeat w"
    "cl_heartbeatInFlight w' = cl_heartbeatInFlight w"
  shows "client_inv w'"
  using assms by (simp add: client_inv_def wf_client_def quiet_def)

lemma client_inv_on_app [simp]: "client_inv (on_app f w) = client_inv w"
  by (simp add: client_inv_def wf_client_def quiet_def)

lemma client_inv_setStatus [simp]: "client_inv (setStatus s m w) = client_inv w"
  by (simp add: setStatus_def)

lemma client_inv_set_conn:
  assumes "client_inv w" and "\<And>k. sk_run (f k) = sk_run k"
  shows "client_inv (set_conn c f w)"
proof -
  have "sk_run (cl_conns (set_conn c f w) ! d) = sk_run (cl_conns w ! d)" if "d < length (cl_conns w)" for d
    using that assms(2) by (simp add: nth_set_conn)
  with assms(1) show ?thesis by (simp add: client_inv_def wf_client_def quiet_def)
qed

lemma client_inv_set_run:
  assumes "client_inv w" and "\<And>k. cr_generation (f k) = cr_generation k"
  shows "client_inv (set_run r f w)"
proof -
  have "cr_generation (cl_runs (set_run r f w) ! d) = cr_generation (cl_runs w ! d)" if "d < length (cl_runs w)" for d
    using that assms(2) by (simp add: nth_set_run)
  with assms(1) show ?thesis by (simp add: client_inv_def wf_client_def quiet_def)
qed

lemma client_inv_no_promise: "client_inv w \<Longrightarrow> client_inv (w\<lparr>cl_connectPromise := None\<rparr>)"
  by (simp add: client_inv_def wf_client_def quiet_def)

lemma client_inv_teardown: "client_inv w \<Longrightarrow> client_inv (teardownConnection b w)"
proof -
  assume i: "client_inv w"
  have "sk_run (cl_conns (teardownConnection b w) ! d) = sk_run (cl_conns w ! d)" if "d < length (cl_conns w)" for d
    using that by (auto simp: teardownConnection_def Let_def nth_set_conn split: option.split)
  with i show ?thesis by (simp add: client_inv_def wf_client_def quiet_def)
qed

lemma client_inv_heartbeat: "client_inv w \<Longrightarrow> client_inv (stopHeartbeat w)"
  by (simp add: client_inv_def wf_client_def quiet_def)

lemma client_inv_schedule: "client_inv w \<Longrightarrow> client_inv (scheduleReconnect w)"
  by (auto simp: client_inv_def wf_client_def quiet_def scheduleReconnect_def)

lemma client_inv_disconnect: "client_inv w \<Longrightarrow> client_inv (client_disconnect now w)"
proof -
  assume i: "client_inv w"
  define v where "v = (stopHeartbeat (w\<lparr>cl_intentional := True, cl_generation := Suc (cl_generation w)\<rparr>))
    \<lparr>cl_reconnectTimer := None, cl_reconnectAttempts := 0\<rparr>"
  have "client_inv v" using i by (auto simp: v_def client_inv_def wf_client_def quiet_def less_Suc_eq_le)
  then have "client_inv ((teardownConnection True v)\<lparr>cl_connectPromise := None\<rparr>)"
    by (intro client_inv_no_promise client_inv_teardown)
  then show ?thesis by (simp add: client_disconnect_def Let_def v_def[symmetric])
qed

lemma client_inv_onError: "client_inv w \<Longrightarrow> client_inv (onError ck e w)"
  by (simp add: onError_def Let_def client_inv_def wf_client_def quiet_def)

lemma client_inv_open:
  assumes "client_inv w" and "r < length (cl_runs w)"
  shows "client_inv (open_candidate pf r uri report w)"
  using assms by (auto simp: open_candidate_def Let_def client_inv_def wf_client_def quiet_def nth_append)

lemma try_candidates_inv:
  assumes "client_inv w" and "r < length (cl_runs w)" and "try_candidates pf r report todo errors w = (w', e)"
  shows "client_inv w' \<and> length (cl_runs w') = length (cl_runs w)"
  using assms
proof (induction todo arbitrary: errors w)
  case (Cons uri todo)
  show ?case
  proof (cases "abandoned r w")
    case True
    with Cons show ?thesis by simp
  next
    case False
    show ?thesis
    proof (cases "pf_build_error pf uri")
      case None
      define v where "v = set_run r (\<lambda>k. k\<lparr>cr_todo := todo, cr_errors := errors\<rparr>) w"
      have v: "client_inv v" "r < length (cl_runs v)" "length (cl_runs v) = length (cl_runs w)"
        using Cons.prems by (simp_all add: v_def client_inv_set_run)
      have "w' = open_candidate pf r uri (todo = [] \<and> report) v" using Cons.prems False None by (simp add: v_def)
      with client_inv_open[OF v(1,2)] v(3) show ?thesis by (simp add: open_candidate_def Let_def)
    next
      case (Some err)
      with False Cons.prems have "try_candidates pf r report todo (errors @ [candidate_error uri err]) (teardownConnection True w) = (w', e)"
        by simp
      from Cons.IH[OF _ _ this] Cons.prems show ?thesis by (simp add: client_inv_teardown)
    qed
  qed
qed simp

lemma try_candidates_abandoned:
  "abandoned r w \<Longrightarrow> fst (try_candidates pf r report todo errors w) = w \<and> snd (try_candidates pf r report todo errors w) \<noteq> None"
  by (cases todo) simp_all

lemma quiet_abandoned: "client_inv w \<Longrightarrow> cl_intentional w \<Longrightarrow> r < length (cl_runs w) \<Longrightarrow> abandoned r w"
  by (auto simp: client_inv_def quiet_def abandoned_def)

lemma client_inv_hearts:
  "client_inv w \<Longrightarrow> \<not> cl_intentional w \<Longrightarrow> client_inv (startHeartbeat w)"
  by (simp add: startHeartbeat_def client_inv_def wf_client_def)

lemma client_inv_attempts: "client_inv w \<Longrightarrow> client_inv (w\<lparr>cl_reconnectAttempts := n\<rparr>)"
  by (simp add: client_inv_def wf_client_def quiet_def)

lemma run_returns_inv:
  assumes "client_inv w" and "r < length (cl_runs w)"
  shows "client_inv (run_returns r w)"
proof (cases "abandoned r w")
  case True
  with assms show ?thesis by (simp add: run_returns_def client_inv_set_run client_inv_no_promise)
next
  case False
  with quiet_abandoned assms have "\<not> cl_intentional w" by blast
  with assms have "client_inv (startHeartbeat (w\<lparr>cl_reconnectAttempts := 0\<rparr>))"
    by (intro client_inv_hearts client_inv_attempts) simp_all
  with False show ?thesis by (simp add: run_returns_def client_inv_set_run client_inv_no_promise)
qed

lemma client_inv_token: "client_inv w \<Longrightarrow> client_inv (w\<lparr>cl_token := t, cl_server := s\<rparr>)"
  by (simp add: client_inv_def wf_client_def quiet_def)

lemma client_inv_server: "client_inv w \<Longrightarrow> client_inv (w\<lparr>cl_server := s\<rparr>)"
  by (simp add: client_inv_def wf_client_def quiet_def)

lemma client_inv_downgraded: "client_inv w \<Longrightarrow> client_inv (w\<lparr>cl_downgraded := s\<rparr>)"
  by (simp add: client_inv_def wf_client_def quiet_def)

lemma disconnect_simps [simp]:
  "cl_runs (client_disconnect now w) = cl_runs w" "length (cl_conns (client_disconnect now w)) = length (cl_conns w)"
  "cl_intentional (client_disconnect now w) = True" "cl_token (client_disconnect now w) = cl_token w"
  "cl_server (client_disconnect now w) = cl_server w" "cl_downgraded (client_disconnect now w) = cl_downgraded w"
  "cl_connection (client_disconnect now w) = None" "cl_connectPromise (client_disconnect now w) = None"
  by (simp_all add: client_disconnect_def Let_def)

lemma run_throws_inv:
  assumes i: "client_inv w" and r: "r < length (cl_runs w)"
  shows "client_inv (run_throws now r e w)"
proof -
  define v where "v = (if cl_token w \<noteq> None \<and> cl_token w \<noteq> Some [] \<and> js_includes ''verify token'' (js_lower e)
    then client_disconnect now (w\<lparr>cl_token := None, cl_server := (cl_server w)\<lparr>sessionToken := None\<rparr>\<rparr>) else w)"
  have v: "client_inv v" using i by (simp add: v_def client_inv_disconnect client_inv_token)
  show ?thesis
    unfolding run_throws_def Let_def v_def[symmetric]
    using v by (simp add: client_inv_schedule client_inv_set_run client_inv_no_promise)
qed

lemma pass_throws_inv:
  assumes i: "client_inv w" and r: "r < length (cl_runs w)"
  shows "client_inv (pass_throws pf now r e w)"
proof -
  define v where "v = set_run r (\<lambda>k. k\<lparr>cr_second := True\<rparr>) (w\<lparr>cl_downgraded := True\<rparr>)"
  have v: "client_inv v" "r < length (cl_runs v)" using i r by (simp_all add: v_def client_inv_set_run client_inv_downgraded)
  obtain w' e' where t: "try_candidates pf r True (buildSpacetimeUriCandidates pf (cr_uri (cl_runs w ! r))) [] v = (w', e')" by fastforce
  from try_candidates_inv[OF v t] v(2) have "client_inv w'" "r < length (cl_runs w')" by simp_all
  with i r show ?thesis
    unfolding pass_throws_def Let_def v_def[symmetric] by (simp add: t run_throws_inv split: option.split)
qed

lemma connect_to_inv:
  assumes i: "client_inv w" and n: "\<not> cl_intentional w"
  shows "client_inv (connect_to pf now retry config w)"
proof -
  obtain k b where k: "cr_generation k = cl_generation w" and
    c: "connect_to pf now retry config w = (case try_candidates pf (length (cl_runs w)) b
          (buildSpacetimeUriCandidates pf (spacetimedbUri config)) []
          (setStatus Connecting None (w\<lparr>cl_runs := cl_runs w @ [k], cl_connectPromise := Some (length (cl_runs w))\<rparr>)) of
        (w', None) \<Rightarrow> w' | (w', Some e) \<Rightarrow> pass_throws pf now (length (cl_runs w)) e w')"
    by (rule that[rotated, OF connect_to_def[unfolded Let_def]]) simp
  define v where "v = setStatus Connecting None (w\<lparr>cl_runs := cl_runs w @ [k], cl_connectPromise := Some (length (cl_runs w))\<rparr>)"
  have v: "client_inv v" "length (cl_runs w) < length (cl_runs v)"
    using i n k by (auto simp: v_def client_inv_def wf_client_def nth_append intro: less_SucI)
  obtain w' e' where t: "try_candidates pf (length (cl_runs w)) b
          (buildSpacetimeUriCandidates pf (spacetimedbUri config)) [] v = (w', e')" by fastforce
  from try_candidates_inv[OF v t] v(2) have "client_inv w'" "length (cl_runs w) < length (cl_runs w')" by simp_all
  then show ?thesis unfolding c v_def[symmetric] by (simp add: t pass_throws_inv split: option.split)
qed

lemma connect_inv: "client_inv w \<Longrightarrow> client_inv (connect pf now retry w)"
proof -
  assume i: "client_inv w"
  define v where "v = w\<lparr>cl_intentional := False\<rparr>"
  have "client_inv v" "\<not> cl_intentional v" using i by (simp_all add: v_def client_inv_def wf_client_def)
  then show ?thesis
    unfolding connect_def Let_def v_def[symmetric]
    by (auto simp: client_inv_set_run client_inv_schedule connect_to_inv split: option.split)
qed

lemma sk_run_range: "client_inv w \<Longrightarrow> c < length (cl_conns w) \<Longrightarrow> sk_run (cl_conns w ! c) < length (cl_runs w)"
  by (simp add: client_inv_def wf_client_def)

lemma candidate_rejected_inv:
  assumes i: "client_inv w" and c: "c < length (cl_conns w)"
  shows "client_inv (candidate_rejected pf now c e w)"
proof -
  define r where "r = sk_run (cl_conns w ! c)"
  define v where "v = (if \<not> sk_appliedOnce (cl_conns w ! c) then teardownConnection True (set_conn c (\<lambda>k. k\<lparr>sk_timer := False\<rparr>) w)
    else set_conn c (\<lambda>k. k\<lparr>sk_timer := False\<rparr>) w)"
  have v: "client_inv v" "r < length (cl_runs v)"
    using i sk_run_range[OF i c] by (simp_all add: v_def r_def client_inv_set_conn client_inv_teardown)
  obtain w' e' where t: "try_candidates pf r (cr_second (cl_runs v ! r) \<or> \<not> cr_canDowngrade (cl_runs v ! r)) (cr_todo (cl_runs v ! r))
      (cr_errors (cl_runs v ! r) @ [candidate_error (sk_uri (cl_conns w ! c)) e]) v = (w', e')" by fastforce
  from try_candidates_inv[OF v t] v(2) have "client_inv w'" "r < length (cl_runs w')" by simp_all
  then show ?thesis
    unfolding candidate_rejected_def Let_def r_def[symmetric] v_def[symmetric] by (simp add: t pass_throws_inv split: option.split)
qed

lemma rejectIfPending_inv:
  "client_inv w \<Longrightarrow> c < length (cl_conns w) \<Longrightarrow> client_inv (rejectIfPending pf now c e w)"
  by (simp add: rejectIfPending_def candidate_rejected_inv client_inv_set_conn)

lemma candidate_resolved_inv:
  assumes i: "client_inv w" and c: "c < length (cl_conns w)"
  shows "client_inv (candidate_resolved c w)"
  using i sk_run_range[OF i c]
  by (auto simp: candidate_resolved_def Let_def run_returns_inv client_inv_server split: option.split)

lemma step_inv:
  assumes i: "client_inv w" and m: "may_happen e w"
  shows "client_inv (client_step pf ck e w)"
proof (cases e)
  case (SdkConnect c i' t)
  have "client_inv (v\<lparr>cl_token := Some t\<rparr>) = client_inv v" for v by (simp add: client_inv_def wf_client_def quiet_def)
  with SdkConnect i show ?thesis by (simp add: onConnect_def Let_def client_inv_set_conn)
next
  case (SdkDisconnect c)
  with i m show ?thesis
    by (simp add: onDisconnect_def Let_def rejectIfPending_inv client_inv_heartbeat client_inv_teardown client_inv_set_conn client_inv_schedule)
next
  case (SdkConnectError c x)
  with i m show ?thesis
    by (simp add: onConnectError_def Let_def rejectIfPending_inv client_inv_onError open_conn_def)
next
  case (SdkApplied c cache)
  have "client_inv (v\<lparr>cl_live := True\<rparr>) = client_inv v" for v by (simp add: client_inv_def wf_client_def quiet_def)
  with SdkApplied i m show ?thesis
    by (simp add: onApplied_def Let_def open_conn_def candidate_resolved_inv client_inv_set_conn)
next
  case (SdkSubscriptionError c)
  with i m show ?thesis
    by (simp add: onSubscriptionError_def Let_def rejectIfPending_inv client_inv_onError open_conn_def client_inv_set_conn)
next
  case (Timeout c)
  with i m show ?thesis by (simp add: rejectIfPending_inv client_inv_set_conn)
next
  case (RowEvent c x)
  with i show ?thesis by (simp add: client_inv_def wf_client_def quiet_def)
next
  case (RefreshTimer cs)
  with i show ?thesis by (simp add: client_inv_def wf_client_def quiet_def)
next
  case HeartbeatTick
  with i m show ?thesis by (auto simp: runHeartbeat_def client_inv_def wf_client_def quiet_def)
next
  case HeartbeatOk
  with i show ?thesis by (auto simp: client_inv_def wf_client_def quiet_def)
next
  case HeartbeatFails
  have "client_inv (v\<lparr>cl_heartbeatInFlight := False\<rparr>)" if "client_inv v" for v
    using that by (simp add: client_inv_def wf_client_def quiet_def)
  with HeartbeatFails i show ?thesis by (simp add: heartbeat_fails_def client_inv_set_conn split: option.split)
next
  case ReconnectFires
  have "client_inv (w\<lparr>cl_reconnectTimer := None\<rparr>)" using i by (simp add: client_inv_def wf_client_def quiet_def)
  with ReconnectFires show ?thesis by (simp add: connect_inv)
qed (use i in \<open>simp_all add: connect_inv client_inv_disconnect\<close>)

lemma reach_inv: "client_reach pf w \<Longrightarrow> client_inv w"
  by (induction rule: client_reach.induct) (simp_all add: client_inv_init step_inv)

section \<open>After a sign-out\<close>

lemma quiet_run_throws:
  assumes "abandoned r w" and "cl_intentional w"
  shows "length (cl_conns (run_throws now r e w)) = length (cl_conns w) \<and> cl_intentional (run_throws now r e w)"
  using assms by (simp add: run_throws_def Let_def)

lemma quiet_pass_throws:
  assumes "abandoned r w" and "cl_intentional w"
  shows "length (cl_conns (pass_throws pf now r e w)) = length (cl_conns w) \<and> cl_intentional (pass_throws pf now r e w)"
  using assms quiet_run_throws by (simp add: pass_throws_def Let_def)

lemma quiet_candidate_rejected:
  assumes i: "client_inv w" and q: "cl_intentional w" and c: "c < length (cl_conns w)"
  shows "length (cl_conns (candidate_rejected pf now c e w)) = length (cl_conns w) \<and> cl_intentional (candidate_rejected pf now c e w)"
proof -
  define r where "r = sk_run (cl_conns w ! c)"
  define v where "v = (if \<not> sk_appliedOnce (cl_conns w ! c) then teardownConnection True (set_conn c (\<lambda>k. k\<lparr>sk_timer := False\<rparr>) w)
    else set_conn c (\<lambda>k. k\<lparr>sk_timer := False\<rparr>) w)"
  have v: "abandoned r v" "cl_intentional v" "length (cl_conns v) = length (cl_conns w)"
    using quiet_abandoned[OF i q sk_run_range[OF i c]] q by (simp_all add: v_def r_def abandoned_def)
  define errs where "errs = cr_errors (cl_runs v ! r) @ [candidate_error (sk_uri (cl_conns w ! c)) e]"
  obtain x where t: "try_candidates pf r (cr_second (cl_runs v ! r) \<or> \<not> cr_canDowngrade (cl_runs v ! r)) (cr_todo (cl_runs v ! r)) errs v
      = (v, Some x)"
    using try_candidates_abandoned[OF v(1), of pf "cr_second (cl_runs v ! r) \<or> \<not> cr_canDowngrade (cl_runs v ! r)" "cr_todo (cl_runs v ! r)" errs]
    by (metis eq_fst_iff not_Some_eq prod.sel(2))
  show ?thesis
    unfolding candidate_rejected_def Let_def r_def[symmetric] v_def[symmetric] errs_def[symmetric]
    using quiet_pass_throws[OF v(1,2)] v(3) by (simp add: t)
qed

lemma quiet_rejectIfPending:
  assumes "client_inv w" and "cl_intentional w" and "c < length (cl_conns w)"
  shows "length (cl_conns (rejectIfPending pf now c e w)) = length (cl_conns w) \<and> cl_intentional (rejectIfPending pf now c e w)"
  using assms quiet_candidate_rejected[of "set_conn c (\<lambda>k. k\<lparr>sk_appliedOnce := True\<rparr>) w" c]
  by (simp add: rejectIfPending_def client_inv_set_conn)

lemma quiet_candidate_resolved:
  assumes "client_inv w" and "cl_intentional w" and "c < length (cl_conns w)"
  shows "length (cl_conns (candidate_resolved c w)) = length (cl_conns w) \<and> cl_intentional (candidate_resolved c w)"
  using quiet_abandoned[OF assms(1,2) sk_run_range[OF assms(1,3)]] assms(2)
  by (auto simp: candidate_resolved_def run_returns_def Let_def abandoned_def split: option.split)


section \<open>What a step does to the list of connections\<close>

text \<open>
  Old connections keep their compression and, in the parts below the callbacks, whether they have applied;
  new ones have not, and are compressed only in a browser that has not given compression up.
\<close>

definition conns_grow :: "platform \<Rightarrow> client \<Rightarrow> client \<Rightarrow> bool" where
  "conns_grow pf w w' \<longleftrightarrow> length (cl_conns w) \<le> length (cl_conns w') \<and> (cl_downgraded w \<longrightarrow> cl_downgraded w')
     \<and> (\<forall>c < length (cl_conns w). sk_established (cl_conns w' ! c) = sk_established (cl_conns w ! c)
          \<and> sk_appliedOnce (cl_conns w' ! c) = sk_appliedOnce (cl_conns w ! c) \<and> sk_gzip (cl_conns w' ! c) = sk_gzip (cl_conns w ! c))
     \<and> (\<forall>c < length (cl_conns w'). length (cl_conns w) \<le> c \<longrightarrow> \<not> sk_established (cl_conns w' ! c)
          \<and> (sk_gzip (cl_conns w' ! c) \<longrightarrow> \<not> pf_desktop pf \<and> \<not> pf_compression_off pf \<and> \<not> cl_downgraded w))"

lemma grow_same: "cl_conns w' = cl_conns w \<Longrightarrow> (cl_downgraded w \<longrightarrow> cl_downgraded w') \<Longrightarrow> conns_grow pf w w'"
  by (simp add: conns_grow_def)

lemma grow_refl [simp]: "conns_grow pf w w"
  by (simp add: conns_grow_def)

lemma grow_trans: "conns_grow pf w v \<Longrightarrow> conns_grow pf v u \<Longrightarrow> conns_grow pf w u"
  unfolding conns_grow_def by (smt (verit, best) le_trans less_le_trans not_less)

lemma grow_set_conn:
  assumes "\<And>k. sk_established (f k) = sk_established k \<and> sk_appliedOnce (f k) = sk_appliedOnce k \<and> sk_gzip (f k) = sk_gzip k"
  shows "conns_grow pf w (set_conn c f w)"
  using assms by (simp add: conns_grow_def nth_set_conn)

lemma grow_teardown: "conns_grow pf w (teardownConnection b w)"
  by (auto simp: conns_grow_def teardownConnection_def Let_def nth_set_conn split: option.split)

lemma grow_disconnect: "conns_grow pf w (client_disconnect now w)"
proof -
  have "conns_grow pf w (teardownConnection True ((stopHeartbeat (w\<lparr>cl_intentional := True, cl_generation := Suc (cl_generation w)\<rparr>))
      \<lparr>cl_reconnectTimer := None, cl_reconnectAttempts := 0\<rparr>))"
    by (rule grow_trans[OF grow_same grow_teardown]) simp_all
  then show ?thesis unfolding client_disconnect_def Let_def by (rule grow_trans[OF _ grow_same]) simp_all
qed

lemma grow_open: "conns_grow pf w (open_candidate pf r uri report w)"
  by (auto simp: conns_grow_def open_candidate_def Let_def nth_append pickCompression_def less_Suc_eq split: if_splits)

lemma grow_try: "conns_grow pf w (fst (try_candidates pf r report todo errors w))"
proof (induction todo arbitrary: errors w)
  case (Cons uri todo)
  have "conns_grow pf w (open_candidate pf r uri b (set_run r f w))" for b f
    by (rule grow_trans[OF grow_same grow_open]) simp_all
  moreover have "conns_grow pf w (fst (try_candidates pf r report todo es (teardownConnection True w)))" for es
    using grow_trans[OF grow_teardown Cons.IH] .
  ultimately show ?case by (simp split: option.split)
qed simp

lemma grow_case:
  assumes "conns_grow pf w (fst t)" and "\<And>e v. conns_grow pf v (g e v)"
  shows "conns_grow pf w (case t of (w, None) \<Rightarrow> w | (w, Some e) \<Rightarrow> g e w)"
proof (cases "snd t")
  case None
  with assms(1) show ?thesis by (cases t) simp
next
  case (Some e)
  with grow_trans[OF assms(1) assms(2)[of "fst t" e]] show ?thesis by (cases t) simp
qed

lemma grow_returns: "conns_grow pf w (run_returns r w)"
  by (rule grow_same) (simp_all add: run_returns_def startHeartbeat_def)

lemma grow_throws: "conns_grow pf w (run_throws now r e w)"
proof -
  define v where "v = (if cl_token w \<noteq> None \<and> cl_token w \<noteq> Some [] \<and> js_includes ''verify token'' (js_lower e)
    then client_disconnect now (w\<lparr>cl_token := None, cl_server := (cl_server w)\<lparr>sessionToken := None\<rparr>\<rparr>) else w)"
  have "conns_grow pf w (client_disconnect now (w\<lparr>cl_token := None, cl_server := s\<rparr>))" for s
    by (rule grow_trans[OF grow_same grow_disconnect]) simp_all
  then have v: "conns_grow pf w v" by (simp add: v_def)
  show ?thesis
    unfolding run_throws_def Let_def v_def[symmetric] by (rule grow_trans[OF v grow_same]) (simp_all split: if_split)
qed

lemma grow_pass: "conns_grow pf w (pass_throws pf now r e w)"
proof -
  define v where "v = set_run r (\<lambda>k. k\<lparr>cr_second := True\<rparr>) (w\<lparr>cl_downgraded := True\<rparr>)"
  define t where "t = try_candidates pf r True (buildSpacetimeUriCandidates pf (cr_uri (cl_runs w ! r))) [] v"
  have "conns_grow pf w v" by (rule grow_same) (simp_all add: v_def)
  from grow_trans[OF this grow_try] have t: "conns_grow pf w (fst t)" unfolding t_def .
  have "conns_grow pf w (case t of (w, None) \<Rightarrow> w | (w, Some e) \<Rightarrow> run_throws now r e w)"
    by (rule grow_case[OF t grow_throws])
  then show ?thesis unfolding pass_throws_def Let_def v_def[symmetric] t_def[symmetric] by (simp add: grow_throws)
qed

lemma grow_connect: "conns_grow pf w (connect pf now retry w)"
proof -
  have "conns_grow pf w (case try_candidates pf r b cs [] v of (w, None) \<Rightarrow> w | (w, Some e) \<Rightarrow> pass_throws pf now r e w)"
    if "cl_conns v = cl_conns w" "cl_downgraded v = cl_downgraded w" for r b cs v
  proof -
    have t: "conns_grow pf w (fst (try_candidates pf r b cs [] v))"
      by (rule grow_trans[OF grow_same grow_try]) (simp_all add: that)
    show ?thesis by (rule grow_case[OF t grow_pass])
  qed
  then have "conns_grow pf w (connect_to pf now retry config (w\<lparr>cl_intentional := False\<rparr>))" for config
    unfolding connect_to_def Let_def by simp
  then show ?thesis
    unfolding connect_def Let_def by (auto simp: conns_grow_def split: option.split)
qed

lemma grow_rejected: "conns_grow pf w (candidate_rejected pf now c e w)"
proof -
  define v where "v = (if \<not> sk_appliedOnce (cl_conns w ! c) then teardownConnection True (set_conn c (\<lambda>k. k\<lparr>sk_timer := False\<rparr>) w)
    else set_conn c (\<lambda>k. k\<lparr>sk_timer := False\<rparr>) w)"
  have s: "conns_grow pf w (set_conn c (\<lambda>k. k\<lparr>sk_timer := False\<rparr>) w)" by (rule grow_set_conn) simp
  have v: "conns_grow pf w v" using s grow_trans[OF s grow_teardown] by (simp add: v_def)
  have "conns_grow pf w (case try_candidates pf r b cs es v of (w, None) \<Rightarrow> w | (w, Some e) \<Rightarrow> pass_throws pf now r e w)" for r b cs es
    by (rule grow_case[OF grow_trans[OF v grow_try] grow_pass])
  then show ?thesis unfolding candidate_rejected_def Let_def v_def[symmetric] by simp
qed

lemma grow_resolved: "conns_grow pf w (candidate_resolved c w)"
  unfolding candidate_resolved_def Let_def
  by (rule grow_trans[OF grow_same grow_returns]) (simp_all split: option.split)

text \<open>An applied connection counts as settled.\<close>

definition applied_settled :: "client \<Rightarrow> bool" where
  "applied_settled w \<longleftrightarrow> (\<forall>c < length (cl_conns w). sk_established (cl_conns w ! c) \<longrightarrow> sk_appliedOnce (cl_conns w ! c))"

lemma settled_grow: "conns_grow pf w w' \<Longrightarrow> applied_settled w \<Longrightarrow> applied_settled w'"
  unfolding conns_grow_def applied_settled_def by (metis not_less)

lemma settled_set_conn:
  assumes "applied_settled w" and "\<And>k. (sk_established k \<longrightarrow> sk_appliedOnce k) \<Longrightarrow> sk_established (f k) \<longrightarrow> sk_appliedOnce (f k)"
  shows "applied_settled (set_conn c f w)"
  using assms by (simp add: applied_settled_def nth_set_conn)

lemma settled_reject:
  assumes "applied_settled w"
  shows "applied_settled (rejectIfPending pf now c e w)"
proof (cases "sk_appliedOnce (cl_conns w ! c)")
  case False
  have "applied_settled (set_conn c (\<lambda>k. k\<lparr>sk_appliedOnce := True\<rparr>) w)" by (rule settled_set_conn[OF assms]) simp
  with False show ?thesis by (simp add: rejectIfPending_def settled_grow[OF grow_rejected])
qed (simp add: rejectIfPending_def assms)

lemma settled_same [simp]:
  "applied_settled (setStatus a b w) = applied_settled w" "applied_settled (on_app f w) = applied_settled w"
  "applied_settled (stopHeartbeat w) = applied_settled w" "applied_settled (scheduleReconnect w) = applied_settled w"
  "applied_settled (onError ck x w) = applied_settled w" "applied_settled (w\<lparr>cl_token := t\<rparr>) = applied_settled w"
  "applied_settled (w\<lparr>cl_heartbeatInFlight := h\<rparr>) = applied_settled w" "applied_settled (w\<lparr>cl_ev := ev\<rparr>) = applied_settled w"
  "applied_settled (w\<lparr>cl_reconnectTimer := rt\<rparr>) = applied_settled w"
  by (simp_all add: applied_settled_def)

lemma settled_step:
  assumes s: "applied_settled w" and m: "may_happen e w"
  shows "applied_settled (client_step pf ck e w)"
proof (cases e)
  case (SdkConnect c i t)
  have "applied_settled (set_conn c (\<lambda>k. k\<lparr>sk_active := True\<rparr>) w)" by (rule settled_set_conn[OF s]) simp
  then show ?thesis unfolding SdkConnect by (simp add: onConnect_def Let_def)
next
  case (SdkDisconnect c)
  define a where "a = set_conn c (\<lambda>k. k\<lparr>sk_active := False, sk_closed := True\<rparr>) w"
  define b where "b = (if cl_connection (setStatus Disconnected None a) = Some c then teardownConnection False (setStatus Disconnected None a)
    else setStatus Disconnected None a)"
  have a: "applied_settled a" unfolding a_def by (rule settled_set_conn[OF s]) simp
  then have "applied_settled (setStatus Disconnected None a)" by simp
  then have b: "applied_settled b" unfolding b_def by (simp add: settled_grow[OF grow_teardown])
  have "applied_settled (if sk_established (cl_conns (stopHeartbeat b) ! c) \<and> \<not> cl_intentional (stopHeartbeat b)
      then scheduleReconnect (stopHeartbeat b) else stopHeartbeat b)"
    using b by simp
  then show ?thesis unfolding SdkDisconnect client_step.simps onDisconnect_def Let_def a_def[symmetric] b_def[symmetric]
    by (rule settled_reject)
next
  case (SdkConnectError c x)
  have "applied_settled (if r then onError ck y w else w)" for r y
    using s by simp
  then show ?thesis unfolding SdkConnectError client_step.simps onConnectError_def Let_def by (rule settled_reject)
next
  case (SdkApplied c cache)
  define a where "a = (on_app (\<lambda>st. st\<lparr>as_connection := setSynced True (as_connection st)\<rparr>)
      (on_app (syncAll (pf_lc pf) (ck_now ck) cache) w))\<lparr>cl_live := True\<rparr>"
  have a: "cl_conns a = cl_conns w" by (simp add: a_def)
  have c: "c < length (cl_conns w)" using m SdkApplied by (simp add: open_conn_def)
  define b where "b = set_conn c (\<lambda>k. k\<lparr>sk_established := True\<rparr>) a"
  show ?thesis
  proof (cases "sk_appliedOnce (cl_conns w ! c)")
    case True
    have "applied_settled b"
      using s True c a by (auto simp: b_def applied_settled_def nth_set_conn)
    moreover have "sk_appliedOnce (cl_conns b ! c)" using True c a by (simp add: b_def nth_set_conn)
    ultimately show ?thesis
      unfolding SdkApplied client_step.simps onApplied_def Let_def a_def[symmetric] b_def[symmetric] by simp
  next
    case False
    have "applied_settled (set_conn c (\<lambda>k. k\<lparr>sk_appliedOnce := True, sk_timer := False\<rparr>) b)"
      using s c a by (auto simp: b_def applied_settled_def nth_set_conn)
    moreover have "\<not> sk_appliedOnce (cl_conns b ! c)" using False c a by (simp add: b_def nth_set_conn)
    ultimately show ?thesis
      unfolding SdkApplied client_step.simps onApplied_def Let_def a_def[symmetric] b_def[symmetric]
      by (simp add: settled_grow[OF grow_resolved])
  qed
next
  case (SdkSubscriptionError c)
  have "applied_settled (set_conn c (\<lambda>k. k\<lparr>sk_timer := False\<rparr>) (if r then onError ck y w else w))" for r y
    by (rule settled_set_conn) (use s in simp_all)
  then show ?thesis unfolding SdkSubscriptionError client_step.simps onSubscriptionError_def Let_def by (rule settled_reject)
next
  case (Timeout c)
  have "applied_settled (set_conn c (\<lambda>k. k\<lparr>sk_timer := False\<rparr>) w)" by (rule settled_set_conn[OF s]) simp
  with Timeout show ?thesis by (simp add: settled_reject)
next
  case HeartbeatFails
  have "applied_settled (set_conn c (\<lambda>k. k\<lparr>sk_closed := True\<rparr>) w)" for c by (rule settled_set_conn[OF s]) simp
  with s HeartbeatFails show ?thesis
    by (simp add: heartbeat_fails_def split: option.split)
next
  case ReconnectFires
  have "applied_settled (w\<lparr>cl_reconnectTimer := None\<rparr>)" using s by simp
  with ReconnectFires show ?thesis by (simp add: settled_grow[OF grow_connect])
qed (use s in \<open>simp_all add: settled_grow[OF grow_connect] settled_grow[OF grow_disconnect] runHeartbeat_def\<close>)

lemma reach_settled: "client_reach pf w \<Longrightarrow> applied_settled w"
  by (induction rule: client_reach.induct) (simp_all add: settled_step, simp add: applied_settled_def client_init_def)

text \<open>C17: A connection that had synchronised and drops without a sign-out is always followed by a reconnect: the step
  that reports the drop leaves a timer set, whose delay never exceeds thirty seconds and never falls below half
  a second, the torn-down handle is gone and no queued rebuild of its cache is left.\<close>

theorem drop_sets_reconnect_timer:
  assumes "client_reach pf w" and "c < length (cl_conns w)" and "sk_established (cl_conns w ! c)"
    and "\<not> cl_intentional w" and "cl_connection w = Some c" and "cl_reconnectTimer w = None"
  shows "let w' = client_step pf ck (SdkDisconnect c) w in
    (\<exists>ceiling. cl_reconnectTimer w' = Some ceiling \<and> 1000 \<le> ceiling \<and> ceiling \<le> 30000
      \<and> ceiling = min 30000 (1000 * 2 ^ cl_reconnectAttempts w))
    \<and> cl_connection w' = None \<and> \<not> cl_live w' \<and> ev_pending (cl_ev w') = [] \<and> \<not> cl_heartbeat w'"
proof -
  have a: "sk_appliedOnce (cl_conns w ! c)" using reach_settled[OF assms(1)] assms(2,3) by (simp add: applied_settled_def)
  define v where "v = stopHeartbeat (teardownConnection False (setStatus Disconnected None (set_conn c (\<lambda>k. k\<lparr>sk_active := False, sk_closed := True\<rparr>) w)))"
  have v: "sk_established (cl_conns v ! c)" "sk_appliedOnce (cl_conns v ! c)" "\<not> cl_intentional v" "cl_reconnectTimer v = None"
    "cl_reconnectAttempts v = cl_reconnectAttempts w" "ev_pending (cl_ev v) = []" "cl_connection v = None" "\<not> cl_live v" "\<not> cl_heartbeat v"
    using assms a by (simp_all add: v_def teardownConnection_def nth_set_conn stopHeartbeat_def cancelPendingRefreshes_def)
  have "client_step pf ck (SdkDisconnect c) w = scheduleReconnect v"
    using v assms(5) unfolding client_step.simps onDisconnect_def Let_def
    by (simp add: v_def[symmetric] rejectIfPending_def)
  moreover have "1000 \<le> reconnect_ceiling n" for n
    by (simp add: reconnect_ceiling_def RECONNECT_MAX_DELAY_MS_def RECONNECT_BASE_DELAY_MS_def)
  ultimately show ?thesis
    using v by (simp add: scheduleReconnect_def reconnect_ceiling_def RECONNECT_MAX_DELAY_MS_def RECONNECT_BASE_DELAY_MS_def Let_def)
qed

text \<open>C18: A token the server rejects ends the whole local session: when an attempt finally fails because the stored token
  does not verify, both tokens are gone, every store is reset, nobody is signed in, no timer is left, and the
  caller and the status carry the request to sign in again; never is an anonymous identity put in its place.\<close>

theorem rejected_token_ends_session:
  assumes "cl_token w = Some t" and "t \<noteq> []" and "js_includes ''verify token'' (js_lower e)" and "r < length (cl_runs w)"
  shows "let w' = run_throws now r e w in cl_token w' = None \<and> sessionToken (cl_server w') = None \<and> cl_intentional w'
    \<and> signed_in (ev_app (cl_ev w')) = None \<and> cl_reconnectTimer w' = None \<and> cl_connection w' = None
    \<and> cr_outcome (cl_runs w' ! r) = Some (Some REAUTHENTICATION_REQUIRED_MESSAGE)
    \<and> cs_status (as_connection (ev_app (cl_ev w'))) = ConnError
    \<and> cs_errorMessage (as_connection (ev_app (cl_ev w'))) = Some REAUTHENTICATION_REQUIRED_MESSAGE"
proof -
  define v where "v = client_disconnect now (w\<lparr>cl_token := None, cl_server := (cl_server w)\<lparr>sessionToken := None\<rparr>\<rparr>)"
  have v: "cl_token v = None" "sessionToken (cl_server v) = None" "cl_intentional v" "cl_reconnectTimer v = None"
    "cl_connection v = None" "cl_runs v = cl_runs w" "cs_identity (as_connection (ev_app (cl_ev v))) = None"
    by (simp_all add: v_def) (simp_all add: client_disconnect_def Let_def on_app_def resetClientState_def setSynced_def setConnIdentity_def)
  define u where "u = set_run r (\<lambda>k. k\<lparr>cr_outcome := Some (Some REAUTHENTICATION_REQUIRED_MESSAGE)\<rparr>)
    ((setStatus ConnError (Some REAUTHENTICATION_REQUIRED_MESSAGE) v)\<lparr>cl_connectPromise := None\<rparr>)"
  have s: "scheduleReconnect u = u" using v by (simp add: scheduleReconnect_def u_def)
  have "run_throws now r e w = u"
    using assms s by (simp add: run_throws_def Let_def v_def[symmetric] u_def[symmetric])
  then show ?thesis
    using v assms(4) by (simp add: Let_def u_def nth_set_run setStatus_def on_app_def setConnStatus_def signed_in_def)
qed

section \<open>Compression\<close>

definition fresh_ok :: "platform \<Rightarrow> client \<Rightarrow> client \<Rightarrow> bool" where
  "fresh_ok pf w w' \<longleftrightarrow> length (cl_conns w) \<le> length (cl_conns w') \<and> (cl_downgraded w \<longrightarrow> cl_downgraded w')
     \<and> (\<forall>c < length (cl_conns w'). length (cl_conns w) \<le> c \<longrightarrow> sk_gzip (cl_conns w' ! c)
          \<longrightarrow> \<not> pf_desktop pf \<and> \<not> pf_compression_off pf \<and> \<not> cl_downgraded w)"

lemma fresh_grow: "conns_grow pf w w' \<Longrightarrow> fresh_ok pf w w'"
  by (auto simp: fresh_ok_def conns_grow_def)

lemma fresh_before: "length (cl_conns v) = length (cl_conns w) \<Longrightarrow> cl_downgraded v = cl_downgraded w \<Longrightarrow>
    fresh_ok pf v w' \<Longrightarrow> fresh_ok pf w w'"
  by (simp add: fresh_ok_def)

lemma fresh_same: "length (cl_conns w') = length (cl_conns w) \<Longrightarrow> cl_downgraded w' = cl_downgraded w \<Longrightarrow> fresh_ok pf w w'"
  by (simp add: fresh_ok_def)

lemma fresh_reject: "fresh_ok pf w (rejectIfPending pf now c e w)"
  unfolding rejectIfPending_def using fresh_before[OF _ _ fresh_grow[OF grow_rejected]]
  by (auto simp: fresh_same)

lemma onError_downgraded [simp]: "cl_downgraded (onError ck e w) = cl_downgraded w"
  by (simp add: onError_def Let_def)

lemma fresh_step: "fresh_ok pf w (client_step pf ck e w)"
proof (cases e)
  case (SdkDisconnect c)
  show ?thesis unfolding SdkDisconnect client_step.simps onDisconnect_def Let_def
    by (rule fresh_before[OF _ _ fresh_reject]) simp_all
next
  case (SdkConnectError c x)
  show ?thesis unfolding SdkConnectError client_step.simps onConnectError_def Let_def
    by (rule fresh_before[OF _ _ fresh_reject]) simp_all
next
  case (SdkApplied c cache)
  have r: "fresh_ok pf w (candidate_resolved c v)" if "length (cl_conns v) = length (cl_conns w)" "cl_downgraded v = cl_downgraded w" for v
    by (rule fresh_before[OF that fresh_grow[OF grow_resolved]])
  show ?thesis unfolding SdkApplied client_step.simps onApplied_def Let_def
    by (simp add: r fresh_same)
next
  case (SdkSubscriptionError c)
  show ?thesis unfolding SdkSubscriptionError client_step.simps onSubscriptionError_def Let_def
    by (rule fresh_before[OF _ _ fresh_reject]) simp_all
next
  case (Timeout c)
  show ?thesis unfolding Timeout client_step.simps by (rule fresh_before[OF _ _ fresh_reject]) simp_all
next
  case ReconnectFires
  show ?thesis unfolding ReconnectFires client_step.simps by (rule fresh_before[OF _ _ fresh_grow[OF grow_connect]]) simp_all
qed (simp_all add: fresh_grow[OF grow_connect] fresh_grow[OF grow_disconnect] fresh_same onConnect_def Let_def runHeartbeat_def
    heartbeat_fails_def split: option.split)

text \<open>Compression is given up once and for good: no step opens a compressed socket on the desktop, where the build
  forbids it, or after the downgrade, and no step takes the downgrade back.\<close>

theorem compression_given_up_once:
  "let w' = client_step pf ck e w in (cl_downgraded w \<longrightarrow> cl_downgraded w')
    \<and> (pf_desktop pf \<or> pf_compression_off pf \<or> cl_downgraded w
        \<longrightarrow> (\<forall>k\<in>set (drop (length (cl_conns w)) (cl_conns w')). \<not> sk_gzip k))"
proof -
  define w' where "w' = client_step pf ck e w"
  have f: "fresh_ok pf w w'" unfolding w'_def by (rule fresh_step)
  have "\<not> sk_gzip k" if "pf_desktop pf \<or> pf_compression_off pf \<or> cl_downgraded w"
    "k \<in> set (drop (length (cl_conns w)) (cl_conns w'))" for k
  proof -
    note t = that
    obtain i where "i < length (cl_conns w') - length (cl_conns w)" "k = cl_conns w' ! (length (cl_conns w) + i)"
      using t(2) by (auto simp: in_set_conv_nth)
    with f t(1) show ?thesis by (auto simp: fresh_ok_def less_diff_conv add.commute)
  qed
  with f show ?thesis unfolding w'_def[symmetric] Let_def by (auto simp: fresh_ok_def)
qed

section \<open>Runs\<close>

definition client_run :: "platform \<Rightarrow> clock \<Rightarrow> client_event list \<Rightarrow> client \<Rightarrow> client" where
  "client_run pf ck es w = foldl (\<lambda>w e. client_step pf ck e w) w es"

fun can_run :: "platform \<Rightarrow> clock \<Rightarrow> client_event list \<Rightarrow> client \<Rightarrow> bool" where
  "can_run pf ck [] w = True"
| "can_run pf ck (e # es) w = (may_happen e w \<and> can_run pf ck es (client_step pf ck e w))"

lemma run_reach: "client_reach pf w \<Longrightarrow> can_run pf ck es w \<Longrightarrow> client_reach pf (client_run pf ck es w)"
  by (induction es arbitrary: w) (auto simp: client_run_def intro: client_reach.step)

definition demo_platform :: "bool \<Rightarrow> platform" where
  "demo_platform desktop = \<lparr>pf_url = (\<lambda>_. None), pf_set_hostname = (\<lambda>_ _. None), pf_build_error = (\<lambda>_. None),
     pf_desktop = desktop, pf_compression_off = False, pf_lc = code_unit_compare\<rparr>"

definition still_clock :: "int \<Rightarrow> clock" where
  "still_clock now = \<lparr>ck_now = now, ck_minutes = 720, ck_focused = False\<rparr>"

definition demo_client :: client where
  "demo_client = client_init 0 ((server_config_init (Some ''session''))\<lparr>sc_config := Some (sample_host ''h'')\<rparr>) None"

definition empty_cache :: db_cache where
  "empty_cache = \<lparr>my_visible_users = [], my_servers = [], my_server_members = [], discover_server_member_counts = [],
     my_join_requests = [], my_channels = [], my_channel_messages = [], my_pinned_messages = [], my_voice_participants = [],
     my_friends = [], my_blocks = [], my_direct_messages = [], my_dm_voice_participants = [], my_presence_states = [],
     my_typing_states = [], my_read_states = [], my_invites = [], my_dm_server_invites = []\<rparr>"

lemma demo_reach: "client_reach pf demo_client"
  unfolding demo_client_def by (rule client_reach.start)


theorem compression_given_up_once_witness:
  "let w = client_run (demo_platform False) (still_clock 0) [UserConnect, SdkConnectError 0 (ThrownString ''x'')] demo_client in
     cl_downgraded w \<and> cl_downgraded (client_step (demo_platform False) (still_clock 0) UserDisconnect w)"
proof -
  define w where "w = client_run (demo_platform False) (still_clock 0) [UserConnect, SdkConnectError 0 (ThrownString ''x'')] demo_client"
  have "cl_downgraded w" unfolding w_def by code_simp
  with compression_given_up_once[of "demo_platform False" "still_clock 0" UserDisconnect w] show ?thesis
    unfolding w_def[symmetric] by (simp add: Let_def)
qed

theorem rejected_token_ends_session_witness:
  "cl_token (run_throws 0 0 ''Failed to verify token'' (demo_client\<lparr>cl_token := Some ''t'',
     cl_runs := [\<lparr>cr_generation = 0, cr_uri = ''u'', cr_todo = [], cr_errors = [], cr_canDowngrade = False, cr_second = False,
       cr_retry = False, cr_joined = False, cr_outcome = None\<rparr>]\<rparr>)) = None"
proof -
  define w where "w = demo_client\<lparr>cl_token := Some ''t'',
     cl_runs := [\<lparr>cr_generation = 0, cr_uri = ''u'', cr_todo = [], cr_errors = [], cr_canDowngrade = False, cr_second = False,
       cr_retry = False, cr_joined = False, cr_outcome = None\<rparr>]\<rparr>"
  have "cl_token w = Some ''t''" "''t'' \<noteq> []" "js_includes ''verify token'' (js_lower ''Failed to verify token'')" "0 < length (cl_runs w)"
    unfolding w_def by simp_all code_simp
  from rejected_token_ends_session[OF this, of 0] show ?thesis unfolding w_def[symmetric] by (simp add: Let_def)
qed

theorem drop_sets_reconnect_timer_witness:
  "let w = client_run (demo_platform True) (still_clock 0) [UserConnect, SdkConnect 0 ''me'' ''t'', SdkApplied 0 empty_cache] demo_client in
     cl_reconnectTimer (client_step (demo_platform True) (still_clock 0) (SdkDisconnect 0) w) = Some 1000"
proof -
  define es where "es = [UserConnect, SdkConnect 0 ''me'' ''t'', SdkApplied 0 empty_cache]"
  define w where "w = client_run (demo_platform True) (still_clock 0) es demo_client"
  have "can_run (demo_platform True) (still_clock 0) es demo_client" unfolding es_def by code_simp
  from run_reach[OF demo_reach this] have r: "client_reach (demo_platform True) w" by (simp add: w_def)
  have a: "0 < length (cl_conns w)" "sk_established (cl_conns w ! 0)" "\<not> cl_intentional w" "cl_connection w = Some 0"
    "cl_reconnectTimer w = None" "cl_reconnectAttempts w = 0"
    unfolding w_def es_def by code_simp+
  show ?thesis
    using drop_sets_reconnect_timer[OF r a(1-5), of "still_clock 0"] a(6)
    unfolding w_def[symmetric, unfolded es_def] by (auto simp: Let_def)
qed

section \<open>Where the code does less than it means to\<close>

text \<open>An attempt that times out keeps its socket.  \<open>rejectIfPending\<close> marks the attempt as settled before the
  \<open>finally\<close> that closes unsettled sockets looks, so the socket is never closed; in the browser the retry without
  compression then replaces the handle, a sign-out closes only the retry, and when the server answers on the
  first socket the signed-out client has an identity, a stored token and live stores again.\<close>

theorem late_socket_signs_back_in:
  "let w = client_run (demo_platform False) (still_clock 0) [UserConnect, Timeout 0, SdkConnect 1 ''me'' ''tok'',
       SdkApplied 1 empty_cache, UserDisconnect, SdkConnect 0 ''me'' ''late'', SdkApplied 0 empty_cache] demo_client
   in client_reach (demo_platform False) w \<and> cl_intentional w \<and> cl_connection w = None
    \<and> signed_in (ev_app (cl_ev w)) = Some ''me'' \<and> cl_token w = Some ''late'' \<and> cl_live w"
proof -
  define es where "es = [UserConnect, Timeout 0, SdkConnect 1 ''me'' ''tok'', SdkApplied 1 empty_cache, UserDisconnect,
     SdkConnect 0 ''me'' ''late'', SdkApplied 0 empty_cache]"
  have "can_run (demo_platform False) (still_clock 0) es demo_client" unfolding es_def by code_simp
  from run_reach[OF demo_reach this]
  have r: "client_reach (demo_platform False) (client_run (demo_platform False) (still_clock 0) es demo_client)" .
  have "let w = client_run (demo_platform False) (still_clock 0) es demo_client
   in cl_intentional w \<and> cl_connection w = None
    \<and> signed_in (ev_app (cl_ev w)) = Some ''me'' \<and> cl_token w = Some ''late'' \<and> cl_live w" unfolding es_def by code_simp
  with r show ?thesis unfolding es_def Let_def by blast
qed

text \<open>The \<open>finally\<close> of an abandoned \<open>connect()\<close> clears the promise of its successor: when the socket of a
  signed-out attempt closes while a new attempt is under way, the next \<open>connect()\<close> does not join that attempt but
  starts another, and two attempts of the same generation are pending at once.\<close>

theorem abandoned_attempt_clears_promise:
  "let w = client_run (demo_platform True) (still_clock 0)
       [UserConnect, UserDisconnect, UserConnect, SdkDisconnect 0, UserConnect] demo_client
   in client_reach (demo_platform True) w \<and> length (cl_runs w) = 3
    \<and> cr_outcome (cl_runs w ! 1) = None \<and> cr_generation (cl_runs w ! 1) = cl_generation w \<and> open_conn 1 w
    \<and> cr_outcome (cl_runs w ! 2) = None \<and> cr_generation (cl_runs w ! 2) = cl_generation w \<and> open_conn 2 w"
proof -
  define es where "es = [UserConnect, UserDisconnect, UserConnect, SdkDisconnect 0, UserConnect]"
  have "can_run (demo_platform True) (still_clock 0) es demo_client" unfolding es_def by code_simp
  from run_reach[OF demo_reach this]
  have r: "client_reach (demo_platform True) (client_run (demo_platform True) (still_clock 0) es demo_client)" .
  have "let w = client_run (demo_platform True) (still_clock 0) es demo_client
   in length (cl_runs w) = 3
    \<and> cr_outcome (cl_runs w ! 1) = None \<and> cr_generation (cl_runs w ! 1) = cl_generation w \<and> open_conn 1 w
    \<and> cr_outcome (cl_runs w ! 2) = None \<and> cr_generation (cl_runs w ! 2) = cl_generation w \<and> open_conn 2 w" unfolding es_def by code_simp
  with r show ?thesis unfolding es_def Let_def by blast
qed

text \<open>The close of an old socket is taken for the close of the current one: \<open>onDisconnect\<close> guards only the
  teardown.  When the socket of the session one signed out of closes after the next session is up, the
  heartbeat of the new socket stops and the client shows itself disconnected; the reconnect timer it sets finds
  the new socket active and changes nothing.\<close>

theorem old_close_stops_heartbeat:
  "let w = client_run (demo_platform True) (still_clock 0) [UserConnect, SdkConnect 0 ''me'' ''t'', SdkApplied 0 empty_cache,
       UserDisconnect, UserConnect, SdkConnect 1 ''me'' ''t'', SdkApplied 1 empty_cache, SdkDisconnect 0] demo_client
   in client_reach (demo_platform True) w \<and> is_active w \<and> cl_live w \<and> \<not> cl_heartbeat w \<and> cl_reconnectTimer w \<noteq> None
    \<and> cs_status (as_connection (ev_app (cl_ev w))) = Disconnected"
proof -
  define es where "es = [UserConnect, SdkConnect 0 ''me'' ''t'', SdkApplied 0 empty_cache,
       UserDisconnect, UserConnect, SdkConnect 1 ''me'' ''t'', SdkApplied 1 empty_cache, SdkDisconnect 0]"
  have "can_run (demo_platform True) (still_clock 0) es demo_client" unfolding es_def by code_simp
  from run_reach[OF demo_reach this]
  have r: "client_reach (demo_platform True) (client_run (demo_platform True) (still_clock 0) es demo_client)" .
  have "let w = client_run (demo_platform True) (still_clock 0) es demo_client
   in is_active w \<and> cl_live w \<and> \<not> cl_heartbeat w \<and> cl_reconnectTimer w \<noteq> None
    \<and> cs_status (as_connection (ev_app (cl_ev w))) = Disconnected" unfolding es_def by code_simp
  with r show ?thesis unfolding es_def Let_def by blast
qed

end
