(* ===== verification/CallText.thy ===== *)
theory CallText
  imports KeyedStores SmallStores
begin

text \<open>
  The parts of \<open>src/lib/livekit.ts\<close> that only compute: addresses of the media server, the key of a
  direct call, the classification of errors and the texts shown for them, and the choices among
  media devices.  An error is its \<open>name\<close> and \<open>message\<close>; everything the browser and the client library throw is an
  \<open>Error\<close>.
\<close>

record js_error =
  je_name :: string
  je_message :: string

section \<open>Addresses and keys\<close>

text \<open>\<open>win\<close> is \<open>window.location\<close>: its origin and whether the page was loaded by \<open>https:\<close>.\<close>

definition normalizeLiveKitUrl :: "(string \<times> bool) option \<Rightarrow> string \<Rightarrow> string" where
  "normalizeLiveKitUrl win raw = (let trimmed = js_trim raw in
     if trimmed = [] then ''ws://127.0.0.1:7880''
     else let normalized =
       (if starts_with ''/'' trimmed then
          (case win of Some (origin, _) \<Rightarrow> origin @ trimmed | None \<Rightarrow> ''http://127.0.0.1:7880'' @ trimmed)
        else if starts_with ''//'' trimmed then
          (case win of Some (_, True) \<Rightarrow> ''https:'' @ trimmed | _ \<Rightarrow> ''http:'' @ trimmed)
        else if \<not> starts_with ''http://'' trimmed \<and> \<not> starts_with ''https://'' trimmed
            \<and> \<not> starts_with ''ws://'' trimmed \<and> \<not> starts_with ''wss://'' trimmed then ''http://'' @ trimmed
        else trimmed)
     in if starts_with ''ws://'' normalized \<or> starts_with ''wss://'' normalized then normalized
        else if starts_with ''http://'' normalized then ''ws://'' @ drop 7 normalized
        else if starts_with ''https://'' normalized then ''wss://'' @ drop 8 normalized
        else normalized)"

definition buildLiveKitUrls :: "(string \<times> bool) option \<Rightarrow> string \<Rightarrow> string list" where
  "buildLiveKitUrls win raw = [normalizeLiveKitUrl win raw]"

definition normalizeIdentityKey_call :: "string \<Rightarrow> string" where
  "normalizeIdentityKey_call s = js_lower (js_trim s)"

definition dmVoiceRoomKey :: "identity \<Rightarrow> identity \<Rightarrow> string" where
  "dmVoiceRoomKey identityA identityB = (let a = normalizeIdentityKey_call identityA; b = normalizeIdentityKey_call identityB in
     if a \<le> b then a @ '':'' @ b else b @ '':'' @ a)"

text \<open>\<open>hostname\<close> is the host of \<open>new URL(_)\<close>, \<open>None\<close> when it throws.\<close>

definition isLoopbackLivekitUrl :: "(string \<Rightarrow> string option) \<Rightarrow> string \<Rightarrow> bool" where
  "isLoopbackLivekitUrl hostname u = (case hostname u of None \<Rightarrow> False
     | Some h \<Rightarrow> h = ''127.0.0.1'' \<or> h = ''localhost'' \<or> h = ''::1'')"

definition CONNECT_TIMEOUT_MS :: nat where "CONNECT_TIMEOUT_MS = 15000"
definition CONNECT_WATCHDOG_MS :: nat where "CONNECT_WATCHDOG_MS = CONNECT_TIMEOUT_MS + 5000"

record connect_profile =
  cp_adaptiveStream :: bool
  cp_dynacast :: bool
  cp_peerConnectionTimeout :: nat
  cp_websocketTimeout :: nat
  cp_rtcConfig :: "(string list \<times> string) option"

definition connectProfileForUrl :: "(string \<Rightarrow> string option) \<Rightarrow> string \<Rightarrow> connect_profile" where
  "connectProfileForUrl hostname u = (let base = \<lparr>cp_adaptiveStream = True, cp_dynacast = True,
       cp_peerConnectionTimeout = CONNECT_TIMEOUT_MS, cp_websocketTimeout = CONNECT_TIMEOUT_MS, cp_rtcConfig = None\<rparr>
   in if \<not> isLoopbackLivekitUrl hostname u then base else base\<lparr>cp_rtcConfig := Some ([], ''all'')\<rparr>)"

section \<open>Errors\<close>

definition errorMessage :: "js_error \<Rightarrow> string" where "errorMessage e = je_message e"

definition errorName :: "js_error \<Rightarrow> string" where "errorName e = je_name e"

definition isPermissionDeniedError :: "js_error \<Rightarrow> bool" where
  "isPermissionDeniedError e = (let name = js_lower (errorName e); message = js_lower (errorMessage e) in
     name = ''notallowederror'' \<or> js_includes ''permission denied'' message
     \<or> js_includes ''permission dismissed'' message \<or> js_includes ''not allowed'' message)"

definition isCameraConstraintError :: "js_error \<Rightarrow> bool" where
  "isCameraConstraintError e = (let name = js_lower (errorName e); message = js_lower (errorMessage e) in
     name = ''overconstrainederror'' \<or> js_includes ''invalid constraint'' message \<or> js_includes ''overconstrained'' message)"

definition isCameraDeviceNotFoundError :: "js_error \<Rightarrow> bool" where
  "isCameraDeviceNotFoundError e = (let name = js_lower (errorName e); message = js_lower (errorMessage e) in
     name = ''notfounderror'' \<or> js_includes ''requested device not found'' message
     \<or> js_includes ''device not found'' message \<or> js_includes ''no device'' message)"

definition getCameraErrorMessage :: "bool \<Rightarrow> string \<Rightarrow> js_error \<Rightarrow> string" where
  "getCameraErrorMessage supported reason e =
     (if \<not> supported then reason
      else if isPermissionDeniedError e then ''Camera permission denied. Allow camera access and try again.''
      else if isCameraDeviceNotFoundError e then ''No camera device is available (or the selected camera was disconnected).''
      else if isCameraConstraintError e then
        ''Camera constraints were rejected by this runtime. Falling back to safer defaults did not succeed.''
      else if errorMessage e = [] then ''Could not toggle camera.'' else errorMessage e)"

text \<open>The test both users of a microphone error make on its message alone.\<close>

definition mic_permission_message :: "js_error \<Rightarrow> bool" where
  "mic_permission_message e = (let m = js_lower (je_message e) in
     js_includes ''notallowederror'' m \<or> js_includes ''permission denied'' m \<or> js_includes ''permission dismissed'' m)"

definition plain_error :: "string \<Rightarrow> js_error" where
  "plain_error m = \<lparr>je_name = ''Error'', je_message = m\<rparr>"

definition mapLiveKitConnectionError :: "js_error \<Rightarrow> string \<Rightarrow> js_error" where
  "mapLiveKitConnectionError e url =
     (if js_includes ''Bad Configuration Parameters'' (je_message e) then plain_error
        (''LiveKit returned invalid ICE parameters for '' @ url @ ''. Verify LiveKit config and restart the server.'')
      else if mic_permission_message e then plain_error
        ''Microphone permission is required to join voice. Please allow microphone access and try again.''
      else if js_includes ''duplicate'' (js_lower (je_message e)) \<or> js_includes ''restart participant'' (js_lower (je_message e))
        then plain_error ''This account is already in the same call from another client/session. Leave there first.''
      else if js_includes ''connect timeout'' (js_lower (je_message e)) then plain_error
        (''LiveKit connect timed out at '' @ url @ ''.'')
      else if js_includes ''pc connection'' (js_lower (je_message e)) then plain_error
        (''Could not establish the call's media connection. Signalling at '' @ url @ '' responded, but ICE failed.'')
      else e)"

definition isCallCancelled :: "js_error \<Rightarrow> bool" where
  "isCallCancelled e \<longleftrightarrow> je_name e = ''AbortError''"

definition call_cancelled :: js_error where
  "call_cancelled = \<lparr>je_name = ''AbortError'', je_message = ''Call cancelled.''\<rparr>"

section \<open>Devices\<close>

datatype device_kind = AudioInput | VideoInput | AudioOutput

record media_device =
  md_deviceId :: string
  md_kind :: device_kind
  md_label :: string

definition fallbackDeviceLabel :: "device_kind \<Rightarrow> nat \<Rightarrow> string" where
  "fallbackDeviceLabel k i = (case k of AudioInput \<Rightarrow> ''Microphone '' | AudioOutput \<Rightarrow> ''Speaker '' | VideoInput \<Rightarrow> ''Camera '')
     @ show_nat (i + 1)"

text \<open>\<open>devices\<close> is what \<open>Room.getLocalDevices\<close> resolves to, \<open>None\<close> when it rejects.\<close>

definition listLivekitDevices :: "device_kind \<Rightarrow> media_device list option \<Rightarrow> media_device list" where
  "listLivekitDevices k devices = (case devices of None \<Rightarrow> []
     | Some ds \<Rightarrow> (let usable = filter (\<lambda>d. md_deviceId d \<noteq> []) ds in
         map (\<lambda>(i, d). \<lparr>md_deviceId = md_deviceId d, md_kind = k,
             md_label = (if md_label d = [] then fallbackDeviceLabel k i else md_label d)\<rparr>)
           (enumerate 0 usable)))"

definition getPreferredVideoInputDeviceId :: "bool \<Rightarrow> media_device list option \<Rightarrow> string option" where
  "getPreferredVideoInputDeviceId supported devices = (if \<not> supported then None
     else case devices of None \<Rightarrow> None
     | Some ds \<Rightarrow> map_option md_deviceId (find (\<lambda>d. md_kind d = VideoInput \<and> md_deviceId d \<noteq> []) ds))"

definition getAvailableVideoInputDeviceIds :: "bool \<Rightarrow> media_device list option \<Rightarrow> string list" where
  "getAvailableVideoInputDeviceIds supported devices = (if \<not> supported then []
     else case devices of None \<Rightarrow> []
     | Some ds \<Rightarrow> map md_deviceId (filter (\<lambda>d. md_kind d = VideoInput \<and> md_deviceId d \<noteq> []) ds))"

lemma dmVoiceRoomKey_sym: "dmVoiceRoomKey a b = dmVoiceRoomKey b a"
  by (auto simp: dmVoiceRoomKey_def Let_def)

lemma isCallCancelled_cancelled [simp]: "isCallCancelled call_cancelled"
  by (simp add: isCallCancelled_def call_cancelled_def)

end
