(* ===== verification/Calls.thy ===== *)
theory Calls
  imports CallText ServerConfig
begin

text \<open>
  The call sessions of \<open>src/lib/livekit.ts\<close>, with \<open>src/features/voice/callReload.ts\<close> and the handlers of
  \<open>src/hooks/useVoiceLifecycle.ts\<close>.  Attempts and rooms are numbered in the order they are created.  The promise chain \<open>callWork\<close> is a queue of works
  and the place where its head waits; every \<open>await\<close> on something outside is one such place, and what
  settles it is an event.
\<close>

section \<open>State\<close>

datatype voice_target = ChannelCall u64 | DmCall identity

text \<open>\<open>String(id).toLowerCase()\<close>, with the kind.\<close>

fun target_key :: "voice_target \<Rightarrow> bool \<times> string" where
  "target_key (ChannelCall c) = (True, js_lower (show_int c))"
| "target_key (DmCall i) = (False, js_lower i)"

definition sameCall :: "voice_target \<Rightarrow> voice_target \<Rightarrow> bool" where
  "sameCall l r \<longleftrightarrow> target_key l = target_key r"

fun is_channel :: "voice_target \<Rightarrow> bool" where
  "is_channel (ChannelCall c) = True"
| "is_channel (DmCall i) = False"

datatype room_status = RoomConnecting | RoomConnected | RoomDisconnected

record call_room =
  rm_attempt :: nat
  rm_status :: room_status
  rm_pending :: bool
  rm_mic :: bool

datatype call_outcome = Joined nat | Rejected js_error

record call_attempt =
  at_target :: voice_target
  at_identity :: identity
  at_epoch :: nat
  at_muted :: bool
  at_deafened :: bool
  at_room :: "nat option"
  at_claimedPresence :: bool
  at_aborted :: bool
  at_outcome :: "call_outcome option"

record saved_call =
  sv_target :: voice_target
  sv_muted :: bool
  sv_deafened :: bool
  sv_identity :: identity
  sv_host :: string
  sv_database :: string

datatype call_work = StartWork nat "nat option" | LeaveWork nat | RetryWork

text \<open>
  Where the running work waits.  Starting: for the leave of the previous call, the address, the join, the leave of an
  older call with the rest of the loop, the token, the room, the mute report of a muted start, the microphone
  permission, the microphone, its report, the report after a failure, the leave after a failure.  The last two
  belong to the other works.
\<close>

datatype call_wait =
    WLeavePrevious nat | WUrl | WJoin | WClear nat "nat list" | WToken | WConnect nat | WSyncMuted | WMic | WMicOn
  | WSyncOn | WSyncFailed | WRelease js_error
  | WLeave | WRetry nat "nat list"

record call_world =
  cw_identity :: "identity option"
  cw_config :: "server_config option"
  cw_voice :: voice_session_state
  cw_dm :: dm_voice_session_state
  cw_voiceRows :: voice_state
  cw_dmRows :: dm_voice_state
  cw_saved :: "saved_call option"
  cw_active :: "nat option"
  cw_epoch :: nat
  cw_attempts :: "call_attempt list"
  cw_rooms :: "call_room list"
  cw_pendingLeaves :: "nat list"
  cw_toast :: bool
  cw_run :: "(call_work \<times> call_wait) option"
  cw_queue :: "call_work list"
  cw_url :: string
  cw_presence :: "(bool \<times> string) set"
  cw_swept :: bool

text \<open>\<open>rm_pending\<close>: the promise of \<open>room.connect\<close> has not settled.  \<open>cw_url\<close> is the address the running start
  found; \<open>cw_presence\<close> is what the server holds for this connection, and \<open>cw_swept\<close> whether it has swept it
  since the active call joined.\<close>

abbreviation attempt_of :: "call_world \<Rightarrow> nat \<Rightarrow> call_attempt" where
  "attempt_of w a \<equiv> cw_attempts w ! a"

definition set_attempt :: "nat \<Rightarrow> (call_attempt \<Rightarrow> call_attempt) \<Rightarrow> call_world \<Rightarrow> call_world" where
  "set_attempt a f w = w\<lparr>cw_attempts := (cw_attempts w)[a := f (cw_attempts w ! a)]\<rparr>"

definition set_room :: "nat \<Rightarrow> (call_room \<Rightarrow> call_room) \<Rightarrow> call_world \<Rightarrow> call_world" where
  "set_room r f w = w\<lparr>cw_rooms := (cw_rooms w)[r := f (cw_rooms w ! r)]\<rparr>"

text \<open>\<open>assertCurrentCall\<close> throws unless this holds.\<close>

definition current_call :: "nat \<Rightarrow> call_world \<Rightarrow> bool" where
  "current_call a w \<longleftrightarrow> cw_active w = Some a \<and> at_epoch (attempt_of w a) = cw_epoch w
     \<and> cw_identity w = Some (at_identity (attempt_of w a))"

section \<open>Stopping\<close>

definition stopRoom :: "nat \<Rightarrow> call_world \<Rightarrow> call_world" where
  "stopRoom r w = set_room r (\<lambda>k. k\<lparr>rm_status := RoomDisconnected, rm_mic := False\<rparr>) w"

definition stop_room_of :: "nat option \<Rightarrow> call_world \<Rightarrow> call_world" where
  "stop_room_of r w = (case r of None \<Rightarrow> w | Some r \<Rightarrow> stopRoom r w)"

definition clearLocalCalls :: "call_world \<Rightarrow> call_world" where
  "clearLocalCalls w = (let previous = cw_active w;
     v = vss_room (cw_voice w); d = dvs_room (cw_dm w);
     p = (case previous of None \<Rightarrow> None | Some a \<Rightarrow> at_room (attempt_of w a));
     w = (case previous of None \<Rightarrow> w | Some a \<Rightarrow> set_attempt a (\<lambda>k. k\<lparr>at_aborted := True\<rparr>) w);
     w = w\<lparr>cw_active := None, cw_voice := voice_session_reset (cw_voice w), cw_dm := dm_voice_session_reset (cw_dm w)\<rparr>
   in stop_room_of d (stop_room_of v (stop_room_of p w)))"

definition resetCallSessions :: "call_world \<Rightarrow> call_world" where
  "resetCallSessions w = (clearLocalCalls (w\<lparr>cw_saved := None, cw_epoch := cw_epoch w + 1\<rparr>))
     \<lparr>cw_pendingLeaves := [], cw_toast := False\<rparr>"

section \<open>Releasing presence\<close>

definition same_identity_and_epoch :: "nat \<Rightarrow> call_world \<Rightarrow> bool" where
  "same_identity_and_epoch x w \<longleftrightarrow> at_epoch (attempt_of w x) = cw_epoch w
     \<and> cw_identity w = Some (at_identity (attempt_of w x))"

definition newer_claim :: "nat \<Rightarrow> call_world \<Rightarrow> bool" where
  "newer_claim x w = (case cw_active w of None \<Rightarrow> False
     | Some a \<Rightarrow> a \<noteq> x \<and> at_claimedPresence (attempt_of w a) \<and> sameCall (at_target (attempt_of w a)) (at_target (attempt_of w x)))"

definition drop_pending :: "nat \<Rightarrow> call_world \<Rightarrow> call_world" where
  "drop_pending x w = (let ps = filter (\<lambda>y. y \<noteq> x) (cw_pendingLeaves w);
     w = set_attempt x (\<lambda>k. k\<lparr>at_claimedPresence := False\<rparr>) (w\<lparr>cw_pendingLeaves := ps\<rparr>)
   in if ps = [] then w\<lparr>cw_toast := False\<rparr> else w)"

text \<open>\<open>releasePresence\<close> up to its \<open>await\<close>: whether the leave is sent.\<close>

definition releasePresence :: "nat \<Rightarrow> call_world \<Rightarrow> call_world \<times> bool" where
  "releasePresence x w =
     (if \<not> at_claimedPresence (attempt_of w x) \<or> \<not> same_identity_and_epoch x w then (w, False)
      else if newer_claim x w then (drop_pending x w, False)
      else (w, True))"

text \<open>The rest of it, once the leave has settled.\<close>

definition presence_released :: "nat \<Rightarrow> bool \<Rightarrow> call_world \<Rightarrow> call_world" where
  "presence_released x succeeded w = (if succeeded then drop_pending x w
     else if \<not> same_identity_and_epoch x w then w
     else w\<lparr>cw_pendingLeaves := (if x \<in> set (cw_pendingLeaves w) then cw_pendingLeaves w else cw_pendingLeaves w @ [x]),
            cw_toast := True\<rparr>)"

text \<open>\<open>for (const x of pendingLeaves) if (wanted x) await releasePresence(x)\<close>: the set is read as the loop goes, so
  an element removed meanwhile is skipped.\<close>

fun release_each :: "(call_world \<Rightarrow> nat \<Rightarrow> bool) \<Rightarrow> nat list \<Rightarrow> call_world \<Rightarrow> call_world \<times> (nat \<times> nat list) option" where
  "release_each wanted [] w = (w, None)"
| "release_each wanted (x # xs) w =
     (if x \<in> set (cw_pendingLeaves w) \<and> wanted w x then
        (case releasePresence x w of (w, True) \<Rightarrow> (w, Some (x, xs)) | (w, False) \<Rightarrow> release_each wanted xs w)
      else release_each wanted xs w)"

section \<open>Starting a call\<close>

definition await_at :: "call_work \<Rightarrow> call_wait \<Rightarrow> call_world \<Rightarrow> call_world" where
  "await_at k p w = w\<lparr>cw_run := Some (k, p)\<rparr>"

definition work_done :: "call_world \<Rightarrow> call_world" where
  "work_done w = w\<lparr>cw_run := None\<rparr>"

definition start_rejects :: "nat \<Rightarrow> js_error \<Rightarrow> call_world \<Rightarrow> call_world" where
  "start_rejects a e w = work_done (set_attempt a (\<lambda>k. k\<lparr>at_outcome := Some (Rejected e)\<rparr>) w)"

text \<open>The \<open>catch\<close> of \<open>startCall\<close>, after its \<open>releasePresence\<close>.\<close>

definition start_failed_released :: "nat \<Rightarrow> js_error \<Rightarrow> call_world \<Rightarrow> call_world" where
  "start_failed_released a e w =
     (if \<not> current_call a w then start_rejects a call_cancelled w
      else let w = clearLocalCalls w;
        w = (if is_channel (at_target (attempt_of w a)) then w\<lparr>cw_voice := setVoiceError (Some (je_message e)) (cw_voice w)\<rparr>
             else w\<lparr>cw_dm := setDmVoiceError (Some (je_message e)) (cw_dm w)\<rparr>)
      in start_rejects a e w)"

definition start_failed :: "call_work \<Rightarrow> nat \<Rightarrow> js_error \<Rightarrow> call_world \<Rightarrow> call_world" where
  "start_failed k a e w = (case releasePresence a (stop_room_of (at_room (attempt_of w a)) w) of
     (w, True) \<Rightarrow> await_at k (WRelease e) w
   | (w, False) \<Rightarrow> start_failed_released a e w)"

definition connect_failed :: "call_work \<Rightarrow> nat \<Rightarrow> js_error \<Rightarrow> call_world \<Rightarrow> call_world" where
  "connect_failed k a e w = start_failed k a (if isCallCancelled e then e else mapLiveKitConnectionError e (cw_url w)) w"

text \<open>\<open>assertCurrentCall\<close> at the top level of \<open>connectLiveKitWithPresence\<close>.\<close>

definition if_current :: "call_work \<Rightarrow> nat \<Rightarrow> call_world \<Rightarrow> call_world \<Rightarrow> call_world" where
  "if_current k a w w' = (if current_call a w then w' else start_failed k a call_cancelled w)"

definition start_work :: "call_work \<Rightarrow> nat \<Rightarrow> call_world \<Rightarrow> call_world" where
  "start_work k a w = if_current k a w (await_at k WUrl w)"

definition request_token :: "call_work \<Rightarrow> call_world \<Rightarrow> call_world" where
  "request_token k w = await_at k WToken w"

definition wants_clear :: "nat \<Rightarrow> call_world \<Rightarrow> nat \<Rightarrow> bool" where
  "wants_clear a w x = sameCall (at_target (attempt_of w x)) (at_target (attempt_of w a))"

definition clear_pending :: "call_work \<Rightarrow> nat \<Rightarrow> nat list \<Rightarrow> call_world \<Rightarrow> call_world" where
  "clear_pending k a xs w = (case release_each (wants_clear a) xs w of
     (w, None) \<Rightarrow> request_token k w | (w, Some (x, xs)) \<Rightarrow> await_at k (WClear x xs) w)"

definition url_settled :: "(string \<times> bool) option \<Rightarrow> call_work \<Rightarrow> nat \<Rightarrow> js_error + string \<Rightarrow> call_world \<Rightarrow> call_world" where
  "url_settled win k a res w = (case res of Inl e \<Rightarrow> start_failed k a e w
     | Inr raw \<Rightarrow> (let w = w\<lparr>cw_url := hd (buildLiveKitUrls win raw)\<rparr> in if_current k a w (await_at k WJoin w)))"

text \<open>\<open>landed\<close>: the server has executed the join, whatever the caller is told.\<close>

definition join_settled :: "call_work \<Rightarrow> nat \<Rightarrow> bool \<Rightarrow> js_error option \<Rightarrow> call_world \<Rightarrow> call_world" where
  "join_settled k a landed res w =
     (let w = (if landed then w\<lparr>cw_presence := insert (target_key (at_target (attempt_of w a))) (cw_presence w),
         cw_swept := (cw_swept w \<and> cw_active w \<noteq> Some a)\<rparr> else w) in
      case res of Some e \<Rightarrow> connect_failed k a e w
      | None \<Rightarrow> (let w = set_attempt a (\<lambda>k. k\<lparr>at_claimedPresence := True\<rparr>) w
          in if_current k a w (clear_pending k a (cw_pendingLeaves w) w)))"

definition token_settled :: "call_work \<Rightarrow> nat \<Rightarrow> js_error option \<Rightarrow> call_world \<Rightarrow> call_world" where
  "token_settled k a res w = (case res of Some e \<Rightarrow> connect_failed k a e w
     | None \<Rightarrow> if_current k a w (let r = length (cw_rooms w);
         w = w\<lparr>cw_rooms := cw_rooms w @ [\<lparr>rm_attempt = a, rm_status = RoomConnecting, rm_pending = True, rm_mic = False\<rparr>]\<rparr>
       in await_at k (WConnect r) (set_attempt a (\<lambda>k. k\<lparr>at_room := Some r\<rparr>) w)))"

text \<open>The \<open>catch\<close> of \<open>connectRoomWithFallback\<close>; there is only one address to try.\<close>

definition room_failed :: "call_work \<Rightarrow> nat \<Rightarrow> nat \<Rightarrow> js_error \<Rightarrow> call_world \<Rightarrow> call_world" where
  "room_failed k a r e w = connect_failed k a e (stopRoom r w)"

definition start_succeeds :: "nat \<Rightarrow> nat \<Rightarrow> call_world \<Rightarrow> call_world" where
  "start_succeeds a r w = (let
     w = (if is_channel (at_target (attempt_of w a)) then w\<lparr>cw_voice := (cw_voice w)\<lparr>vss_room := Some r, vss_joining := False\<rparr>\<rparr>
          else w\<lparr>cw_dm := (cw_dm w)\<lparr>dvs_room := Some r, dvs_joining := False, answered := False\<rparr>\<rparr>)
   in work_done (set_attempt a (\<lambda>k. k\<lparr>at_outcome := Some (Joined r)\<rparr>) w))"

text \<open>\<open>connectLiveKitWithPresence\<close> returns the room; \<open>startCall\<close> asks once more and installs it.\<close>

definition start_finish :: "call_work \<Rightarrow> nat \<Rightarrow> call_world \<Rightarrow> call_world" where
  "start_finish k a w = if_current k a w (case at_room (attempt_of w a) of None \<Rightarrow> w | Some r \<Rightarrow> start_succeeds a r w)"

definition room_ready :: "bool \<Rightarrow> call_work \<Rightarrow> nat \<Rightarrow> call_world \<Rightarrow> call_world" where
  "room_ready micSupported k a w = if_current k a w
     (if at_muted (attempt_of w a) \<or> \<not> micSupported then await_at k WSyncMuted w else await_at k WMic w)"

definition mic_failed :: "call_work \<Rightarrow> nat \<Rightarrow> js_error \<Rightarrow> call_world \<Rightarrow> call_world" where
  "mic_failed k a e w = (if isCallCancelled e then start_failed k a e w else await_at k WSyncFailed w)"

definition mic_settled :: "call_work \<Rightarrow> nat \<Rightarrow> js_error option \<Rightarrow> call_world \<Rightarrow> call_world" where
  "mic_settled k a res w = (case res of Some e \<Rightarrow> mic_failed k a e w
     | None \<Rightarrow> if_current k a w (await_at k WMicOn w))"

definition mic_on_settled :: "call_work \<Rightarrow> nat \<Rightarrow> js_error option \<Rightarrow> call_world \<Rightarrow> call_world" where
  "mic_on_settled k a res w = (case res of Some e \<Rightarrow> mic_failed k a e w
     | None \<Rightarrow> (let w = (case at_room (attempt_of w a) of None \<Rightarrow> w | Some r \<Rightarrow> set_room r (\<lambda>k. k\<lparr>rm_mic := True\<rparr>) w)
         in if_current k a w (await_at k WSyncOn w)))"

section \<open>The queue\<close>

definition retry_pending :: "nat list \<Rightarrow> call_world \<Rightarrow> call_world" where
  "retry_pending xs w = (case release_each (\<lambda>_ _. True) xs w of
     (w, None) \<Rightarrow> work_done w | (w, Some (x, xs)) \<Rightarrow> await_at RetryWork (WRetry x xs) w)"

fun begin_work :: "call_work \<Rightarrow> call_world \<Rightarrow> call_world" where
  "begin_work (StartWork a None) w = start_work (StartWork a None) a w"
| "begin_work (StartWork a (Some p)) w = (case releasePresence p w of
     (w, True) \<Rightarrow> await_at (StartWork a (Some p)) (WLeavePrevious p) w
   | (w, False) \<Rightarrow> start_work (StartWork a (Some p)) a w)"
| "begin_work (LeaveWork x) w = (case releasePresence x w of
     (w, True) \<Rightarrow> await_at (LeaveWork x) WLeave w | (w, False) \<Rightarrow> work_done w)"
| "begin_work RetryWork w = retry_pending (cw_pendingLeaves w) w"

fun drain_with :: "call_work list \<Rightarrow> call_world \<Rightarrow> call_world" where
  "drain_with [] w = w\<lparr>cw_queue := []\<rparr>"
| "drain_with (k # ks) w = (let w = begin_work k (w\<lparr>cw_queue := ks\<rparr>) in
     if cw_run w = None then drain_with ks w else w)"

definition drain :: "call_world \<Rightarrow> call_world" where
  "drain w = (if cw_run w = None then drain_with (cw_queue w) w else w)"

definition queueCallWork :: "call_work \<Rightarrow> call_world \<Rightarrow> call_world" where
  "queueCallWork k w = drain (w\<lparr>cw_queue := cw_queue w @ [k]\<rparr>)"

section \<open>What the interface calls\<close>

definition installed_room :: "voice_target \<Rightarrow> call_world \<Rightarrow> nat option" where
  "installed_room t w = (if is_channel t then vss_room (cw_voice w) else dvs_room (cw_dm w))"

definition already_in :: "voice_target \<Rightarrow> call_world \<Rightarrow> bool" where
  "already_in t w = (case cw_active w of None \<Rightarrow> False
     | Some a \<Rightarrow> sameCall (at_target (attempt_of w a)) t \<and> installed_room t w = at_room (attempt_of w a)
         \<and> (case at_room (attempt_of w a) of None \<Rightarrow> False | Some r \<Rightarrow> rm_status (cw_rooms w ! r) = RoomConnected))"

definition startCall :: "voice_target \<Rightarrow> bool \<Rightarrow> bool \<Rightarrow> call_world \<Rightarrow> call_world" where
  "startCall t muted deafened w = (let w = w\<lparr>cw_saved := None\<rparr> in
     case cw_identity w of None \<Rightarrow> w
     | Some me \<Rightarrow> if already_in t w then w
       else let previous = cw_active w; w = clearLocalCalls w; a = length (cw_attempts w);
         w = w\<lparr>cw_attempts := cw_attempts w @ [\<lparr>at_target = t, at_identity = me, at_epoch = cw_epoch w, at_muted = muted,
               at_deafened = deafened, at_room = None, at_claimedPresence = False, at_aborted = False, at_outcome = None\<rparr>],
               cw_active := Some a\<rparr>;
         w = (case t of ChannelCall c \<Rightarrow> w\<lparr>cw_voice := (cw_voice w)\<lparr>joinedChannelId := Some c, vss_joining := True\<rparr>\<rparr>
              | DmCall i \<Rightarrow> w\<lparr>cw_dm := (cw_dm w)\<lparr>joinedPartnerIdentity := Some i, dvs_joining := True\<rparr>\<rparr>)
       in queueCallWork (StartWork a previous) w)"

text \<open>The room name a start asks a token for.\<close>

fun room_name :: "identity \<Rightarrow> voice_target \<Rightarrow> string" where
  "room_name me (ChannelCall c) = show_int c"
| "room_name me (DmCall i) = ''dm:'' @ dmVoiceRoomKey me i"

definition endCall :: "voice_target \<Rightarrow> nat option \<Rightarrow> call_world \<Rightarrow> call_world" where
  "endCall t room w = (case cw_active w of None \<Rightarrow> stop_room_of room w
     | Some a \<Rightarrow> if \<not> sameCall (at_target (attempt_of w a)) t \<or> (room \<noteq> None \<and> at_room (attempt_of w a) \<noteq> room)
         then stop_room_of room w
         else queueCallWork (LeaveWork a) (clearLocalCalls (w\<lparr>cw_saved := None\<rparr>)))"

definition retryCallCleanup :: "call_world \<Rightarrow> call_world" where
  "retryCallCleanup w = queueCallWork RetryWork w"

text \<open>\<open>assertActiveCallRoom\<close>: stops a room that is not the call's; the flag says whether it returned.\<close>

definition assertActiveCallRoom :: "nat \<Rightarrow> call_world \<Rightarrow> call_world \<times> bool" where
  "assertActiveCallRoom r w = (case cw_active w of None \<Rightarrow> (stopRoom r w, False)
     | Some a \<Rightarrow> if at_room (attempt_of w a) \<noteq> Some r then (stopRoom r w, False) else (w, current_call a w))"

section \<open>Surviving a page reload\<close>

definition self_deafened :: "nat \<Rightarrow> call_world \<Rightarrow> bool" where
  "self_deafened a w = (let me = at_identity (attempt_of w a) in
     case at_target (attempt_of w a) of
       ChannelCall c \<Rightarrow> (case map_of (participantsByChannel (cw_voiceRows w)) c of None \<Rightarrow> False
         | Some ps \<Rightarrow> (case find (\<lambda>p. normalizeIdentityKey_call (vp_userIdentity p) = normalizeIdentityKey_call me) ps of
             None \<Rightarrow> False | Some p \<Rightarrow> vp_deafened p))
     | DmCall i \<Rightarrow> (case map_of (participantsByRoom (cw_dmRows w)) (dmVoiceRoomKey me i) of None \<Rightarrow> False
         | Some ps \<Rightarrow> (case find (\<lambda>p. normalizeIdentityKey_call (dv_userIdentity p) = normalizeIdentityKey_call me) ps of
             None \<Rightarrow> False | Some p \<Rightarrow> dv_deafened p)))"

definition saveCallReload :: "voice_target \<Rightarrow> bool \<Rightarrow> bool \<Rightarrow> identity \<Rightarrow> server_config \<Rightarrow> saved_call" where
  "saveCallReload t muted deafened me config = \<lparr>sv_target = t, sv_muted = muted, sv_deafened = deafened,
     sv_identity = me, sv_host = authServiceUrl config, sv_database = spacetimedbDatabase config\<rparr>"

definition prepareCallReload :: "call_world \<Rightarrow> call_world" where
  "prepareCallReload w = (case cw_active w of None \<Rightarrow> w
     | Some a \<Rightarrow> (case at_room (attempt_of w a) of None \<Rightarrow> w
       | Some r \<Rightarrow> if rm_status (cw_rooms w ! r) = RoomDisconnected then w
         else (case cw_config w of None \<Rightarrow> w
           | Some config \<Rightarrow> if installed_room (at_target (attempt_of w a)) w \<noteq> Some r then w
             else clearLocalCalls (w\<lparr>cw_saved := Some (saveCallReload (at_target (attempt_of w a)) (\<not> rm_mic (cw_rooms w ! r))
               (self_deafened a w) (at_identity (attempt_of w a)) config)\<rparr>))))"

fun valid_target :: "voice_target \<Rightarrow> bool" where
  "valid_target (ChannelCall c) = (0 < c \<and> c \<le> 9007199254740991)"
| "valid_target (DmCall i) = (js_trim i \<noteq> [])"

definition takeCallReload :: "bool \<Rightarrow> identity \<Rightarrow> server_config \<Rightarrow> saved_call option \<Rightarrow> saved_call option" where
  "takeCallReload reloaded me config raw = (case raw of None \<Rightarrow> None
     | Some s \<Rightarrow> if \<not> reloaded then None
       else if sv_identity s \<noteq> me \<or> sv_host s \<noteq> authServiceUrl config \<or> sv_database s \<noteq> spacetimedbDatabase config then None
       else if valid_target (sv_target s) then Some s else None)"

definition restoreCallAfterReload :: "bool \<Rightarrow> call_world \<Rightarrow> call_world" where
  "restoreCallAfterReload reloaded w = (case (cw_identity w, cw_config w) of
     (Some me, Some config) \<Rightarrow> (let saved = takeCallReload reloaded me config (cw_saved w); w = w\<lparr>cw_saved := None\<rparr> in
        case saved of None \<Rightarrow> w
        | Some s \<Rightarrow> if cw_active w \<noteq> None then w else startCall (sv_target s) (sv_muted s) (sv_deafened s) w)
   | _ \<Rightarrow> w)"

section \<open>The entry points\<close>

definition joinLiveKitVoice :: "u64 \<Rightarrow> bool \<Rightarrow> bool \<Rightarrow> call_world \<Rightarrow> call_world" where
  "joinLiveKitVoice c muted deafened w = startCall (ChannelCall c) muted deafened w"

definition joinLiveKitDmVoice :: "identity \<Rightarrow> bool \<Rightarrow> bool \<Rightarrow> call_world \<Rightarrow> call_world" where
  "joinLiveKitDmVoice i muted deafened w =
     (if cw_identity w = None then w else startCall (DmCall i) muted deafened w)"

definition leaveLiveKitVoice :: "u64 \<Rightarrow> nat option \<Rightarrow> call_world \<Rightarrow> call_world" where
  "leaveLiveKitVoice c room w = endCall (ChannelCall c) room w"

definition leaveLiveKitDmVoice :: "identity \<Rightarrow> nat option \<Rightarrow> call_world \<Rightarrow> call_world" where
  "leaveLiveKitDmVoice i room w = endCall (DmCall i) room w"

section \<open>The handlers of \<open>useVoiceLifecycle\<close>\<close>

definition room_disconnected :: "nat \<Rightarrow> call_world \<Rightarrow> call_world" where
  "room_disconnected r w = (let
     w = set_room r (\<lambda>k. k\<lparr>rm_status := RoomDisconnected, rm_mic := False\<rparr>) w;
     w = (case joinedChannelId (cw_voice w) of Some c \<Rightarrow> if vss_room (cw_voice w) = Some r then leaveLiveKitVoice c (Some r) w else w
          | None \<Rightarrow> w)
   in case joinedPartnerIdentity (cw_dm w) of Some i \<Rightarrow> if dvs_room (cw_dm w) = Some r then leaveLiveKitDmVoice i (Some r) w else w
      | None \<Rightarrow> w)"

text \<open>\<open>landed\<close>: the joins it sends without waiting reach the server.\<close>

definition connection_restored :: "bool \<Rightarrow> call_world \<Rightarrow> call_world" where
  "connection_restored landed w = (let w = retryCallCleanup w;
     joins = (case joinedChannelId (cw_voice w) of Some c \<Rightarrow> if vss_room (cw_voice w) \<noteq> None then {target_key (ChannelCall c)} else {}
         | None \<Rightarrow> {})
       \<union> (case joinedPartnerIdentity (cw_dm w) of Some i \<Rightarrow> if dvs_room (cw_dm w) \<noteq> None then {target_key (DmCall i)} else {}
         | None \<Rightarrow> {})
   in if landed then w\<lparr>cw_presence := cw_presence w \<union> joins\<rparr> else w)"

section \<open>Steps\<close>

definition leave_settled :: "nat \<Rightarrow> bool \<Rightarrow> bool \<Rightarrow> call_world \<Rightarrow> call_world" where
  "leave_settled x landed succeeded w = presence_released x succeeded
     (if landed \<or> succeeded then w\<lparr>cw_presence := cw_presence w - {target_key (at_target (attempt_of w x))}\<rparr> else w)"

definition reply_error :: "js_error + string \<Rightarrow> js_error option" where
  "reply_error res = (case res of Inl e \<Rightarrow> Some e | Inr _ \<Rightarrow> None)"

text \<open>What the promise of a room does when it resolves: its \<open>then\<close>, before anything waiting for it goes on.\<close>

definition room_opened :: "nat \<Rightarrow> call_world \<Rightarrow> call_world" where
  "room_opened r w = (let w = set_room r (\<lambda>k. k\<lparr>rm_status := RoomConnected, rm_pending := False\<rparr>) w in
     if current_call (rm_attempt (cw_rooms w ! r)) w then w else stopRoom r w)"

text \<open>The reply to what the running work waits for.  \<open>landed\<close> is whether the server executed the request of a join or
  leave although the reply is an error.\<close>

fun resume :: "(string \<times> bool) option \<Rightarrow> bool \<Rightarrow> bool \<Rightarrow> js_error + string \<Rightarrow> call_work \<Rightarrow> call_wait \<Rightarrow> call_world \<Rightarrow> call_world" where
  "resume win mic landed res (StartWork a p) (WLeavePrevious x) w =
     start_work (StartWork a p) a (leave_settled x landed (\<not> isl res) w)"
| "resume win mic landed res (StartWork a p) WUrl w = url_settled win (StartWork a p) a res w"
| "resume win mic landed res (StartWork a p) WJoin w = join_settled (StartWork a p) a (landed \<or> \<not> isl res) (reply_error res) w"
| "resume win mic landed res (StartWork a p) (WClear x xs) w =
     clear_pending (StartWork a p) a xs (leave_settled x landed (\<not> isl res) w)"
| "resume win mic landed res (StartWork a p) WToken w = token_settled (StartWork a p) a (reply_error res) w"
| "resume win mic landed res (StartWork a p) (WConnect r) w = (case res of
     Inl e \<Rightarrow> room_failed (StartWork a p) a r e (set_room r (\<lambda>k. k\<lparr>rm_pending := False\<rparr>) w)
   | Inr _ \<Rightarrow> (let w = room_opened r w in
       if current_call a w then room_ready mic (StartWork a p) a w else room_failed (StartWork a p) a r call_cancelled w))"
| "resume win mic landed res (StartWork a p) WSyncMuted w = start_finish (StartWork a p) a w"
| "resume win mic landed res (StartWork a p) WMic w = mic_settled (StartWork a p) a (reply_error res) w"
| "resume win mic landed res (StartWork a p) WMicOn w = mic_on_settled (StartWork a p) a (reply_error res) w"
| "resume win mic landed res (StartWork a p) WSyncOn w = start_finish (StartWork a p) a w"
| "resume win mic landed res (StartWork a p) WSyncFailed w = start_finish (StartWork a p) a w"
| "resume win mic landed res (StartWork a p) (WRelease e) w = start_failed_released a e (leave_settled a landed (\<not> isl res) w)"
| "resume win mic landed res (LeaveWork x) WLeave w = work_done (leave_settled x landed (\<not> isl res) w)"
| "resume win mic landed res RetryWork (WRetry x xs) w = retry_pending xs (leave_settled x landed (\<not> isl res) w)"
| "resume win mic landed res k p w = w"

text \<open>\<open>waitForCallStep\<close>: the waits a cancellation ends.\<close>

fun cancellable :: "call_wait \<Rightarrow> bool" where
  "cancellable WUrl = True" | "cancellable WToken = True" | "cancellable (WConnect r) = True" | "cancellable WMic = True"
| "cancellable p = False"

fun wait_cancelled :: "call_work \<Rightarrow> call_wait \<Rightarrow> call_world \<Rightarrow> call_world" where
  "wait_cancelled (StartWork a p) WUrl w = start_failed (StartWork a p) a call_cancelled w"
| "wait_cancelled (StartWork a p) WToken w = connect_failed (StartWork a p) a call_cancelled w"
| "wait_cancelled (StartWork a p) (WConnect r) w = room_failed (StartWork a p) a r call_cancelled w"
| "wait_cancelled (StartWork a p) WMic w = mic_failed (StartWork a p) a call_cancelled w"
| "wait_cancelled k p w = w"

definition connect_timeout :: js_error where
  "connect_timeout = plain_error (''LiveKit connect timeout after '' @ show_nat CONNECT_WATCHDOG_MS @ ''ms'')"

text \<open>
  \<open>Settles\<close> is the reply to the running work, \<open>CancelDelivered\<close> the rejection of \<open>waitForCallStep\<close>, \<open>WatchdogFires\<close> the
  guard of a connecting room, \<open>RoomOpensLate\<close> a room nobody waits for any more.  \<open>SocketLost\<close> and \<open>SocketBack\<close> are the
  database connection going away, whose rows the server sweeps, and coming back.
\<close>

datatype call_event =
    UserJoins voice_target bool bool
  | UserLeaves voice_target "nat option"
  | SignsOut
  | SignsIn identity
  | RetryCleanup
  | MediaControl nat
  | PageUnloads
  | PageRestores bool
  | RowsChange voice_state dm_voice_state
  | RoomDrops nat
  | RoomOpensLate nat
  | SocketLost
  | SocketBack bool
  | Settles bool "js_error + string"
  | CancelDelivered
  | WatchdogFires

definition settle_run :: "(call_work \<Rightarrow> call_wait \<Rightarrow> call_world \<Rightarrow> call_world) \<Rightarrow> call_world \<Rightarrow> call_world" where
  "settle_run f w = (case cw_run w of None \<Rightarrow> w | Some (k, p) \<Rightarrow> drain (f k p w))"

fun watchdog :: "call_work \<Rightarrow> call_wait \<Rightarrow> call_world \<Rightarrow> call_world" where
  "watchdog (StartWork a p) (WConnect r) w = room_failed (StartWork a p) a r connect_timeout w"
| "watchdog k p w = w"

fun call_step :: "(string \<times> bool) option \<Rightarrow> bool \<Rightarrow> call_event \<Rightarrow> call_world \<Rightarrow> call_world" where
  "call_step win mic (UserJoins t muted deafened) w = (case t of
     ChannelCall c \<Rightarrow> joinLiveKitVoice c muted deafened w | DmCall i \<Rightarrow> joinLiveKitDmVoice i muted deafened w)"
| "call_step win mic (UserLeaves t room) w = (case t of
     ChannelCall c \<Rightarrow> leaveLiveKitVoice c room w | DmCall i \<Rightarrow> leaveLiveKitDmVoice i room w)"
| "call_step win mic SignsOut w = (resetCallSessions w)\<lparr>cw_identity := None\<rparr>"
| "call_step win mic (SignsIn i) w = w\<lparr>cw_identity := Some i\<rparr>"
| "call_step win mic RetryCleanup w = retryCallCleanup w"
| "call_step win mic (MediaControl r) w = fst (assertActiveCallRoom r w)"
| "call_step win mic PageUnloads w = prepareCallReload w"
| "call_step win mic (PageRestores reloaded) w = restoreCallAfterReload reloaded w"
| "call_step win mic (RowsChange v d) w = w\<lparr>cw_voiceRows := v, cw_dmRows := d\<rparr>"
| "call_step win mic (RoomDrops r) w = room_disconnected r w"
| "call_step win mic (RoomOpensLate r) w = room_opened r w"
| "call_step win mic SocketLost w = w\<lparr>cw_presence := {}, cw_swept := True\<rparr>"
| "call_step win mic (SocketBack landed) w = connection_restored landed w"
| "call_step win mic (Settles landed res) w = settle_run (resume win mic landed res) w"
| "call_step win mic CancelDelivered w = settle_run wait_cancelled w"
| "call_step win mic WatchdogFires w = settle_run watchdog w"

text \<open>When an event can happen.\<close>

fun call_may :: "call_event \<Rightarrow> call_world \<Rightarrow> bool" where
  "call_may (MediaControl r) w = (r < length (cw_rooms w))"
| "call_may (UserLeaves t room) w = (case room of None \<Rightarrow> True | Some r \<Rightarrow> r < length (cw_rooms w))"
| "call_may (RoomDrops r) w = (r < length (cw_rooms w) \<and> rm_status (cw_rooms w ! r) = RoomConnected)"
| "call_may (RoomOpensLate r) w = (r < length (cw_rooms w) \<and> rm_pending (cw_rooms w ! r)
     \<and> (case cw_run w of Some (_, WConnect r') \<Rightarrow> r' \<noteq> r | _ \<Rightarrow> True))"
| "call_may (Settles landed res) w = (case cw_run w of None \<Rightarrow> False
     | Some (_, WConnect r) \<Rightarrow> rm_pending (cw_rooms w ! r) | Some _ \<Rightarrow> True)"
| "call_may CancelDelivered w = (case cw_run w of Some (StartWork a _, p) \<Rightarrow> cancellable p \<and> at_aborted (attempt_of w a) | _ \<Rightarrow> False)"
| "call_may WatchdogFires w = (case cw_run w of Some (_, WConnect r) \<Rightarrow> True | _ \<Rightarrow> False)"
| "call_may e w = True"

definition call_init :: "identity option \<Rightarrow> server_config option \<Rightarrow> saved_call option \<Rightarrow> call_world" where
  "call_init me config saved = \<lparr>cw_identity = me, cw_config = config, cw_voice = voice_session_init, cw_dm = dm_voice_session_init,
     cw_voiceRows = \<lparr>participantsByChannel = [], vs_activeChannelId = None, vs_localTracks = []\<rparr>,
     cw_dmRows = \<lparr>participantsByRoom = []\<rparr>, cw_saved = saved, cw_active = None, cw_epoch = 0, cw_attempts = [], cw_rooms = [],
     cw_pendingLeaves = [], cw_toast = False, cw_run = None, cw_queue = [], cw_url = [], cw_presence = {}, cw_swept = False\<rparr>"

inductive call_reach :: "call_world \<Rightarrow> bool" where
  start: "call_reach (call_init me config saved)"
| step: "call_reach w \<Longrightarrow> call_may e w \<Longrightarrow> call_reach (call_step win mic e w)"

end
