(* ===== verification/CallFacts.thy ===== *)
theory CallFacts
  imports Calls
begin

text \<open>
  What the call sessions of \<open>Calls\<close> keep true: rooms and devices belong to the active call, the presence of a joined call
  is never taken back by the clean-up of an older one, and the queue of works always empties.
\<close>

named_theorems call_simps

section \<open>Updates\<close>

lemma set_attempt_simps [simp]:
  "cw_identity (set_attempt a f w) = cw_identity w" "cw_config (set_attempt a f w) = cw_config w"
  "cw_voice (set_attempt a f w) = cw_voice w" "cw_dm (set_attempt a f w) = cw_dm w"
  "cw_active (set_attempt a f w) = cw_active w" "cw_epoch (set_attempt a f w) = cw_epoch w"
  "length (cw_attempts (set_attempt a f w)) = length (cw_attempts w)" "cw_rooms (set_attempt a f w) = cw_rooms w"
  "cw_pendingLeaves (set_attempt a f w) = cw_pendingLeaves w" "cw_run (set_attempt a f w) = cw_run w"
  "cw_queue (set_attempt a f w) = cw_queue w" "cw_presence (set_attempt a f w) = cw_presence w"
  "cw_swept (set_attempt a f w) = cw_swept w"
  by (simp_all add: set_attempt_def)

lemma nth_set_attempt:
  "b < length (cw_attempts w) \<Longrightarrow> cw_attempts (set_attempt a f w) ! b = (if a = b then f (cw_attempts w ! b) else cw_attempts w ! b)"
  by (simp add: set_attempt_def)

lemma set_room_simps [simp]:
  "cw_identity (set_room r f w) = cw_identity w" "cw_config (set_room r f w) = cw_config w"
  "cw_voice (set_room r f w) = cw_voice w" "cw_dm (set_room r f w) = cw_dm w"
  "cw_active (set_room r f w) = cw_active w" "cw_epoch (set_room r f w) = cw_epoch w"
  "cw_attempts (set_room r f w) = cw_attempts w" "length (cw_rooms (set_room r f w)) = length (cw_rooms w)"
  "cw_pendingLeaves (set_room r f w) = cw_pendingLeaves w" "cw_run (set_room r f w) = cw_run w"
  "cw_queue (set_room r f w) = cw_queue w" "cw_presence (set_room r f w) = cw_presence w"
  "cw_swept (set_room r f w) = cw_swept w"
  by (simp_all add: set_room_def)

lemma nth_set_room:
  "q < length (cw_rooms w) \<Longrightarrow> cw_rooms (set_room r f w) ! q = (if r = q then f (cw_rooms w ! q) else cw_rooms w ! q)"
  by (simp add: set_room_def)

lemma stop_room_simps [simp]:
  "cw_identity (stop_room_of r w) = cw_identity w" "cw_voice (stop_room_of r w) = cw_voice w" "cw_dm (stop_room_of r w) = cw_dm w"
  "cw_active (stop_room_of r w) = cw_active w" "cw_epoch (stop_room_of r w) = cw_epoch w"
  "cw_attempts (stop_room_of r w) = cw_attempts w" "length (cw_rooms (stop_room_of r w)) = length (cw_rooms w)"
  "cw_pendingLeaves (stop_room_of r w) = cw_pendingLeaves w" "cw_run (stop_room_of r w) = cw_run w"
  "cw_queue (stop_room_of r w) = cw_queue w" "cw_presence (stop_room_of r w) = cw_presence w" "cw_swept (stop_room_of r w) = cw_swept w"
  by (simp_all add: stop_room_of_def stopRoom_def split: option.split)

definition audible :: "call_room \<Rightarrow> bool" where
  "audible k \<longleftrightarrow> rm_status k = RoomConnected \<or> rm_mic k"

lemma nth_stop_room:
  "q < length (cw_rooms w) \<Longrightarrow> rm_attempt (cw_rooms (stop_room_of r w) ! q) = rm_attempt (cw_rooms w ! q)"
  "q < length (cw_rooms w) \<Longrightarrow> audible (cw_rooms (stop_room_of r w) ! q) \<longleftrightarrow> audible (cw_rooms w ! q) \<and> r \<noteq> Some q"
  by (auto simp: stop_room_of_def stopRoom_def nth_set_room audible_def split: option.split)

lemma stopRoom_of: "stopRoom r w = stop_room_of (Some r) w"
  by (simp add: stop_room_of_def)

lemma current_call_same [simp]:
  "current_call a (set_room r f w) = current_call a w" "current_call a (stop_room_of q w) = current_call a w"
  by (simp_all add: current_call_def)

section \<open>The invariant\<close>

definition starts :: "call_work list \<Rightarrow> nat list" where
  "starts ks = concat (map (\<lambda>k. case k of StartWork a _ \<Rightarrow> [a] | _ \<Rightarrow> []) ks)"

lemma starts_simps [simp]:
  "starts [] = []" "starts (StartWork a p # ks) = a # starts ks" "starts (LeaveWork x # ks) = starts ks"
  "starts (RetryWork # ks) = starts ks" "starts (ks @ ls) = starts ks @ starts ls"
  by (simp_all add: starts_def)

fun leaves :: "call_work \<Rightarrow> nat option" where
  "leaves (StartWork a p) = p" | "leaves (LeaveWork x) = Some x" | "leaves RetryWork = None"

text \<open>\<open>running\<close> is the work that is under way, as a list of at most one.\<close>

definition rooms_ok :: "call_world \<Rightarrow> bool" where
  "rooms_ok w \<longleftrightarrow> (\<forall>r < length (cw_rooms w). rm_attempt (cw_rooms w ! r) < length (cw_attempts w)
       \<and> at_room (attempt_of w (rm_attempt (cw_rooms w ! r))) = Some r
       \<and> (audible (cw_rooms w ! r) \<longrightarrow> cw_active w = Some (rm_attempt (cw_rooms w ! r))))
     \<and> (\<forall>a < length (cw_attempts w). \<forall>r. at_room (attempt_of w a) = Some r \<longrightarrow> r < length (cw_rooms w) \<and> rm_attempt (cw_rooms w ! r) = a)"

definition stores_ok :: "call_world \<Rightarrow> bool" where
  "stores_ok w \<longleftrightarrow> (\<forall>r. vss_room (cw_voice w) = Some r \<longrightarrow> (\<exists>a. cw_active w = Some a \<and> at_room (attempt_of w a) = Some r \<and> is_channel (at_target (attempt_of w a))))
     \<and> (\<forall>r. dvs_room (cw_dm w) = Some r \<longrightarrow> (\<exists>a. cw_active w = Some a \<and> at_room (attempt_of w a) = Some r \<and> \<not> is_channel (at_target (attempt_of w a))))"

definition works_ok :: "call_work list \<Rightarrow> call_world \<Rightarrow> bool" where
  "works_ok running w \<longleftrightarrow> distinct (starts (running @ cw_queue w))
     \<and> (\<forall>a\<in>set (starts (running @ cw_queue w)). a < length (cw_attempts w) \<and> at_outcome (attempt_of w a) = None)
     \<and> (\<forall>a\<in>set (starts (cw_queue w)). at_room (attempt_of w a) = None \<and> \<not> at_claimedPresence (attempt_of w a))
     \<and> (\<forall>k\<in>set (running @ cw_queue w). \<forall>x. leaves k = Some x \<longrightarrow> x < length (cw_attempts w) \<and> cw_active w \<noteq> Some x)
     \<and> (\<forall>a. cw_active w = Some a \<longrightarrow> a < length (cw_attempts w))"

text \<open>\<open>ex\<close> is the attempt whose own failed start is being released.\<close>

definition pending_ok :: "nat option \<Rightarrow> call_world \<Rightarrow> bool" where
  "pending_ok ex w \<longleftrightarrow> distinct (cw_pendingLeaves w) \<and> (\<forall>x\<in>set (cw_pendingLeaves w). x < length (cw_attempts w)
     \<and> (cw_active w = Some x \<longrightarrow> ex = Some x \<and> current_call x w))"

definition present :: "nat \<Rightarrow> call_world \<Rightarrow> bool" where
  "present a w \<longleftrightarrow> target_key (at_target (attempt_of w a)) \<in> cw_presence w"

fun refused :: "call_outcome option \<Rightarrow> bool" where
  "refused (Some (Rejected e)) = True" | "refused _ = False"

definition presence_ok :: "nat option \<Rightarrow> call_world \<Rightarrow> bool" where
  "presence_ok ex w \<longleftrightarrow> (\<forall>a. cw_active w = Some a \<and> at_claimedPresence (attempt_of w a) \<and> ex \<noteq> Some a
     \<and> \<not> refused (at_outcome (attempt_of w a)) \<and> \<not> cw_swept w \<longrightarrow> present a w)"

definition core :: "call_work list \<Rightarrow> nat option \<Rightarrow> call_world \<Rightarrow> bool" where
  "core running ex w \<longleftrightarrow> rooms_ok w \<and> stores_ok w \<and> works_ok running w \<and> pending_ok ex w \<and> presence_ok ex w"

text \<open>A leave of \<open>x\<close> under way does not concern the presence of the active call.\<close>

definition harmless :: "nat \<Rightarrow> call_world \<Rightarrow> bool" where
  "harmless x w \<longleftrightarrow> x < length (cw_attempts w)
     \<and> (\<forall>a. cw_active w = Some a \<and> a \<noteq> x \<and> at_claimedPresence (attempt_of w a) \<longrightarrow> \<not> sameCall (at_target (attempt_of w a)) (at_target (attempt_of w x)))"

fun wait_ok :: "call_work \<Rightarrow> call_wait \<Rightarrow> call_world \<Rightarrow> bool" where
  "wait_ok (StartWork a p) (WLeavePrevious x) w = (harmless x w \<and> cw_active w \<noteq> Some x \<and> at_room (attempt_of w a) = None)"
| "wait_ok (StartWork a p) WUrl w = (at_room (attempt_of w a) = None)"
| "wait_ok (StartWork a p) WJoin w = (at_room (attempt_of w a) = None)"
| "wait_ok (StartWork a p) (WClear x xs) w = (harmless x w \<and> cw_active w \<noteq> Some x \<and> at_room (attempt_of w a) = None)"
| "wait_ok (StartWork a p) WToken w = (at_room (attempt_of w a) = None)"
| "wait_ok (StartWork a p) (WConnect r) w = (at_room (attempt_of w a) = Some r)"
| "wait_ok (StartWork a p) WLeave w = False"
| "wait_ok (StartWork a p) (WRetry x xs) w = False"
| "wait_ok (StartWork a p) (WRelease e) w = harmless a w"
| "wait_ok (StartWork a p) q w = (at_room (attempt_of w a) \<noteq> None)"
| "wait_ok (LeaveWork x) WLeave w = (harmless x w \<and> cw_active w \<noteq> Some x)"
| "wait_ok (LeaveWork x) q w = False"
| "wait_ok RetryWork (WRetry x xs) w = (harmless x w \<and> cw_active w \<noteq> Some x)"
| "wait_ok RetryWork q w = False"

fun excepted :: "(call_work \<times> call_wait) option \<Rightarrow> nat option" where
  "excepted (Some (StartWork a p, WRelease e)) = Some a" | "excepted _ = None"

definition call_inv :: "call_world \<Rightarrow> bool" where
  "call_inv w \<longleftrightarrow> core (case cw_run w of None \<Rightarrow> [] | Some (k, _) \<Rightarrow> [k]) (excepted (cw_run w)) w
     \<and> pending_ok None w \<and> (case cw_run w of None \<Rightarrow> True | Some (k, p) \<Rightarrow> wait_ok k p w)"

section \<open>Pieces that keep it\<close>

lemma pred_frames [simp]:
  "rooms_ok (w\<lparr>cw_run := r\<rparr>) = rooms_ok w" "rooms_ok (w\<lparr>cw_saved := s\<rparr>) = rooms_ok w" "rooms_ok (w\<lparr>cw_toast := b\<rparr>) = rooms_ok w"
  "rooms_ok (w\<lparr>cw_url := u\<rparr>) = rooms_ok w" "rooms_ok (w\<lparr>cw_voiceRows := v, cw_dmRows := d\<rparr>) = rooms_ok w"
  "rooms_ok (w\<lparr>cw_pendingLeaves := ps\<rparr>) = rooms_ok w" "rooms_ok (w\<lparr>cw_queue := q\<rparr>) = rooms_ok w"
  "rooms_ok (w\<lparr>cw_presence := t\<rparr>) = rooms_ok w" "rooms_ok (w\<lparr>cw_swept := b\<rparr>) = rooms_ok w"
  "rooms_ok (w\<lparr>cw_identity := me\<rparr>) = rooms_ok w" "rooms_ok (w\<lparr>cw_epoch := e\<rparr>) = rooms_ok w"
  "stores_ok (w\<lparr>cw_run := r\<rparr>) = stores_ok w" "stores_ok (w\<lparr>cw_saved := s\<rparr>) = stores_ok w" "stores_ok (w\<lparr>cw_toast := b\<rparr>) = stores_ok w"
  "stores_ok (w\<lparr>cw_url := u\<rparr>) = stores_ok w" "stores_ok (w\<lparr>cw_voiceRows := v, cw_dmRows := d\<rparr>) = stores_ok w"
  "stores_ok (w\<lparr>cw_pendingLeaves := ps\<rparr>) = stores_ok w" "stores_ok (w\<lparr>cw_queue := q\<rparr>) = stores_ok w"
  "stores_ok (w\<lparr>cw_presence := t\<rparr>) = stores_ok w" "stores_ok (w\<lparr>cw_swept := b\<rparr>) = stores_ok w"
  "stores_ok (w\<lparr>cw_identity := me\<rparr>) = stores_ok w" "stores_ok (w\<lparr>cw_epoch := e\<rparr>) = stores_ok w"
  "works_ok running (w\<lparr>cw_run := r\<rparr>) = works_ok running w" "works_ok running (w\<lparr>cw_saved := s\<rparr>) = works_ok running w"
  "works_ok running (w\<lparr>cw_toast := b\<rparr>) = works_ok running w" "works_ok running (w\<lparr>cw_url := u\<rparr>) = works_ok running w"
  "works_ok running (w\<lparr>cw_voiceRows := v, cw_dmRows := d\<rparr>) = works_ok running w"
  "works_ok running (w\<lparr>cw_pendingLeaves := ps\<rparr>) = works_ok running w" "works_ok running (w\<lparr>cw_presence := t\<rparr>) = works_ok running w"
  "works_ok running (w\<lparr>cw_swept := b\<rparr>) = works_ok running w"
  "works_ok running (w\<lparr>cw_identity := me\<rparr>) = works_ok running w" "works_ok running (w\<lparr>cw_epoch := e\<rparr>) = works_ok running w"
  by (simp_all add: rooms_ok_def stores_ok_def works_ok_def)

lemma pending_frames [simp]:
  "pending_ok ex (w\<lparr>cw_run := r\<rparr>) = pending_ok ex w" "pending_ok ex (w\<lparr>cw_saved := s\<rparr>) = pending_ok ex w" "pending_ok ex (w\<lparr>cw_toast := b\<rparr>) = pending_ok ex w"
  "pending_ok ex (w\<lparr>cw_url := u\<rparr>) = pending_ok ex w" "pending_ok ex (w\<lparr>cw_voiceRows := v, cw_dmRows := d\<rparr>) = pending_ok ex w"
  "pending_ok ex (w\<lparr>cw_queue := q\<rparr>) = pending_ok ex w" "pending_ok ex (w\<lparr>cw_presence := t\<rparr>) = pending_ok ex w"
  "pending_ok ex (w\<lparr>cw_swept := b\<rparr>) = pending_ok ex w"
  "presence_ok ex (w\<lparr>cw_run := r\<rparr>) = presence_ok ex w" "presence_ok ex (w\<lparr>cw_saved := s\<rparr>) = presence_ok ex w" "presence_ok ex (w\<lparr>cw_toast := b\<rparr>) = presence_ok ex w"
  "presence_ok ex (w\<lparr>cw_url := u\<rparr>) = presence_ok ex w" "presence_ok ex (w\<lparr>cw_voiceRows := v, cw_dmRows := d\<rparr>) = presence_ok ex w"
  "presence_ok ex (w\<lparr>cw_queue := q\<rparr>) = presence_ok ex w" "presence_ok ex (w\<lparr>cw_pendingLeaves := ps\<rparr>) = presence_ok ex w"
  "presence_ok ex (w\<lparr>cw_identity := me\<rparr>) = presence_ok ex w" "presence_ok ex (w\<lparr>cw_epoch := e\<rparr>) = presence_ok ex w"
  by (simp_all add: pending_ok_def presence_ok_def present_def current_call_def)

lemma core_run [simp]: "core running ex (w\<lparr>cw_run := r\<rparr>) = core running ex w"
  by (simp add: core_def)

lemma core_frame [simp]:
  "core running ex (w\<lparr>cw_saved := s\<rparr>) = core running ex w" "core running ex (w\<lparr>cw_toast := b\<rparr>) = core running ex w"
  "core running ex (w\<lparr>cw_url := u\<rparr>) = core running ex w" "core running ex (w\<lparr>cw_voiceRows := v, cw_dmRows := d\<rparr>) = core running ex w"
  "core running ex (if c then w\<lparr>cw_toast := b\<rparr> else w) = core running ex w"
  by (simp_all add: core_def)

lemma harmless_frame [simp]:
  "harmless x (w\<lparr>cw_run := r\<rparr>) = harmless x w" "harmless x (w\<lparr>cw_saved := s\<rparr>) = harmless x w"
  "harmless x (w\<lparr>cw_toast := b\<rparr>) = harmless x w" "harmless x (w\<lparr>cw_url := u\<rparr>) = harmless x w"
  "harmless x (w\<lparr>cw_queue := q\<rparr>) = harmless x w" "harmless x (w\<lparr>cw_voiceRows := v, cw_dmRows := d\<rparr>) = harmless x w"
  by (simp_all add: harmless_def)

lemma wait_ok_cong:
  assumes "cw_active w' = cw_active w" and "cw_attempts w' = cw_attempts w"
  shows "wait_ok k q w' = wait_ok k q w"
  using assms by (cases "(k, q, w)" rule: wait_ok.cases) (simp_all add: harmless_def)

lemma core_weaken: "core running None w \<Longrightarrow> core running ex w"
  by (auto simp: core_def pending_ok_def presence_ok_def)

lemma attempt_field: "(\<And>k. g (f k) = g k) \<Longrightarrow> g (cw_attempts (set_attempt a f w) ! b) = g (cw_attempts w ! b)"
  by (cases "a < length (cw_attempts w)") (auto simp: set_attempt_def nth_list_update list_update_beyond)

lemma attempt_imp: "(\<And>k. P (f k) \<Longrightarrow> P k) \<Longrightarrow> P (cw_attempts (set_attempt a f w) ! b) \<Longrightarrow> P (cw_attempts w ! b)"
  by (cases "a < length (cw_attempts w)"; cases "a = b") (auto simp: set_attempt_def list_update_beyond)

lemmas attempt_fields = attempt_field[where g = at_target] attempt_field[where g = at_room] attempt_field[where g = at_epoch]
  attempt_field[where g = at_identity] attempt_field[where g = at_muted] attempt_field[where g = at_aborted] attempt_field[where g = at_outcome]
  attempt_field[where g = at_claimedPresence]

lemma core_attempt:
  assumes c: "core running ex w" and t: "\<And>k. at_target (f k) = at_target k" and r: "\<And>k. at_room (f k) = at_room k"
    and p: "\<And>k. at_claimedPresence (f k) \<Longrightarrow> at_claimedPresence k" and o1: "\<And>k. at_outcome (f k) = at_outcome k"
    and e: "\<And>k. at_epoch (f k) = at_epoch k" and i: "\<And>k. at_identity (f k) = at_identity k"
  shows "core running ex (set_attempt a f w)"
proof -
  note f = attempt_field[where g = at_target, OF t] attempt_field[where g = at_room, OF r]
    attempt_field[where g = at_outcome, OF o1] attempt_field[where g = at_epoch, OF e] attempt_field[where g = at_identity, OF i]
  note g = attempt_imp[where P = at_claimedPresence, OF p]
  have "rooms_ok (set_attempt a f w)" using c by (simp add: core_def rooms_ok_def f)
  moreover have "stores_ok (set_attempt a f w)" using c by (simp add: core_def stores_ok_def f)
  moreover have "works_ok running (set_attempt a f w)" using c g by (simp add: core_def works_ok_def f) blast
  moreover have "pending_ok ex (set_attempt a f w)" using c by (simp add: core_def pending_ok_def current_call_def f)
  moreover have "presence_ok ex (set_attempt a f w)" using c g by (simp add: core_def presence_ok_def present_def f) blast
  ultimately show ?thesis by (simp add: core_def)
qed

lemma core_stop:
  assumes "core running ex w"
  shows "core running ex (stop_room_of r w)"
proof -
  have "rooms_ok (stop_room_of r w)" using assms by (simp add: core_def rooms_ok_def nth_stop_room)
  moreover have "stores_ok (stop_room_of r w)" "works_ok running (stop_room_of r w)" "pending_ok ex (stop_room_of r w)"
    "presence_ok ex (stop_room_of r w)"
    using assms by (simp_all add: core_def stores_ok_def works_ok_def pending_ok_def presence_ok_def present_def current_call_def)
  ultimately show ?thesis by (simp add: core_def)
qed

lemma core_clear:
  assumes "core running ex w"
  shows "core running ex' (clearLocalCalls w)" and "cw_active (clearLocalCalls w) = None" and "cw_run (clearLocalCalls w) = cw_run w"
    and "cw_queue (clearLocalCalls w) = cw_queue w" and "cw_pendingLeaves (clearLocalCalls w) = cw_pendingLeaves w"
    and "length (cw_attempts (clearLocalCalls w)) = length (cw_attempts w)" and "cw_epoch (clearLocalCalls w) = cw_epoch w"
    and "cw_identity (clearLocalCalls w) = cw_identity w" and "cw_voice (clearLocalCalls w) = voice_session_reset (cw_voice w)"
    and "cw_dm (clearLocalCalls w) = dm_voice_session_reset (cw_dm w)"
proof -
  define p where "p = (case cw_active w of None \<Rightarrow> None | Some a \<Rightarrow> at_room (attempt_of w a))"
  define v where "v = (case cw_active w of None \<Rightarrow> w | Some a \<Rightarrow> set_attempt a (\<lambda>k. k\<lparr>at_aborted := True\<rparr>) w)"
  define u where "u = stop_room_of (dvs_room (cw_dm w)) (stop_room_of (vss_room (cw_voice w)) (stop_room_of p v))"
  have v: "core running ex v" using assms by (auto simp: v_def intro!: core_attempt split: option.split)
  then have u: "core running ex u" by (simp add: u_def core_stop)
  have eq: "clearLocalCalls w = u\<lparr>cw_active := None, cw_voice := voice_session_reset (cw_voice w), cw_dm := dm_voice_session_reset (cw_dm w)\<rparr>"
    by (simp add: clearLocalCalls_def Let_def u_def v_def p_def stop_room_of_def stopRoom_def set_room_def split: option.split)
  have f: "cw_active v = cw_active w" "cw_rooms v = cw_rooms w" "cw_run u = cw_run w" "cw_queue u = cw_queue w"
    "cw_pendingLeaves u = cw_pendingLeaves w" "length (cw_attempts u) = length (cw_attempts w)" "cw_epoch u = cw_epoch w"
    "cw_identity u = cw_identity w" "cw_active u = cw_active w"
    "at_room (cw_attempts u ! b) = at_room (cw_attempts w ! b)" for b
    by (simp_all add: u_def v_def attempt_fields split: option.split)
  have quiet: "\<not> audible (cw_rooms u ! r)" if "r < length (cw_rooms u)" for r
  proof
    assume a: "audible (cw_rooms u ! r)"
    then have "cw_active u = Some (rm_attempt (cw_rooms u ! r))" "at_room (cw_attempts u ! rm_attempt (cw_rooms u ! r)) = Some r"
      using u that by (auto simp: core_def rooms_ok_def)
    then have "p = Some r" by (simp add: p_def f)
    with a that show False by (simp add: u_def nth_stop_room)
  qed
  show "core running ex' (clearLocalCalls w)"
    using u quiet unfolding eq
    by (auto simp: core_def rooms_ok_def stores_ok_def works_ok_def pending_ok_def presence_ok_def voice_session_reset_def dm_voice_session_reset_def)
  show "cw_active (clearLocalCalls w) = None" "cw_run (clearLocalCalls w) = cw_run w"
    "cw_queue (clearLocalCalls w) = cw_queue w" "cw_pendingLeaves (clearLocalCalls w) = cw_pendingLeaves w"
    "length (cw_attempts (clearLocalCalls w)) = length (cw_attempts w)" "cw_epoch (clearLocalCalls w) = cw_epoch w"
    "cw_identity (clearLocalCalls w) = cw_identity w" "cw_voice (clearLocalCalls w) = voice_session_reset (cw_voice w)"
    "cw_dm (clearLocalCalls w) = dm_voice_session_reset (cw_dm w)"
    by (simp_all add: eq f)
qed

section \<open>Releasing\<close>

text \<open>What a release leaves alone.\<close>

definition alike :: "call_world \<Rightarrow> call_world \<Rightarrow> bool" where
  "alike w w' \<longleftrightarrow> cw_active w' = cw_active w \<and> cw_epoch w' = cw_epoch w \<and> cw_identity w' = cw_identity w \<and> cw_rooms w' = cw_rooms w
     \<and> cw_queue w' = cw_queue w \<and> cw_run w' = cw_run w \<and> length (cw_attempts w') = length (cw_attempts w)
     \<and> (\<forall>b. at_room (attempt_of w' b) = at_room (attempt_of w b) \<and> at_target (attempt_of w' b) = at_target (attempt_of w b)
        \<and> at_epoch (attempt_of w' b) = at_epoch (attempt_of w b) \<and> at_identity (attempt_of w' b) = at_identity (attempt_of w b)
        \<and> at_muted (attempt_of w' b) = at_muted (attempt_of w b) \<and> at_aborted (attempt_of w' b) = at_aborted (attempt_of w b))"

lemma alike_refl [simp]: "alike w w"
  by (simp add: alike_def)

lemma alike_trans: "alike u v \<Longrightarrow> alike v w \<Longrightarrow> alike u w"
  by (simp add: alike_def)

lemma alike_simps:
  assumes "alike w w'"
  shows "cw_active w' = cw_active w" "cw_epoch w' = cw_epoch w" "cw_identity w' = cw_identity w" "cw_rooms w' = cw_rooms w"
    "cw_queue w' = cw_queue w" "cw_run w' = cw_run w" "length (cw_attempts w') = length (cw_attempts w)"
    "at_room (attempt_of w' b) = at_room (attempt_of w b)" "at_target (attempt_of w' b) = at_target (attempt_of w b)"
    "current_call a w' = current_call a w"
  using assms unfolding alike_def current_call_def by metis+

lemma drop_alike: "alike w (drop_pending x w)"
proof -
  have "alike w (set_attempt x (\<lambda>k. k\<lparr>at_claimedPresence := False\<rparr>) (w\<lparr>cw_pendingLeaves := ps\<rparr>))" for ps
    unfolding alike_def by (intro conjI allI) (simp_all add: attempt_fields)
  moreover have "alike w v \<Longrightarrow> alike w (v\<lparr>cw_toast := False\<rparr>)" for v by (simp add: alike_def)
  ultimately show ?thesis by (simp add: drop_pending_def Let_def)
qed

lemma core_pending:
  assumes "core running ex w" and "pending_ok ex (w\<lparr>cw_pendingLeaves := ps\<rparr>)"
  shows "core running ex (w\<lparr>cw_pendingLeaves := ps\<rparr>)"
  using assms by (simp add: core_def)

lemma core_presence:
  assumes "core running ex w" and "presence_ok ex (w\<lparr>cw_presence := ps, cw_swept := b\<rparr>)"
  shows "core running ex (w\<lparr>cw_presence := ps, cw_swept := b\<rparr>)"
  using assms by (simp add: core_def)

lemma core_drop:
  assumes "core running ex w"
  shows "core running ex (drop_pending x w)"
proof -
  have "pending_ok ex (w\<lparr>cw_pendingLeaves := filter (\<lambda>y. y \<noteq> x) (cw_pendingLeaves w)\<rparr>)"
    using assms by (simp add: core_def pending_ok_def current_call_def)
  with assms have "core running ex (w\<lparr>cw_pendingLeaves := filter (\<lambda>y. y \<noteq> x) (cw_pendingLeaves w)\<rparr>)" by (rule core_pending)
  then have "core running ex (set_attempt x (\<lambda>k. k\<lparr>at_claimedPresence := False\<rparr>) (w\<lparr>cw_pendingLeaves := filter (\<lambda>y. y \<noteq> x) (cw_pendingLeaves w)\<rparr>))"
    by (rule core_attempt) simp_all
  then show ?thesis unfolding drop_pending_def Let_def core_frame .
qed

lemma release_shape:
  assumes "core running ex w" and "x < length (cw_attempts w)"
  obtains (sent) "releasePresence x w = (w, True)" "harmless x w" "at_claimedPresence (attempt_of w x)"
    | (kept) w' where "releasePresence x w = (w', False)" "alike w w'" "core running ex w'" "set (cw_pendingLeaves w') \<subseteq> set (cw_pendingLeaves w)"
proof (cases "at_claimedPresence (attempt_of w x) \<and> same_identity_and_epoch x w")
  case True
  show thesis
  proof (cases "newer_claim x w")
    case True
    have "set (cw_pendingLeaves (drop_pending x w)) \<subseteq> set (cw_pendingLeaves w)" by (auto simp: drop_pending_def Let_def)
    with True \<open>at_claimedPresence _ \<and> _\<close> core_drop[OF assms(1)] show thesis
      by (intro kept[of "drop_pending x w"]) (simp_all add: releasePresence_def drop_alike)
  next
    case False
    then have "harmless x w" using assms(2) by (auto simp: harmless_def newer_claim_def)
    with False \<open>at_claimedPresence _ \<and> _\<close> show thesis by (intro sent) (simp_all add: releasePresence_def)
  qed
next
  case False
  then show thesis using assms(1) by (intro kept[of w]) (auto simp: releasePresence_def)
qed

lemma presence_after_leave:
  assumes "presence_ok ex w" and "harmless x w" and "cw_active w \<noteq> Some x \<or> ex = Some x"
  shows "presence_ok ex (w\<lparr>cw_presence := cw_presence w - {target_key (at_target (attempt_of w x))}\<rparr>)"
  unfolding presence_ok_def
proof (intro allI impI)
  fix a
  let ?v = "w\<lparr>cw_presence := cw_presence w - {target_key (at_target (attempt_of w x))}\<rparr>"
  assume "cw_active ?v = Some a \<and> at_claimedPresence (attempt_of ?v a) \<and> ex \<noteq> Some a \<and> \<not> refused (at_outcome (attempt_of ?v a)) \<and> \<not> cw_swept ?v"
  then have a: "cw_active w = Some a" "at_claimedPresence (attempt_of w a)" "ex \<noteq> Some a" "\<not> refused (at_outcome (attempt_of w a))" "\<not> cw_swept w"
    by simp_all
  then have "present a w" using assms(1) by (simp add: presence_ok_def)
  moreover have "a \<noteq> x" using a(1,3) assms(3) by auto
  then have "target_key (at_target (attempt_of w a)) \<noteq> target_key (at_target (attempt_of w x))"
    using assms(2) a(1,2) by (simp add: harmless_def sameCall_def)
  ultimately show "present a ?v" by (simp add: present_def)
qed

lemma core_released:
  assumes c: "core running ex w" and h: "harmless x w" and x: "cw_active w \<noteq> Some x \<or> ex = Some x"
  shows "core running ex (leave_settled x landed succeeded w)" and "alike w (leave_settled x landed succeeded w)"
proof -
  let ?ps = "cw_presence w - {target_key (at_target (attempt_of w x))}"
  define v where "v = (if landed \<or> succeeded then w\<lparr>cw_presence := ?ps\<rparr> else w)"
  have "presence_ok ex (w\<lparr>cw_presence := ?ps, cw_swept := cw_swept w\<rparr>)"
    using presence_after_leave[OF _ h x] c by (simp add: core_def)
  from core_presence[OF c this] have v: "core running ex v" using c by (simp add: v_def)
  have al: "alike w v" by (simp add: v_def alike_def)
  let ?qs = "if x \<in> set (cw_pendingLeaves v) then cw_pendingLeaves v else cw_pendingLeaves v @ [x]"
  have added: "core running ex (v\<lparr>cw_pendingLeaves := ?qs\<rparr>)" if s: "same_identity_and_epoch x v"
  proof (rule core_pending[OF v])
    have "cw_active v = Some x \<longrightarrow> ex = Some x \<and> current_call x v"
      using x s by (auto simp: alike_simps[OF al] current_call_def same_identity_and_epoch_def)
    then show "pending_ok ex (v\<lparr>cw_pendingLeaves := ?qs\<rparr>)"
      using v h alike_simps(7)[OF al] by (auto simp: core_def pending_ok_def current_call_def harmless_def)
  qed
  have eq: "leave_settled x landed succeeded w = presence_released x succeeded v" by (simp add: leave_settled_def v_def)
  show "core running ex (leave_settled x landed succeeded w)"
  proof (cases "succeeded \<or> \<not> same_identity_and_epoch x v")
    case True
    then show ?thesis using v by (auto simp: eq presence_released_def core_drop)
  next
    case False
    then have "leave_settled x landed succeeded w = v\<lparr>cw_pendingLeaves := ?qs\<rparr>\<lparr>cw_toast := True\<rparr>"
      unfolding eq presence_released_def by simp
    then show ?thesis using added False by (simp only: core_frame) blast
  qed
  have "alike v (presence_released x succeeded v)" by (simp add: presence_released_def drop_alike) (simp add: alike_def)
  with al show "alike w (leave_settled x landed succeeded w)" unfolding eq by (rule alike_trans)
qed

section \<open>The steps of a start\<close>

lemma await_inv:
  assumes "core [k] None w" and "wait_ok k q w"
  shows "call_inv (await_at k q w)"
proof -
  have "core [k] (excepted (Some (k, q))) w" by (rule core_weaken[OF assms(1)])
  moreover have "pending_ok None w" using assms(1) by (simp add: core_def)
  ultimately show ?thesis using assms(2) wait_ok_cong[of "w\<lparr>cw_run := Some (k, q)\<rparr>" w k q]
    by (simp add: call_inv_def await_at_def)
qed

lemma done_inv: "core [] None w \<Longrightarrow> call_inv (work_done w)"
  by (simp add: call_inv_def work_done_def core_def)

lemma voice_frames [simp]:
  "rooms_ok (w\<lparr>cw_voice := v\<rparr>) = rooms_ok w" "works_ok running (w\<lparr>cw_voice := v\<rparr>) = works_ok running w"
  "pending_ok ex (w\<lparr>cw_voice := v\<rparr>) = pending_ok ex w" "presence_ok ex (w\<lparr>cw_voice := v\<rparr>) = presence_ok ex w"
  "rooms_ok (w\<lparr>cw_dm := d\<rparr>) = rooms_ok w" "works_ok running (w\<lparr>cw_dm := d\<rparr>) = works_ok running w"
  "pending_ok ex (w\<lparr>cw_dm := d\<rparr>) = pending_ok ex w" "presence_ok ex (w\<lparr>cw_dm := d\<rparr>) = presence_ok ex w"
  by (simp_all add: rooms_ok_def works_ok_def pending_ok_def presence_ok_def present_def current_call_def)

lemma stores_frames [simp]:
  "vss_room v = vss_room (cw_voice w) \<Longrightarrow> stores_ok (w\<lparr>cw_voice := v\<rparr>) = stores_ok w"
  "dvs_room d = dvs_room (cw_dm w) \<Longrightarrow> stores_ok (w\<lparr>cw_dm := d\<rparr>) = stores_ok w"
  by (simp_all add: stores_ok_def)

text \<open>Settling an attempt: its outcome is written and its work is over.\<close>

lemma core_settle:
  assumes c: "core [StartWork a p] ex w" and ex: "ex = None \<or> ex = Some a" and q: "pending_ok None w"
    and out: "refused (Some out) \<or> ex = None"
  shows "core [] None (set_attempt a (\<lambda>k. k\<lparr>at_outcome := Some out\<rparr>) w)"
proof -
  let ?v = "set_attempt a (\<lambda>k. k\<lparr>at_outcome := Some out\<rparr>) w"
  note f = attempt_field[where g = at_target and f = "\<lambda>k. k\<lparr>at_outcome := Some out\<rparr>"]
    attempt_field[where g = at_room and f = "\<lambda>k. k\<lparr>at_outcome := Some out\<rparr>"]
    attempt_field[where g = at_claimedPresence and f = "\<lambda>k. k\<lparr>at_outcome := Some out\<rparr>"]
    attempt_field[where g = at_epoch and f = "\<lambda>k. k\<lparr>at_outcome := Some out\<rparr>"]
    attempt_field[where g = at_identity and f = "\<lambda>k. k\<lparr>at_outcome := Some out\<rparr>"]
  have a: "a < length (cw_attempts w)" "at_outcome (attempt_of w a) = None" "a \<notin> set (starts (cw_queue w))"
    using c by (auto simp: core_def works_ok_def)
  have o1: "at_outcome (attempt_of ?v b) = (if b = a then Some out else at_outcome (attempt_of w b))" for b
    using a(1) by (auto simp: set_attempt_def nth_list_update)
  have "rooms_ok ?v" "stores_ok ?v" using c by (simp_all add: core_def rooms_ok_def stores_ok_def f)
  moreover have "works_ok [] ?v" using c a(3) unfolding core_def works_ok_def by (auto simp: f o1)
  moreover have "pending_ok None ?v" using q by (simp add: pending_ok_def current_call_def f)
  moreover have "presence_ok None ?v"
    unfolding presence_ok_def
  proof (intro allI impI)
    fix b assume b: "cw_active ?v = Some b \<and> at_claimedPresence (attempt_of ?v b) \<and> None \<noteq> Some b
      \<and> \<not> refused (at_outcome (attempt_of ?v b)) \<and> \<not> cw_swept ?v"
    then have "ex \<noteq> Some b" "\<not> refused (at_outcome (attempt_of w b))"
      using ex out a(2) by (auto simp: o1 split: if_splits)
    with b c have "present b w" by (simp add: core_def presence_ok_def f)
    then show "present b ?v" by (simp add: present_def f)
  qed
  ultimately show ?thesis by (simp add: core_def)
qed

lemma rejects_inv:
  assumes "core [StartWork a p] ex w" and "ex = None \<or> ex = Some a" and "pending_ok None w"
  shows "call_inv (start_rejects a e w)"
  unfolding start_rejects_def by (rule done_inv[OF core_settle[OF assms]]) simp

lemma failed_released_inv:
  assumes c: "core [StartWork a p] (Some a) w"
  shows "call_inv (start_failed_released a e w)"
proof (cases "current_call a w")
  case True
  define v where "v = clearLocalCalls w"
  define u where "u = (if is_channel (at_target (attempt_of v a)) then v\<lparr>cw_voice := setVoiceError (Some (je_message e)) (cw_voice v)\<rparr>
             else v\<lparr>cw_dm := setDmVoiceError (Some (je_message e)) (cw_dm v)\<rparr>)"
  have "core [StartWork a p] None v" using core_clear(1)[OF c] by (simp add: v_def)
  then have u: "core [StartWork a p] None u" by (simp add: u_def core_def)
  then have "pending_ok None u" by (simp add: core_def)
  with u True show ?thesis
    by (simp add: start_failed_released_def Let_def v_def[symmetric] u_def[symmetric] rejects_inv)
next
  case False
  with c have "pending_ok None w" by (auto simp: core_def pending_ok_def)
  with c False show ?thesis by (simp add: start_failed_released_def rejects_inv[OF c])
qed

lemma failed_inv:
  assumes c: "core [StartWork a p] None w"
  shows "call_inv (start_failed (StartWork a p) a e w)"
proof -
  let ?v = "stop_room_of (at_room (attempt_of w a)) w"
  have v: "core [StartWork a p] None ?v" by (rule core_stop[OF c])
  have a: "a < length (cw_attempts ?v)" using c by (simp add: core_def works_ok_def)
  show ?thesis
  proof (cases rule: release_shape[OF v a])
    case 1
    with v show ?thesis by (simp add: start_failed_def await_inv)
  next
    case (2 w')
    then show ?thesis using failed_released_inv[OF core_weaken] by (simp add: start_failed_def)
  qed
qed

lemma connect_failed_inv: "core [StartWork a p] None w \<Longrightarrow> call_inv (connect_failed (StartWork a p) a e w)"
  by (simp add: connect_failed_def failed_inv)

lemma if_current_inv:
  "core [StartWork a p] None w \<Longrightarrow> (current_call a w \<Longrightarrow> call_inv w') \<Longrightarrow> call_inv (if_current (StartWork a p) a w w')"
  by (simp add: if_current_def failed_inv)

lemma start_work_inv:
  "core [StartWork a p] None w \<Longrightarrow> at_room (attempt_of w a) = None \<Longrightarrow> call_inv (start_work (StartWork a p) a w)"
  by (simp add: start_work_def if_current_inv await_inv)

lemma release_each_shape:
  assumes "core running ex w" and "ex = None"
  obtains (over) w' where "release_each wanted xs w = (w', None)" "alike w w'" "core running ex w'"
    | (sent) w' x ys where "release_each wanted xs w = (w', Some (x, ys))" "alike w w'" "core running ex w'" "harmless x w'"
        "cw_active w' \<noteq> Some x" "length ys < length xs" "set ys \<subseteq> set xs"
  using assms
proof (induction wanted xs w arbitrary: thesis rule: release_each.induct)
  case (1 wanted w)
  then show ?case by simp
next
  case (2 wanted x xs w)
  show ?case
  proof (cases "x \<in> set (cw_pendingLeaves w) \<and> wanted w x")
    case True
    then have act: "cw_active w \<noteq> Some x" using "2.prems"(3,4) by (auto simp: core_def pending_ok_def)
    have x: "x < length (cw_attempts w)" using "2.prems"(3) True by (simp add: core_def pending_ok_def)
    show ?thesis
    proof (cases rule: release_shape[OF "2.prems"(3) x])
      case 1
      with True act "2.prems"(3) show ?thesis by (intro "2.prems"(2)[of w x xs]) auto
    next
      case (2 w1)
      show ?thesis
      proof (rule "2.IH"(1)[OF True 2(1)[symmetric] refl _ _ 2(3) "2.prems"(4)])
        fix w' assume "release_each wanted xs w1 = (w', None)" "alike w1 w'" "core running ex w'"
        with True 2 show thesis by (intro "2.prems"(1)[of w']) (auto intro: alike_trans)
      next
        fix w' y ys assume "release_each wanted xs w1 = (w', Some (y, ys))" "alike w1 w'" "core running ex w'" "harmless y w'"
          "cw_active w' \<noteq> Some y" "length ys < length xs" "set ys \<subseteq> set xs"
        with True 2 show thesis by (intro "2.prems"(2)[of w' y ys]) (auto intro: alike_trans)
      qed
    qed
  next
    case False
    show ?thesis
    proof (rule "2.IH"(2)[OF False _ _ "2.prems"(3,4)])
      fix w' assume "release_each wanted xs w = (w', None)" "alike w w'" "core running ex w'"
      with False show thesis by (intro "2.prems"(1)[of w']) auto
    next
      fix w' y ys assume "release_each wanted xs w = (w', Some (y, ys))" "alike w w'" "core running ex w'" "harmless y w'"
        "cw_active w' \<noteq> Some y" "length ys < length xs" "set ys \<subseteq> set xs"
      with False show thesis by (intro "2.prems"(2)[of w' y ys]) auto
    qed
  qed
qed

lemma clear_pending_inv:
  assumes "core [StartWork a p] None w" and "at_room (attempt_of w a) = None"
  shows "call_inv (clear_pending (StartWork a p) a xs w)"
proof (cases rule: release_each_shape[OF assms(1) refl, of "wants_clear a" xs])
  case (1 w')
  with assms(2) show ?thesis by (simp add: clear_pending_def request_token_def await_inv alike_simps)
next
  case (2 w' x ys)
  with assms(2) show ?thesis by (simp add: clear_pending_def await_inv alike_simps)
qed

lemma retry_inv:
  assumes "core [RetryWork] None w"
  shows "call_inv (retry_pending xs w)"
proof (cases rule: release_each_shape[OF assms refl, of "\<lambda>_ _. True" xs])
  case (1 w')
  have "core [] None w'" using 1(3) by (simp add: core_def works_ok_def)
  with 1 show ?thesis by (simp add: retry_pending_def done_inv)
next
  case (2 w' x ys)
  then show ?thesis by (simp add: retry_pending_def await_inv)
qed

lemma url_inv:
  "core [StartWork a p] None w \<Longrightarrow> at_room (attempt_of w a) = None \<Longrightarrow> call_inv (url_settled win (StartWork a p) a res w)"
  by (simp add: url_settled_def Let_def failed_inv if_current_inv await_inv split: sum.split)

lemma core_claim:
  assumes c: "core [StartWork a p] None w" and pr: "cw_active w = Some a \<Longrightarrow> present a w"
  shows "core [StartWork a p] None (set_attempt a (\<lambda>k. k\<lparr>at_claimedPresence := True\<rparr>) w)"
proof -
  let ?f = "\<lambda>k. k\<lparr>at_claimedPresence := True\<rparr>"
  let ?v = "set_attempt a ?f w"
  have a: "a < length (cw_attempts w)" "a \<notin> set (starts (cw_queue w))"
    using c by (auto simp: core_def works_ok_def)
  note f = attempt_fields[where f = ?f]
  have cl: "at_claimedPresence (attempt_of ?v b) \<Longrightarrow> b \<noteq> a \<Longrightarrow> at_claimedPresence (attempt_of w b)" for b
    using a(1) by (simp add: set_attempt_def)
  have "rooms_ok ?v" "stores_ok ?v" using c by (simp_all add: core_def rooms_ok_def stores_ok_def f)
  moreover have "works_ok [StartWork a p] ?v" using c a(2) cl by (simp add: core_def works_ok_def f) blast
  moreover have "pending_ok None ?v" using c by (simp add: core_def pending_ok_def current_call_def f)
  moreover have "presence_ok None ?v"
    unfolding presence_ok_def
  proof (intro allI impI)
    fix b assume b: "cw_active ?v = Some b \<and> at_claimedPresence (attempt_of ?v b) \<and> None \<noteq> Some b
      \<and> \<not> refused (at_outcome (attempt_of ?v b)) \<and> \<not> cw_swept ?v"
    then have "present b w"
      using pr cl[of b] c by (cases "b = a") (auto simp: core_def presence_ok_def f)
    then show "present b ?v" by (simp add: present_def f)
  qed
  ultimately show ?thesis by (simp add: core_def)
qed

lemma join_inv:
  assumes c: "core [StartWork a p] None w" and r: "at_room (attempt_of w a) = None" and l: "res = None \<Longrightarrow> landed"
  shows "call_inv (join_settled (StartWork a p) a landed res w)"
proof -
  define v where "v = (if landed then w\<lparr>cw_presence := insert (target_key (at_target (attempt_of w a))) (cw_presence w),
         cw_swept := (cw_swept w \<and> cw_active w \<noteq> Some a)\<rparr> else w)"
  have "presence_ok None (w\<lparr>cw_presence := insert (target_key (at_target (attempt_of w a))) (cw_presence w),
         cw_swept := (cw_swept w \<and> cw_active w \<noteq> Some a)\<rparr>)"
    using c by (auto simp: core_def presence_ok_def present_def)
  from core_presence[OF c this] c have v: "core [StartWork a p] None v" by (simp add: v_def)
  have al: "alike w v" by (simp add: v_def alike_def)
  show ?thesis
  proof (cases res)
    case None
    let ?u = "set_attempt a (\<lambda>k. k\<lparr>at_claimedPresence := True\<rparr>) v"
    have "present a v" using l[OF None] by (simp add: v_def present_def)
    then have u: "core [StartWork a p] None ?u" by (intro core_claim[OF v])
    have "at_room (attempt_of ?u a) = None" using r al by (simp add: attempt_fields alike_simps)
    with u None show ?thesis
      by (simp add: join_settled_def v_def[symmetric] Let_def if_current_inv clear_pending_inv)
  next
    case (Some e)
    with v show ?thesis by (simp add: join_settled_def v_def[symmetric] connect_failed_inv)
  qed
qed

lemma core_new_room:
  assumes c: "core [StartWork a p] None w" and r: "at_room (attempt_of w a) = None"
  shows "core [StartWork a p] None (set_attempt a (\<lambda>k. k\<lparr>at_room := Some (length (cw_rooms w))\<rparr>)
    (w\<lparr>cw_rooms := cw_rooms w @ [\<lparr>rm_attempt = a, rm_status = RoomConnecting, rm_pending = True, rm_mic = False\<rparr>]\<rparr>))" (is "core _ _ ?v")
proof -
  let ?f = "\<lambda>k. k\<lparr>at_room := Some (length (cw_rooms w))\<rparr>"
  have a: "a < length (cw_attempts w)" "a \<notin> set (starts (cw_queue w))"
    using c by (auto simp: core_def works_ok_def)
  note f = attempt_field[where g = at_target and f = ?f] attempt_field[where g = at_claimedPresence and f = ?f]
    attempt_field[where g = at_epoch and f = ?f] attempt_field[where g = at_identity and f = ?f] attempt_field[where g = at_outcome and f = ?f]
  have room: "at_room (attempt_of ?v b) = (if b = a then Some (length (cw_rooms w)) else at_room (attempt_of w b))" for b
    using a(1) by (simp add: set_attempt_def)
  have rooms: "rooms_ok w" using c by (simp add: core_def)
  have old: "rm_attempt (cw_rooms w ! q) \<noteq> a" if "q < length (cw_rooms w)" for q
  proof
    assume "rm_attempt (cw_rooms w ! q) = a"
    with rooms that r show False by (auto simp: rooms_ok_def)
  qed
  have "rooms_ok ?v"
    unfolding rooms_ok_def
  proof (intro conjI allI impI)
    fix q assume "q < length (cw_rooms ?v)"
    then have q: "q < length (cw_rooms w) \<or> q = length (cw_rooms w)" by auto
    then show "rm_attempt (cw_rooms ?v ! q) < length (cw_attempts ?v)"
      "at_room (attempt_of ?v (rm_attempt (cw_rooms ?v ! q))) = Some q"
      using rooms old a(1) by (auto simp: rooms_ok_def room nth_append)
    assume "audible (cw_rooms ?v ! q)"
    with q rooms show "cw_active ?v = Some (rm_attempt (cw_rooms ?v ! q))"
      by (auto simp: rooms_ok_def nth_append audible_def)
  next
    fix b q assume "b < length (cw_attempts ?v)" "at_room (attempt_of ?v b) = Some q"
    then show "q < length (cw_rooms ?v)" "rm_attempt (cw_rooms ?v ! q) = b"
      using rooms by (auto simp: rooms_ok_def room nth_append less_Suc_eq split: if_splits)
  qed
  moreover have "stores_ok ?v"
    using c r unfolding core_def stores_ok_def by (force simp: f room)
  moreover have "works_ok [StartWork a p] ?v" using c a(2) by (auto simp: core_def works_ok_def f room)
  moreover have "pending_ok None ?v" "presence_ok None ?v"
    using c by (simp_all add: core_def pending_ok_def presence_ok_def present_def current_call_def f)
  ultimately show ?thesis by (simp add: core_def)
qed

lemma token_inv:
  "core [StartWork a p] None w \<Longrightarrow> at_room (attempt_of w a) = None \<Longrightarrow> call_inv (token_settled (StartWork a p) a res w)"
proof (cases res)
  case None
  assume c: "core [StartWork a p] None w" and r: "at_room (attempt_of w a) = None"
  have "a < length (cw_attempts w)" using c by (simp add: core_def works_ok_def)
  with None core_new_room[OF c r] c show ?thesis
    by (auto simp: token_settled_def Let_def nth_set_attempt intro!: if_current_inv await_inv)
qed (simp add: token_settled_def connect_failed_inv)

lemma room_failed_inv: "core [StartWork a p] None w \<Longrightarrow> call_inv (room_failed (StartWork a p) a r e w)"
  by (simp add: room_failed_def stopRoom_of core_stop connect_failed_inv)

lemma core_room:
  assumes c: "core running ex w" and k: "\<And>k. rm_attempt (f k) = rm_attempt k"
    and au: "r < length (cw_rooms w) \<Longrightarrow> audible (f (cw_rooms w ! r)) \<Longrightarrow> audible (cw_rooms w ! r) \<or> cw_active w = Some (rm_attempt (cw_rooms w ! r))"
  shows "core running ex (set_room r f w)"
proof -
  have "rooms_ok (set_room r f w)"
    unfolding rooms_ok_def
  proof (intro conjI allI impI)
    fix q assume q: "q < length (cw_rooms (set_room r f w))"
    then show "rm_attempt (cw_rooms (set_room r f w) ! q) < length (cw_attempts (set_room r f w))"
      "at_room (attempt_of (set_room r f w) (rm_attempt (cw_rooms (set_room r f w) ! q))) = Some q"
      using c by (auto simp: core_def rooms_ok_def nth_set_room k)
    assume "audible (cw_rooms (set_room r f w) ! q)"
    with q c au show "cw_active (set_room r f w) = Some (rm_attempt (cw_rooms (set_room r f w) ! q))"
      by (cases "q = r") (auto simp: core_def rooms_ok_def nth_set_room k)
  next
    fix b q assume "b < length (cw_attempts (set_room r f w))" "at_room (attempt_of (set_room r f w) b) = Some q"
    then show "q < length (cw_rooms (set_room r f w))" "rm_attempt (cw_rooms (set_room r f w) ! q) = b"
      using c by (auto simp: core_def rooms_ok_def nth_set_room k)
  qed
  moreover have "stores_ok (set_room r f w)" "works_ok running (set_room r f w)" "pending_ok ex (set_room r f w)" "presence_ok ex (set_room r f w)"
    using c by (simp_all add: core_def stores_ok_def works_ok_def pending_ok_def presence_ok_def present_def current_call_def)
  ultimately show ?thesis by (simp add: core_def)
qed

lemma opened_core:
  assumes c: "core running ex w"
  shows "core running ex (room_opened r w)" and "cw_active (room_opened r w) = cw_active w"
    and "cw_attempts (room_opened r w) = cw_attempts w" and "cw_run (room_opened r w) = cw_run w"
    and "cw_queue (room_opened r w) = cw_queue w" and "cw_epoch (room_opened r w) = cw_epoch w" and "cw_identity (room_opened r w) = cw_identity w"
proof -
  let ?v = "set_room r (\<lambda>k. k\<lparr>rm_status := RoomConnected, rm_pending := False\<rparr>) w"
  show "core running ex (room_opened r w)"
  proof (cases "current_call (rm_attempt (cw_rooms ?v ! r)) ?v")
    case True
    then have "core running ex ?v"
      by (intro core_room[OF c]) (auto simp: current_call_def nth_set_room)
    with True show ?thesis by (simp add: room_opened_def Let_def)
  next
    case False
    have "stopRoom r ?v = set_room r (\<lambda>k. (k\<lparr>rm_status := RoomConnected, rm_pending := False\<rparr>)\<lparr>rm_status := RoomDisconnected, rm_mic := False\<rparr>) w"
      by (cases "r < length (cw_rooms w)") (simp_all add: stopRoom_def set_room_def list_update_beyond)
    moreover have "core running ex \<dots>" by (rule core_room[OF c]) (simp_all add: audible_def)
    ultimately show ?thesis using False by (simp add: room_opened_def Let_def)
  qed
  show "cw_active (room_opened r w) = cw_active w" "cw_attempts (room_opened r w) = cw_attempts w" "cw_run (room_opened r w) = cw_run w"
    "cw_queue (room_opened r w) = cw_queue w" "cw_epoch (room_opened r w) = cw_epoch w" "cw_identity (room_opened r w) = cw_identity w"
    by (simp_all add: room_opened_def Let_def stopRoom_of)
qed

lemma finish_inv:
  assumes c: "core [StartWork a p] None w" and r: "at_room (attempt_of w a) \<noteq> None"
  shows "call_inv (start_finish (StartWork a p) a w)"
  unfolding start_finish_def
proof (rule if_current_inv[OF c])
  assume cur: "current_call a w"
  obtain r where r: "at_room (attempt_of w a) = Some r" using r by blast
  define v where "v = (if is_channel (at_target (attempt_of w a)) then w\<lparr>cw_voice := (cw_voice w)\<lparr>vss_room := Some r, vss_joining := False\<rparr>\<rparr>
          else w\<lparr>cw_dm := (cw_dm w)\<lparr>dvs_room := Some r, dvs_joining := False, answered := False\<rparr>\<rparr>)"
  have "stores_ok v"
    using c cur r by (auto simp: v_def core_def stores_ok_def current_call_def)
  moreover have "rooms_ok v" "works_ok [StartWork a p] v" "pending_ok None v" "presence_ok None v"
    using c by (simp_all add: v_def core_def)
  ultimately have v: "core [StartWork a p] None v" by (simp add: core_def)
  have "core [] None (set_attempt a (\<lambda>k. k\<lparr>at_outcome := Some (Joined r)\<rparr>) v)"
    using v by (intro core_settle) (auto simp: core_def)
  then show "call_inv (case at_room (attempt_of w a) of None \<Rightarrow> w | Some r \<Rightarrow> start_succeeds a r w)"
    by (simp add: r start_succeeds_def Let_def v_def[symmetric] done_inv)
qed

lemma ready_inv:
  "core [StartWork a p] None w \<Longrightarrow> at_room (attempt_of w a) \<noteq> None \<Longrightarrow> call_inv (room_ready mic (StartWork a p) a w)"
  by (simp add: room_ready_def if_current_inv await_inv)

lemma mic_failed_inv:
  "core [StartWork a p] None w \<Longrightarrow> at_room (attempt_of w a) \<noteq> None \<Longrightarrow> call_inv (mic_failed (StartWork a p) a e w)"
  by (simp add: mic_failed_def failed_inv await_inv)

lemma mic_inv:
  "core [StartWork a p] None w \<Longrightarrow> at_room (attempt_of w a) \<noteq> None \<Longrightarrow> call_inv (mic_settled (StartWork a p) a res w)"
  by (simp add: mic_settled_def mic_failed_inv if_current_inv await_inv split: option.split)

lemma mic_on_inv:
  assumes c: "core [StartWork a p] None w" and r: "at_room (attempt_of w a) \<noteq> None"
  shows "call_inv (mic_on_settled (StartWork a p) a res w)"
proof (cases res)
  case (Some e)
  with c r show ?thesis by (simp add: mic_on_settled_def mic_failed_inv)
next
  case None
  obtain r where r: "at_room (attempt_of w a) = Some r" using r by blast
  let ?v = "set_room r (\<lambda>k. k\<lparr>rm_mic := True\<rparr>) w"
  have owner: "rm_attempt (cw_rooms w ! r) = a" using c r by (simp add: core_def rooms_ok_def works_ok_def)
  show ?thesis
  proof (cases "current_call a w")
    case True
    then have "core [StartWork a p] None ?v"
      by (intro core_room[OF c]) (auto simp: current_call_def owner)
    with None r True show ?thesis
      by (simp add: mic_on_settled_def Let_def if_current_def await_inv)
  next
    case False
    have "stop_room_of (Some r) ?v = stop_room_of (Some r) w"
      by (cases "r < length (cw_rooms w)") (simp_all add: stop_room_of_def stopRoom_def set_room_def list_update_beyond)
    then have "start_failed (StartWork a p) a call_cancelled ?v = start_failed (StartWork a p) a call_cancelled w"
      by (simp add: start_failed_def r)
    with None r False failed_inv[OF c] show ?thesis
      by (simp add: mic_on_settled_def Let_def if_current_def)
  qed
qed

section \<open>The queue\<close>

lemma clear_queue [simp]: "cw_queue (clearLocalCalls w) = cw_queue w"
  by (simp add: clearLocalCalls_def Let_def split: option.split)

lemma rejects_queue [simp]: "cw_queue (start_rejects a e w) = cw_queue w"
  by (simp add: start_rejects_def work_done_def)

lemma failed_released_queue [simp]: "cw_queue (start_failed_released a e w) = cw_queue w"
  by (simp add: start_failed_released_def Let_def)

lemma release_queue: "cw_queue (fst (releasePresence x w)) = cw_queue w"
  by (simp add: releasePresence_def alike_simps[OF drop_alike])

lemma failed_queue [simp]: "cw_queue (start_failed k a e w) = cw_queue w"
  using release_queue[of a "stop_room_of (at_room (attempt_of w a)) w"]
  by (auto simp: start_failed_def await_at_def split: prod.split bool.split)

lemma release_each_queue: "cw_queue (fst (release_each wanted xs w)) = cw_queue w"
proof (induction wanted xs w rule: release_each.induct)
  case (2 wanted x xs w)
  then show ?case using release_queue[of x w] by (auto split: prod.split bool.split)
qed simp

lemma begin_queue [simp]: "cw_queue (begin_work k w) = cw_queue w"
proof (cases "(k, w)" rule: begin_work.cases)
  case (2 a p w')
  then show ?thesis using release_queue[of p w]
    by (auto simp: start_work_def if_current_def await_at_def split: prod.split bool.split)
next
  case (3 x w')
  then show ?thesis using release_queue[of x w] by (auto simp: await_at_def work_done_def split: prod.split bool.split)
next
  case (4 w')
  then show ?thesis using release_each_queue[of "\<lambda>_ _. True" "cw_pendingLeaves w" w]
    by (auto simp: retry_pending_def await_at_def work_done_def split: prod.split option.split)
qed (simp add: start_work_def if_current_def await_at_def)

lemma begin_inv:
  assumes c: "core [k] None w" and q: "\<And>a p. k = StartWork a p \<Longrightarrow> at_room (attempt_of w a) = None"
  shows "call_inv (begin_work k w)"
proof (cases "(k, w)" rule: begin_work.cases)
  case (1 a w')
  then show ?thesis using c q start_work_inv by simp
next
  case (2 a p w')
  then have p: "p < length (cw_attempts w)" "cw_active w \<noteq> Some p" "at_room (attempt_of w a) = None"
    using c q by (auto simp: core_def works_ok_def)
  show ?thesis
  proof (cases rule: release_shape[OF c p(1)])
    case 1
    with 2 c p show ?thesis by (auto intro: await_inv)
  next
    case (2 v)
    with \<open>(k, w) = _\<close> p show ?thesis by (auto intro: start_work_inv simp: alike_simps)
  qed
next
  case (3 x w')
  then have x: "x < length (cw_attempts w)" "cw_active w \<noteq> Some x" using c by (auto simp: core_def works_ok_def)
  show ?thesis
  proof (cases rule: release_shape[OF c x(1)])
    case 1
    with 3 c x show ?thesis by (auto intro: await_inv)
  next
    case (2 v)
    then have "core [] None v" using \<open>(k, w) = _\<close> by (auto simp: core_def works_ok_def)
    with 2 \<open>(k, w) = _\<close> show ?thesis by (auto intro: done_inv)
  qed
next
  case (4 w')
  with c retry_inv show ?thesis by simp
qed

lemma core_next:
  assumes "core [] None (w\<lparr>cw_queue := k # ks\<rparr>)"
  shows "core [k] None (w\<lparr>cw_queue := ks\<rparr>)" and "\<And>a p. k = StartWork a p \<Longrightarrow> at_room (attempt_of w a) = None"
proof -
  have "works_ok [] (w\<lparr>cw_queue := k # ks\<rparr>)" using assms by (simp add: core_def)
  then have "works_ok [k] (w\<lparr>cw_queue := ks\<rparr>)" "\<And>a p. k = StartWork a p \<Longrightarrow> at_room (attempt_of w a) = None"
    by (cases k; auto simp: works_ok_def)+
  with assms show "core [k] None (w\<lparr>cw_queue := ks\<rparr>)" "\<And>a p. k = StartWork a p \<Longrightarrow> at_room (attempt_of w a) = None"
    by (simp_all add: core_def)
qed

lemma drain_with_inv:
  "cw_run w = None \<Longrightarrow> core [] None (w\<lparr>cw_queue := ks\<rparr>) \<Longrightarrow> call_inv (drain_with ks w)"
proof (induction ks arbitrary: w)
  case Nil
  then show ?case by (simp add: call_inv_def core_def)
next
  case (Cons k ks)
  define v where "v = begin_work k (w\<lparr>cw_queue := ks\<rparr>)"
  have v: "call_inv v" unfolding v_def by (rule begin_inv) (use core_next[OF Cons.prems(2)] in auto)
  have same: "v\<lparr>cw_queue := ks\<rparr> = v" by (rule call_world.equality) (simp_all add: v_def)
  show ?case
  proof (cases "cw_run v")
    case None
    with v have "core [] None (v\<lparr>cw_queue := ks\<rparr>)" by (simp add: same call_inv_def)
    with None Cons.IH show ?thesis by (simp add: v_def[symmetric])
  next
    case (Some r)
    with v show ?thesis by (simp add: v_def[symmetric])
  qed
qed

lemma drain_inv: "call_inv w \<Longrightarrow> call_inv (drain w)"
  by (auto simp: drain_def call_inv_def intro!: drain_with_inv[unfolded call_inv_def])

section \<open>Every event keeps the invariant\<close>

lemma wait_mono:
  assumes "wait_ok k q w" and "\<And>a. a < length (cw_attempts w) \<Longrightarrow> at_room (attempt_of w' a) = at_room (attempt_of w a)"
    and "\<And>x. harmless x w \<Longrightarrow> harmless x w'" and "\<And>x. x < length (cw_attempts w) \<Longrightarrow> cw_active w \<noteq> Some x \<Longrightarrow> cw_active w' \<noteq> Some x"
    and "works_ok [k] w"
  shows "wait_ok k q w'"
proof (cases k)
  case (StartWork a p)
  with assms(5) have "a < length (cw_attempts w)" by (simp add: works_ok_def)
  with assms(1-4) StartWork show ?thesis by (cases q) (auto simp: harmless_def)
next
  case (LeaveWork x)
  with assms(1-4) show ?thesis by (cases q) (auto simp: harmless_def)
next
  case RetryWork
  with assms(1-4) show ?thesis by (cases q) (auto simp: harmless_def)
qed

abbreviation running_of :: "call_world \<Rightarrow> call_work list" where
  "running_of w \<equiv> (case cw_run w of None \<Rightarrow> [] | Some (k, _) \<Rightarrow> [k])"

text \<open>An event that leaves the running work alone.\<close>

lemma keep_inv:
  assumes i: "call_inv w" and r: "cw_run w' = cw_run w" and p: "pending_ok None w'"
    and c: "\<And>running ex. core running ex w \<Longrightarrow> running = running_of w \<Longrightarrow> rooms_ok w' \<and> stores_ok w' \<and> works_ok running w' \<and> presence_ok ex w'"
    and room: "\<And>a. a < length (cw_attempts w) \<Longrightarrow> at_room (attempt_of w' a) = at_room (attempt_of w a)"
    and h: "\<And>x. harmless x w \<Longrightarrow> harmless x w'"
    and act: "\<And>x. x < length (cw_attempts w) \<Longrightarrow> cw_active w \<noteq> Some x \<Longrightarrow> cw_active w' \<noteq> Some x"
  shows "call_inv w'"
proof -
  have "core (running_of w) (excepted (cw_run w)) w" using i by (simp add: call_inv_def)
  from c[OF this refl] p have "core (running_of w') (excepted (cw_run w')) w'"
    unfolding r by (auto simp: core_def pending_ok_def)
  moreover have "wait_ok k q w'" if "cw_run w = Some (k, q)" for k q
    using i that by (intro wait_mono[OF _ room h act]) (auto simp: call_inv_def core_def)
  ultimately show ?thesis using p by (auto simp: call_inv_def r split: option.split)
qed

lemma clear_room [simp]: "at_room (attempt_of (clearLocalCalls w) b) = at_room (attempt_of w b)"
  by (simp add: clearLocalCalls_def Let_def attempt_fields split: option.split)

lemma clear_inv:
  assumes i: "call_inv w"
  shows "call_inv (clearLocalCalls w)"
proof (rule keep_inv[OF i])
  have "core (running_of w) (excepted (cw_run w)) w" using i by (simp add: call_inv_def)
  note k = core_clear[OF this]
  show "cw_run (clearLocalCalls w) = cw_run w" by (rule k(3))
  show "pending_ok None (clearLocalCalls w)" using k(1)[of None] by (simp add: core_def)
  show "rooms_ok (clearLocalCalls w) \<and> stores_ok (clearLocalCalls w) \<and> works_ok running (clearLocalCalls w) \<and> presence_ok ex (clearLocalCalls w)"
    if "core running ex w" for running ex using core_clear(1)[OF that, of ex] by (simp add: core_def)
  show "harmless x (clearLocalCalls w)" if "harmless x w" for x using that by (simp add: harmless_def k(2,6))
  show "cw_active (clearLocalCalls w) \<noteq> Some x" for x by (simp add: k(2))
qed simp

lemma queue_inv:
  assumes i: "call_inv w" and k: "\<And>x. leaves k = Some x \<Longrightarrow> x < length (cw_attempts w) \<and> cw_active w \<noteq> Some x" and s: "starts [k] = []"
  shows "call_inv (queueCallWork k w)"
  unfolding queueCallWork_def
proof (rule drain_inv, rule keep_inv[OF i])
  show "rooms_ok (w\<lparr>cw_queue := cw_queue w @ [k]\<rparr>) \<and> stores_ok (w\<lparr>cw_queue := cw_queue w @ [k]\<rparr>)
      \<and> works_ok running (w\<lparr>cw_queue := cw_queue w @ [k]\<rparr>) \<and> presence_ok ex (w\<lparr>cw_queue := cw_queue w @ [k]\<rparr>)"
    if "core running ex w" for running ex
    using that k s by (auto simp: core_def works_ok_def)
  show "pending_ok None (w\<lparr>cw_queue := cw_queue w @ [k]\<rparr>)" using i by (simp add: call_inv_def)
qed simp_all

lemma active_range: "call_inv w \<Longrightarrow> cw_active w = Some a \<Longrightarrow> a < length (cw_attempts w)"
  by (auto simp: call_inv_def core_def works_ok_def)

lemma saved_inv [simp]: "call_inv (w\<lparr>cw_saved := s\<rparr>) = call_inv w"
  using wait_ok_cong[of "w\<lparr>cw_saved := s\<rparr>" w] by (simp add: call_inv_def split: option.split)

lemma stop_inv:
  assumes "call_inv w"
  shows "call_inv (stop_room_of r w)"
proof (rule keep_inv[OF assms])
  show "rooms_ok (stop_room_of r w) \<and> stores_ok (stop_room_of r w) \<and> works_ok running (stop_room_of r w) \<and> presence_ok ex (stop_room_of r w)"
    if "core running ex w" for running ex using core_stop[OF that] by (simp add: core_def)
  have "core (running_of w) (excepted (cw_run w)) w" "pending_ok None w" using assms by (simp_all add: call_inv_def)
  then show "pending_ok None (stop_room_of r w)" by (simp add: pending_ok_def)
  show "harmless x (stop_room_of r w)" if "harmless x w" for x using that by (simp add: harmless_def)
qed simp_all

lemma clear_simps [simp]:
  "cw_active (clearLocalCalls w) = None" "length (cw_attempts (clearLocalCalls w)) = length (cw_attempts w)"
  "cw_voice (clearLocalCalls w) = voice_session_reset (cw_voice w)" "cw_dm (clearLocalCalls w) = dm_voice_session_reset (cw_dm w)"
  "cw_epoch (clearLocalCalls w) = cw_epoch w" "cw_identity (clearLocalCalls w) = cw_identity w" "cw_run (clearLocalCalls w) = cw_run w"
  by (simp_all add: clearLocalCalls_def Let_def split: option.split)

lemma end_inv:
  assumes i: "call_inv w"
  shows "call_inv (endCall t room w)"
proof -
  have "call_inv (queueCallWork (LeaveWork a) (clearLocalCalls (w\<lparr>cw_saved := None\<rparr>)))" if "cw_active w = Some a" for a
    by (rule queue_inv) (use i active_range[OF i that] in \<open>simp_all add: clear_inv\<close>)
  then show ?thesis by (simp add: endCall_def stop_inv[OF i] split: option.split)
qed

lemma reset_inv:
  assumes i: "call_inv w"
  shows "call_inv ((resetCallSessions w)\<lparr>cw_identity := me\<rparr>)"
proof -
  let ?v = "clearLocalCalls w"
  have eq: "(resetCallSessions w)\<lparr>cw_identity := me\<rparr>
      = ?v\<lparr>cw_saved := None, cw_epoch := cw_epoch w + 1, cw_pendingLeaves := [], cw_toast := False, cw_identity := me\<rparr>" (is "_ = ?u")
    by (simp add: resetCallSessions_def clearLocalCalls_def Let_def set_attempt_def stop_room_of_def stopRoom_def set_room_def split: option.split)
  have "call_inv ?u"
  proof (rule keep_inv[OF clear_inv[OF i]])
    show "rooms_ok ?u \<and> stores_ok ?u \<and> works_ok running ?u \<and> presence_ok ex ?u" if "core running ex ?v" for running ex
      using that by (simp add: core_def)
    show "harmless x ?u" if "harmless x ?v" for x using that by (simp add: harmless_def)
  qed (simp_all add: pending_ok_def)
  then show ?thesis unfolding eq .
qed

lemma rooms_okD:
  assumes "rooms_ok w"
  shows "r < length (cw_rooms w) \<Longrightarrow> rm_attempt (cw_rooms w ! r) < length (cw_attempts w)"
    and "r < length (cw_rooms w) \<Longrightarrow> at_room (attempt_of w (rm_attempt (cw_rooms w ! r))) = Some r"
    and "r < length (cw_rooms w) \<Longrightarrow> audible (cw_rooms w ! r) \<Longrightarrow> cw_active w = Some (rm_attempt (cw_rooms w ! r))"
    and "a < length (cw_attempts w) \<Longrightarrow> at_room (attempt_of w a) = Some r \<Longrightarrow> r < length (cw_rooms w)"
    and "a < length (cw_attempts w) \<Longrightarrow> at_room (attempt_of w a) = Some r \<Longrightarrow> rm_attempt (cw_rooms w ! r) = a"
  using assms unfolding rooms_ok_def by blast+

lemma core_append:
  assumes c: "core running ex w" and act: "cw_active w = None" and st: "vss_room (cw_voice w) = None" "dvs_room (cw_dm w) = None"
    and new: "at_room new = None" "\<not> at_claimedPresence new" "at_outcome new = None"
    and p: "\<And>x. p = Some x \<Longrightarrow> x < length (cw_attempts w)"
  shows "let w' = w\<lparr>cw_attempts := cw_attempts w @ [new], cw_active := Some (length (cw_attempts w)),
      cw_queue := cw_queue w @ [StartWork (length (cw_attempts w)) p]\<rparr>
    in rooms_ok w' \<and> stores_ok w' \<and> works_ok running w' \<and> pending_ok None w' \<and> presence_ok ex w'"
proof -
  let ?n = "length (cw_attempts w)"
  let ?v = "w\<lparr>cw_attempts := cw_attempts w @ [new], cw_active := Some ?n, cw_queue := cw_queue w @ [StartWork ?n p]\<rparr>"
  have old: "attempt_of ?v b = attempt_of w b" if "b < ?n" for b using that by (simp add: nth_append)
  have ok: "rooms_ok w" using c by (simp add: core_def)
  have quiet: "\<not> audible (cw_rooms w ! r)" if "r < length (cw_rooms w)" for r
    using rooms_okD(3)[OF ok that] act by auto
  have "rooms_ok ?v"
    unfolding rooms_ok_def
  proof (intro conjI allI impI)
    fix q assume q: "q < length (cw_rooms ?v)"
    then have r: "rm_attempt (cw_rooms w ! q) < ?n" "at_room (attempt_of w (rm_attempt (cw_rooms w ! q))) = Some q"
      using rooms_okD(1,2)[OF ok] by simp_all
    then show "rm_attempt (cw_rooms ?v ! q) < length (cw_attempts ?v)" "at_room (attempt_of ?v (rm_attempt (cw_rooms ?v ! q))) = Some q"
      by (simp_all add: nth_append)
    assume "audible (cw_rooms ?v ! q)"
    with quiet[of q] q show "cw_active ?v = Some (rm_attempt (cw_rooms ?v ! q))" by simp
  next
    fix b q assume "b < length (cw_attempts ?v)" "at_room (attempt_of ?v b) = Some q"
    then have "b < ?n" "at_room (attempt_of w b) = Some q" using new(1) by (auto simp: nth_append less_Suc_eq split: if_splits)
    then show "q < length (cw_rooms ?v)" "rm_attempt (cw_rooms ?v ! q) = b" using rooms_okD(4,5)[OF ok] by simp_all
  qed
  moreover have "stores_ok ?v" using st by (simp add: stores_ok_def)
  moreover have "works_ok running ?v"
  proof -
    have w: "works_ok running w" using c by (simp add: core_def)
    then have n: "?n \<notin> set (starts running)" "?n \<notin> set (starts (cw_queue w))" unfolding works_ok_def by auto
    show ?thesis
      unfolding works_ok_def
    proof (intro conjI ballI allI impI)
      show "distinct (starts (running @ cw_queue ?v))" using w n by (simp add: works_ok_def)
    next
      fix a assume "a \<in> set (starts (running @ cw_queue ?v))"
      then have "a \<in> set (starts (running @ cw_queue w)) \<or> a = ?n" by auto
      then show "a < length (cw_attempts ?v)" "at_outcome (attempt_of ?v a) = None"
        using w new(3) by (auto simp: works_ok_def nth_append less_Suc_eq)
    next
      fix a assume "a \<in> set (starts (cw_queue ?v))"
      then have "a \<in> set (starts (cw_queue w)) \<or> a = ?n" by auto
      then show "at_room (attempt_of ?v a) = None" "\<not> at_claimedPresence (attempt_of ?v a)"
        using w new(1,2) by (auto simp: works_ok_def nth_append)
    next
      fix k x assume "k \<in> set (running @ cw_queue ?v)" "leaves k = Some x"
      then have "x < ?n" using w p by (auto simp: works_ok_def)
      then show "x < length (cw_attempts ?v)" "cw_active ?v \<noteq> Some x" by simp_all
    next
      fix a assume "cw_active ?v = Some a"
      then show "a < length (cw_attempts ?v)" by auto
    qed
  qed
  moreover have "pending_ok None ?v" using c by (auto simp: core_def pending_ok_def)
  moreover have "presence_ok ex ?v" using new(2) by (simp add: presence_ok_def nth_append)
  ultimately show ?thesis by simp
qed

lemma start_inv:
  assumes i: "call_inv w"
  shows "call_inv (startCall t muted deafened w)"
proof (cases "cw_identity w")
  case None
  with i show ?thesis by (simp add: startCall_def)
next
  case (Some me)
  let ?u = "clearLocalCalls (w\<lparr>cw_saved := None\<rparr>)"
  let ?n = "length (cw_attempts ?u)"
  define new where "new = \<lparr>at_target = t, at_identity = me, at_epoch = cw_epoch w, at_muted = muted,
               at_deafened = deafened, at_room = None, at_claimedPresence = False, at_aborted = False, at_outcome = None\<rparr>"
  define v where "v = ?u\<lparr>cw_attempts := cw_attempts ?u @ [new], cw_active := Some ?n, cw_queue := cw_queue ?u @ [StartWork ?n (cw_active w)]\<rparr>"
  define x where "x = (case t of ChannelCall c \<Rightarrow> v\<lparr>cw_voice := (cw_voice v)\<lparr>joinedChannelId := Some c, vss_joining := True\<rparr>\<rparr>
              | DmCall i \<Rightarrow> v\<lparr>cw_dm := (cw_dm v)\<lparr>joinedPartnerIdentity := Some i, dvs_joining := True\<rparr>\<rparr>)"
  have u: "call_inv ?u" by (rule clear_inv) (simp add: i)
  have act: "cw_active ?u = None" "vss_room (cw_voice ?u) = None" "dvs_room (cw_dm ?u) = None"
    by (simp_all add: voice_session_reset_def dm_voice_session_reset_def)
  have p: "cw_active w = Some y \<Longrightarrow> y < ?n" for y using active_range[OF i] by simp
  have "call_inv v"
  proof (rule keep_inv[OF u])
    show "rooms_ok v \<and> stores_ok v \<and> works_ok running v \<and> presence_ok ex v" if "core running ex ?u" for running ex
      using core_append[OF that act, of new "cw_active w"] p by (simp add: v_def new_def)
    have "core (running_of ?u) (excepted (cw_run ?u)) ?u" using u by (simp add: call_inv_def)
    from core_append[OF this act, of new "cw_active w"] p show "pending_ok None v" by (simp add: v_def new_def)
    show "at_room (attempt_of v a) = at_room (attempt_of ?u a)" if "a < length (cw_attempts ?u)" for a
      using that by (simp add: v_def nth_append)
    show "harmless y v" if "harmless y ?u" for y
      using that by (simp add: harmless_def v_def nth_append new_def)
    show "cw_active v \<noteq> Some y" if "y < length (cw_attempts ?u)" for y using that by (simp add: v_def)
  qed (simp add: v_def)
  then have "call_inv x"
  proof (rule keep_inv)
    show "rooms_ok x \<and> stores_ok x \<and> works_ok running x \<and> presence_ok ex x" if "core running ex v" for running ex
      using that by (simp add: x_def core_def split: voice_target.split)
    show "pending_ok None x" using \<open>call_inv v\<close> by (simp add: x_def call_inv_def split: voice_target.split)
    show "harmless y x" if "harmless y v" for y using that by (simp add: harmless_def x_def split: voice_target.split)
  qed (simp_all add: x_def split: voice_target.split)
  then have "call_inv (drain x)" by (rule drain_inv)
  moreover have "startCall t muted deafened w = drain x" if "\<not> already_in t (w\<lparr>cw_saved := None\<rparr>)"
  proof -
    have "x = (let z = ?u\<lparr>cw_attempts := cw_attempts ?u @ [new], cw_active := Some ?n\<rparr>;
        z = (case t of ChannelCall c \<Rightarrow> z\<lparr>cw_voice := (cw_voice z)\<lparr>joinedChannelId := Some c, vss_joining := True\<rparr>\<rparr>
              | DmCall i \<Rightarrow> z\<lparr>cw_dm := (cw_dm z)\<lparr>joinedPartnerIdentity := Some i, dvs_joining := True\<rparr>\<rparr>)
      in z\<lparr>cw_queue := cw_queue z @ [StartWork ?n (cw_active w)]\<rparr>)"
      by (cases t) (simp_all add: x_def v_def Let_def)
    note eq = this
    show ?thesis unfolding eq using Some that by (cases t) (simp_all add: startCall_def Let_def queueCallWork_def new_def)
  qed
  moreover have "startCall t muted deafened w = w\<lparr>cw_saved := None\<rparr>" if "already_in t (w\<lparr>cw_saved := None\<rparr>)"
    using Some that by (simp add: startCall_def Let_def)
  ultimately show ?thesis using i by (cases "already_in t (w\<lparr>cw_saved := None\<rparr>)") simp_all
qed

lemma frame_inv:
  assumes i: "call_inv w" and r: "cw_run w' = cw_run w" "cw_active w' = cw_active w" "cw_attempts w' = cw_attempts w"
    and p: "pending_ok None w'"
    and c: "\<And>running ex. core running ex w \<Longrightarrow> rooms_ok w' \<and> stores_ok w' \<and> works_ok running w' \<and> presence_ok ex w'"
  shows "call_inv w'"
  by (rule keep_inv[OF i r(1) p c]) (simp_all add: r harmless_def)

lemma pending_of_inv: "call_inv w \<Longrightarrow> pending_ok None w"
  by (simp add: call_inv_def)

lemma rows_inv: "call_inv w \<Longrightarrow> call_inv (w\<lparr>cw_voiceRows := v, cw_dmRows := d\<rparr>)"
  by (rule frame_inv) (simp_all add: pending_of_inv, simp add: core_def)

lemma room_inv:
  assumes i: "call_inv w" and k: "\<And>k. rm_attempt (f k) = rm_attempt k" and au: "\<And>k. \<not> audible (f k)"
  shows "call_inv (set_room r f w)"
proof (rule frame_inv[OF i])
  show "pending_ok None (set_room r f w)" using pending_of_inv[OF i] by (simp add: pending_ok_def)
  show "rooms_ok (set_room r f w) \<and> stores_ok (set_room r f w) \<and> works_ok running (set_room r f w) \<and> presence_ok ex (set_room r f w)"
    if "core running ex w" for running ex
    using core_room[where f = f and r = r, OF that k] au by (simp add: core_def)
qed simp_all

lemma drops_inv:
  assumes "call_inv w"
  shows "call_inv (room_disconnected r w)"
proof -
  let ?v = "set_room r (\<lambda>k. k\<lparr>rm_status := RoomDisconnected, rm_mic := False\<rparr>) w"
  have "call_inv ?v" by (rule room_inv[OF assms]) (simp_all add: audible_def)
  then show ?thesis
    by (simp add: room_disconnected_def Let_def leaveLiveKitVoice_def leaveLiveKitDmVoice_def end_inv split: option.split)
qed

lemma late_inv:
  assumes i: "call_inv w"
  shows "call_inv (room_opened r w)"
proof (rule frame_inv[OF i])
  have c: "core (running_of w) (excepted (cw_run w)) w" using i by (simp add: call_inv_def)
  note k = opened_core[OF c, of r]
  show "cw_run (room_opened r w) = cw_run w" "cw_active (room_opened r w) = cw_active w" "cw_attempts (room_opened r w) = cw_attempts w"
    by (rule k)+
  show "pending_ok None (room_opened r w)"
    using pending_of_inv[OF i] by (simp add: pending_ok_def k room_opened_def Let_def stopRoom_of)
  show "rooms_ok (room_opened r w) \<and> stores_ok (room_opened r w) \<and> works_ok running (room_opened r w) \<and> presence_ok ex (room_opened r w)"
    if "core running ex w" for running ex using opened_core(1)[OF that, of r] by (simp add: core_def)
qed

lemma presence_grow:
  assumes "call_inv w" and "cw_presence w \<subseteq> ps \<or> b" and "cw_swept w \<longrightarrow> b"
  shows "call_inv (w\<lparr>cw_presence := ps, cw_swept := b\<rparr>)"
proof (rule frame_inv[OF assms(1)])
  show "rooms_ok (w\<lparr>cw_presence := ps, cw_swept := b\<rparr>) \<and> stores_ok (w\<lparr>cw_presence := ps, cw_swept := b\<rparr>)
    \<and> works_ok running (w\<lparr>cw_presence := ps, cw_swept := b\<rparr>) \<and> presence_ok ex (w\<lparr>cw_presence := ps, cw_swept := b\<rparr>)"
    if "core running ex w" for running ex
    using that assms(2,3) by (auto simp: core_def presence_ok_def present_def)
qed (use pending_of_inv[OF assms(1)] in simp_all)

lemma back_inv:
  assumes i: "call_inv w"
  shows "call_inv (connection_restored landed w)"
proof -
  have v: "call_inv (retryCallCleanup w)" unfolding retryCallCleanup_def by (rule queue_inv[OF i]) simp_all
  have "call_inv ((retryCallCleanup w)\<lparr>cw_presence := cw_presence (retryCallCleanup w) \<union> js\<rparr>)" for js
    using presence_grow[OF v, of "cw_presence (retryCallCleanup w) \<union> js" "cw_swept (retryCallCleanup w)"] by simp
  with v show ?thesis by (simp add: connection_restored_def Let_def)
qed

lemma unload_inv: "call_inv w \<Longrightarrow> call_inv (prepareCallReload w)"
  by (simp add: prepareCallReload_def clear_inv split: option.split)

lemma restore_inv: "call_inv w \<Longrightarrow> call_inv (restoreCallAfterReload reloaded w)"
  by (simp add: restoreCallAfterReload_def Let_def start_inv split: option.split)

lemma sign_in_inv:
  assumes i: "call_inv w"
  shows "call_inv (w\<lparr>cw_identity := me\<rparr>)"
  by (rule frame_inv[OF i]) (use pending_of_inv[OF i] in \<open>simp_all add: core_def pending_ok_def\<close>)

section \<open>Replies to the running work\<close>

lemma resume_inv:
  assumes i: "call_inv w" and r: "cw_run w = Some (k, q)"
  shows "call_inv (resume win mic landed res k q w)"
proof -
  have c: "core [k] (excepted (Some (k, q))) w" and wt: "wait_ok k q w" using i r by (auto simp: call_inv_def)
  show ?thesis
  proof (cases k)
    case (StartWork a p)
    show ?thesis
    proof (cases "\<exists>e. q = WRelease e")
      case True
      then obtain e where q: "q = WRelease e" by blast
      with c wt StartWork have "core [StartWork a p] (Some a) (leave_settled a landed (\<not> isl res) w)"
        by (intro core_released(1)) simp_all
      then show ?thesis unfolding StartWork q resume.simps by (rule failed_released_inv)
    next
      case False
      with c StartWork have c: "core [StartWork a p] None w" by (cases q) simp_all
      note left = core_released[OF c]
      show ?thesis
      proof (cases q)
        case (WLeavePrevious x)
        with wt StartWork left[of x landed "\<not> isl res"] show ?thesis by (auto intro!: start_work_inv simp: alike_simps)
      next
        case (WClear x xs)
        with wt StartWork left[of x landed "\<not> isl res"] show ?thesis by (auto intro!: clear_pending_inv simp: alike_simps)
      next
        case WJoin
        with wt StartWork c show ?thesis by (auto intro!: join_inv simp: reply_error_def split: sum.splits)
      next
        case (WConnect r)
        have o1: "core [StartWork a p] None (room_opened r w)" "cw_attempts (room_opened r w) = cw_attempts w" using opened_core[OF c] by auto
        have "core [StartWork a p] None (set_room r (\<lambda>k. k\<lparr>rm_pending := False\<rparr>) w)"
          by (rule core_room[OF c]) (simp_all add: audible_def)
        with WConnect wt StartWork o1 show ?thesis by (auto simp: Let_def room_failed_inv intro!: ready_inv split: sum.split)
      qed (use c wt StartWork False in \<open>simp_all add: url_inv token_inv finish_inv mic_inv mic_on_inv\<close>)
    qed
  next
    case (LeaveWork x)
    with wt have q: "q = WLeave" "harmless x w" "cw_active w \<noteq> Some x" by (cases q; simp)+
    with c LeaveWork have "core [LeaveWork x] None (leave_settled x landed (\<not> isl res) w)" by (intro core_released(1)) simp_all
    then have "core [] None (leave_settled x landed (\<not> isl res) w)" by (simp add: core_def works_ok_def)
    then show ?thesis by (simp add: LeaveWork q done_inv)
  next
    case RetryWork
    with wt obtain x xs where q: "q = WRetry x xs" "harmless x w" "cw_active w \<noteq> Some x" by (cases q) auto
    with c RetryWork have "core [RetryWork] None (leave_settled x landed (\<not> isl res) w)" by (intro core_released(1)) simp_all
    then show ?thesis by (simp add: RetryWork q retry_inv)
  qed
qed

lemma cancelled_inv:
  assumes i: "call_inv w" and r: "cw_run w = Some (k, q)"
  shows "call_inv (wait_cancelled k q w)" and "call_inv (watchdog k q w)"
proof -
  have c: "core [k] None w" if "cancellable q" and wt: "wait_ok k q w" using i r that by (cases k; cases q) (auto simp: call_inv_def)
  have wt: "wait_ok k q w" using i r by (auto simp: call_inv_def)
  show "call_inv (wait_cancelled k q w)"
    using c wt i by (cases "(k, q, w)" rule: wait_cancelled.cases) (simp_all add: failed_inv connect_failed_inv room_failed_inv mic_failed_inv)
  show "call_inv (watchdog k q w)"
    using c wt i by (cases "(k, q, w)" rule: watchdog.cases) (simp_all add: room_failed_inv)
qed

lemma call_step_inv:
  assumes i: "call_inv w"
  shows "call_inv (call_step win mic e w)"
proof (cases e)
  case (Settles landed res)
  show ?thesis using i resume_inv[OF i] by (auto simp: Settles settle_run_def intro!: drain_inv split: option.split)
next
  case CancelDelivered
  show ?thesis using i cancelled_inv(1)[OF i] by (auto simp: CancelDelivered settle_run_def intro!: drain_inv split: option.split)
next
  case WatchdogFires
  show ?thesis using i cancelled_inv(2)[OF i] by (auto simp: WatchdogFires settle_run_def intro!: drain_inv split: option.split)
next
  case (MediaControl r)
  show ?thesis using i by (simp add: MediaControl assertActiveCallRoom_def stopRoom_of stop_inv split: option.split)
next
  case RetryCleanup
  show ?thesis unfolding RetryCleanup call_step.simps retryCallCleanup_def by (rule queue_inv[OF i]) simp_all
next
  case SocketLost
  show ?thesis using presence_grow[OF i, of "{}" True] by (simp add: SocketLost)
qed (use i in \<open>simp_all add: joinLiveKitVoice_def joinLiveKitDmVoice_def leaveLiveKitVoice_def leaveLiveKitDmVoice_def start_inv end_inv
    reset_inv sign_in_inv unload_inv restore_inv rows_inv drops_inv late_inv back_inv split: voice_target.split\<close>)

lemma call_reach_inv: "call_reach w \<Longrightarrow> call_inv w"
proof (induction rule: call_reach.induct)
  case (start me config saved)
  show ?case
    by (simp add: call_inv_def call_init_def core_def rooms_ok_def stores_ok_def works_ok_def pending_ok_def presence_ok_def
      voice_session_init_def dm_voice_session_init_def)
qed (rule call_step_inv)

section \<open>The queue empties\<close>

text \<open>How many replies a wait, a work and a world are away from the end.\<close>

fun wait_rank :: "nat \<Rightarrow> call_wait \<Rightarrow> nat" where
  "wait_rank n (WLeavePrevious x) = n + 11" | "wait_rank n WUrl = n + 10" | "wait_rank n WJoin = n + 9"
| "wait_rank n (WClear x xs) = 8 + length xs" | "wait_rank n WToken = 7" | "wait_rank n (WConnect r) = 6" | "wait_rank n WMic = 5"
| "wait_rank n WMicOn = 4" | "wait_rank n WSyncMuted = 3" | "wait_rank n WSyncOn = 3" | "wait_rank n WSyncFailed = 3"
| "wait_rank n (WRelease e) = 1" | "wait_rank n WLeave = 1" | "wait_rank n (WRetry x xs) = 1 + length xs"

fun work_rank :: "nat \<Rightarrow> call_work \<Rightarrow> nat" where
  "work_rank n (StartWork a p) = n + 12" | "work_rank n (LeaveWork x) = 2" | "work_rank n RetryWork = n + 2"

definition run_rank :: "nat \<Rightarrow> call_world \<Rightarrow> nat" where
  "run_rank n w = (case cw_run w of None \<Rightarrow> 0 | Some (k, q) \<Rightarrow> wait_rank n q)"

definition work_left :: "call_world \<Rightarrow> nat" where
  "work_left w = run_rank (length (cw_attempts w)) w + sum_list (map (work_rank (length (cw_attempts w))) (cw_queue w))"

text \<open>What a reply does to the world: it keeps the number of attempts and the queue, and leaves at most \<open>b\<close> replies.\<close>

definition leads :: "nat \<Rightarrow> call_world \<Rightarrow> call_world \<Rightarrow> bool" where
  "leads b w w' \<longleftrightarrow> length (cw_attempts w') = length (cw_attempts w) \<and> cw_queue w' = cw_queue w
     \<and> run_rank (length (cw_attempts w)) w' \<le> b"

lemma leads_mono: "leads b w w' \<Longrightarrow> b \<le> c \<Longrightarrow> leads c w w'"
  by (simp add: leads_def)

lemma leads_from:
  assumes "leads b v w'" and "length (cw_attempts v) = length (cw_attempts w)" and "cw_queue v = cw_queue w"
  shows "leads b w w'"
  using assms by (simp add: leads_def)

lemma leads_await: "wait_rank (length (cw_attempts w)) q \<le> b \<Longrightarrow> leads b w (await_at k q w)"
  by (simp add: leads_def await_at_def run_rank_def)

lemma leads_done: "leads b w (work_done w)"
  by (simp add: leads_def work_done_def run_rank_def)

lemma release_length: "length (cw_attempts (fst (releasePresence x w))) = length (cw_attempts w)"
  by (simp add: releasePresence_def alike_simps[OF drop_alike])

lemma leads_rejects: "leads b w (start_rejects a e w)"
  unfolding start_rejects_def by (rule leads_from[OF leads_done]) simp_all

lemma leads_failed_released: "leads b w (start_failed_released a e w)"
  unfolding start_failed_released_def Let_def by (auto intro!: leads_rejects intro: leads_from[OF leads_rejects])

lemma leads_failed: "leads 1 w (start_failed k a e w)"
proof -
  let ?v = "stop_room_of (at_room (attempt_of w a)) w"
  obtain v b where v: "releasePresence a ?v = (v, b)" by fastforce
  then have "length (cw_attempts v) = length (cw_attempts w)" "cw_queue v = cw_queue w"
    using release_length[of a ?v] release_queue[of a ?v] by simp_all
  then show ?thesis
    by (cases b) (auto simp: start_failed_def v intro: leads_from[OF leads_await] leads_from[OF leads_failed_released])
qed

lemma leads_connect_failed: "leads 1 w (connect_failed k a e w)"
  unfolding connect_failed_def by (rule leads_failed)

lemma leads_if_current: "leads b w w' \<Longrightarrow> 1 \<le> b \<Longrightarrow> leads b w (if_current k a w w')"
  by (auto simp: if_current_def intro: leads_mono[OF leads_failed])

lemma leads_start: "leads (length (cw_attempts w) + 10) w (start_work k a w)"
  by (simp add: start_work_def leads_if_current leads_await)

lemma release_each_left:
  "cw_queue (fst (release_each wanted xs w)) = cw_queue w \<and> length (cw_attempts (fst (release_each wanted xs w))) = length (cw_attempts w)
   \<and> (\<forall>x ys. snd (release_each wanted xs w) = Some (x, ys) \<longrightarrow> length ys < length xs)"
proof (induction wanted xs w rule: release_each.induct)
  case (2 wanted x xs w)
  show ?case
  proof (cases "x \<in> set (cw_pendingLeaves w) \<and> wanted w x")
    case True
    obtain v b where v: "releasePresence x w = (v, b)" by fastforce
    then have "cw_queue v = cw_queue w" "length (cw_attempts v) = length (cw_attempts w)"
      using release_queue[of x w] release_length[of x w] by simp_all
    then show ?thesis using True v "2.IH"(1)[OF True v[symmetric]] by (cases b) (auto intro: less_SucI)
  next
    case False
    with "2.IH"(2) show ?thesis by (auto intro: less_SucI)
  qed
qed simp

lemma leads_clear: "leads (7 + length xs) w (clear_pending k a xs w)"
proof -
  obtain v r where v: "release_each (wants_clear a) xs w = (v, r)" by fastforce
  with release_each_left[of "wants_clear a" xs w]
  have e: "cw_queue v = cw_queue w" "length (cw_attempts v) = length (cw_attempts w)" "\<And>x ys. r = Some (x, ys) \<Longrightarrow> length ys < length xs" by auto
  show ?thesis
  proof (cases r)
    case None
    then show ?thesis by (simp add: clear_pending_def v request_token_def leads_from[OF leads_await] e)
  next
    case (Some p)
    with e(3) have "8 + length (snd p) \<le> 7 + length xs" by (cases p) auto
    then show ?thesis using Some by (auto simp: clear_pending_def v e intro!: leads_from[OF leads_await] split: prod.split)
  qed
qed

lemma leads_retry: "leads (length xs) w (retry_pending xs w)"
proof -
  obtain v r where v: "release_each (\<lambda>_ _. True) xs w = (v, r)" by fastforce
  with release_each_left[of "\<lambda>_ _. True" xs w]
  have e: "cw_queue v = cw_queue w" "length (cw_attempts v) = length (cw_attempts w)" "\<And>x ys. r = Some (x, ys) \<Longrightarrow> length ys < length xs" by auto
  show ?thesis
  proof (cases r)
    case None
    then show ?thesis by (simp add: retry_pending_def v leads_from[OF leads_done] e)
  next
    case (Some p)
    with e(3) have "1 + length (snd p) \<le> length xs" by (cases p) auto
    then show ?thesis using Some by (auto simp: retry_pending_def v e intro!: leads_from[OF leads_await] split: prod.split)
  qed
qed

lemma pending_length:
  assumes "pending_ok ex w"
  shows "length (cw_pendingLeaves w) \<le> length (cw_attempts w)"
proof -
  have "set (cw_pendingLeaves w) \<subseteq> {..<length (cw_attempts w)}" using assms by (auto simp: pending_ok_def)
  then have "card (set (cw_pendingLeaves w)) \<le> length (cw_attempts w)" using card_mono[of "{..<length (cw_attempts w)}"] by simp
  with assms show ?thesis by (simp add: pending_ok_def distinct_card)
qed

lemma leads_begin:
  assumes "pending_ok ex w"
  shows "leads (work_rank (length (cw_attempts w)) k - 1) w (begin_work k w)"
proof (cases "(k, w)" rule: begin_work.cases)
  case (1 a w')
  then show ?thesis using leads_start[of w "StartWork a None" a] by (auto intro: leads_mono)
next
  case (2 a p w')
  obtain v b where v: "releasePresence p w = (v, b)" by fastforce
  then have "length (cw_attempts v) = length (cw_attempts w)" "cw_queue v = cw_queue w"
    using release_length[of p w] release_queue[of p w] by simp_all
  with 2 v leads_start[of v "StartWork a (Some p)" a] show ?thesis
    by (cases b) (auto intro: leads_from[OF leads_await] leads_from[OF leads_mono])
next
  case (3 x w')
  obtain v b where v: "releasePresence x w = (v, b)" by fastforce
  then have "length (cw_attempts v) = length (cw_attempts w)" "cw_queue v = cw_queue w"
    using release_length[of x w] release_queue[of x w] by simp_all
  with 3 v show ?thesis
    by (cases b) (auto intro: leads_from[OF leads_await] leads_from[OF leads_done])
next
  case (4 w')
  with leads_retry[of "cw_pendingLeaves w" w] pending_length[OF assms] show ?thesis by (auto intro: leads_mono)
qed

lemma drain_with_left:
  "cw_run w = None \<Longrightarrow> core [] None (w\<lparr>cw_queue := ks\<rparr>)
    \<Longrightarrow> length (cw_attempts (drain_with ks w)) = length (cw_attempts w)
      \<and> work_left (drain_with ks w) \<le> sum_list (map (work_rank (length (cw_attempts w))) ks)
      \<and> (cw_run (drain_with ks w) = None \<longrightarrow> cw_queue (drain_with ks w) = [])"
proof (induction ks arbitrary: w)
  case Nil
  then show ?case by (simp add: work_left_def run_rank_def)
next
  case (Cons k ks)
  let ?u = "w\<lparr>cw_queue := ks\<rparr>"
  define v where "v = begin_work k ?u"
  have v: "call_inv v" unfolding v_def by (rule begin_inv) (use core_next[OF Cons.prems(2)] in auto)
  have same: "v\<lparr>cw_queue := ks\<rparr> = v" by (rule call_world.equality) (simp_all add: v_def)
  have "pending_ok None ?u" using Cons.prems(2) by (simp add: core_def)
  from leads_begin[OF this, of k] have l: "length (cw_attempts v) = length (cw_attempts w)" "cw_queue v = ks"
    "run_rank (length (cw_attempts w)) v \<le> work_rank (length (cw_attempts w)) k - 1"
    by (simp_all add: v_def leads_def)
  show ?case
  proof (cases "cw_run v")
    case None
    with v have "core [] None (v\<lparr>cw_queue := ks\<rparr>)" by (simp add: same call_inv_def)
    from Cons.IH[OF None this] None l(1) show ?thesis by (simp add: v_def[symmetric])
  next
    case (Some r)
    with l show ?thesis by (simp add: v_def[symmetric] work_left_def)
  qed
qed

lemma drain_left:
  assumes "call_inv w"
  shows "work_left (drain w) \<le> work_left w" and "cw_run (drain w) = None \<Longrightarrow> cw_queue (drain w) = []"
proof -
  have "work_left (drain w) \<le> work_left w \<and> (cw_run (drain w) = None \<longrightarrow> cw_queue (drain w) = [])"
  proof (cases "cw_run w")
    case None
    with assms have "core [] None (w\<lparr>cw_queue := cw_queue w\<rparr>)" by (simp add: call_inv_def)
    from drain_with_left[OF None this] have "work_left (drain_with (cw_queue w) w) \<le> sum_list (map (work_rank (length (cw_attempts w))) (cw_queue w))"
      "cw_run (drain_with (cw_queue w) w) = None \<longrightarrow> cw_queue (drain_with (cw_queue w) w) = []" by blast+
    moreover have "work_left w = sum_list (map (work_rank (length (cw_attempts w))) (cw_queue w))"
      using None by (simp add: work_left_def run_rank_def)
    ultimately show ?thesis using None by (simp add: drain_def)
  qed (simp add: drain_def)
  then show "work_left (drain w) \<le> work_left w" "cw_run (drain w) = None \<Longrightarrow> cw_queue (drain w) = []" by auto
qed

definition settling :: "call_event \<Rightarrow> bool" where
  "settling e \<longleftrightarrow> (case e of Settles _ _ \<Rightarrow> True | CancelDelivered \<Rightarrow> True | WatchdogFires \<Rightarrow> True | _ \<Rightarrow> False)"

lemma leads_url: "leads (length (cw_attempts w) + 9) w (url_settled win k a res w)"
proof (cases res)
  case (Inl e)
  then show ?thesis by (simp add: url_settled_def leads_mono[OF leads_failed])
next
  case (Inr raw)
  let ?v = "w\<lparr>cw_url := hd (buildLiveKitUrls win raw)\<rparr>"
  have "leads (length (cw_attempts ?v) + 9) ?v (if_current k a ?v (await_at k WJoin ?v))"
    by (rule leads_if_current[OF leads_await]) simp_all
  then have "leads (length (cw_attempts w) + 9) w (if_current k a ?v (await_at k WJoin ?v))"
    by (simp add: leads_def)
  then show ?thesis by (simp add: url_settled_def Inr Let_def)
qed

lemma leads_join:
  assumes "pending_ok ex w"
  shows "leads (length (cw_attempts w) + 8) w (join_settled k a landed res w)"
proof -
  define v where "v = (if landed then w\<lparr>cw_presence := insert (target_key (at_target (attempt_of w a))) (cw_presence w),
         cw_swept := (cw_swept w \<and> cw_active w \<noteq> Some a)\<rparr> else w)"
  let ?u = "set_attempt a (\<lambda>k. k\<lparr>at_claimedPresence := True\<rparr>) v"
  have v: "length (cw_attempts v) = length (cw_attempts w)" "cw_queue v = cw_queue w" "cw_pendingLeaves v = cw_pendingLeaves w"
    by (simp_all add: v_def)
  have "leads (7 + length (cw_pendingLeaves ?u)) ?u (clear_pending k a (cw_pendingLeaves ?u) ?u)" by (rule leads_clear)
  then have "leads (length (cw_attempts w) + 8) ?u (clear_pending k a (cw_pendingLeaves ?u) ?u)"
    by (rule leads_mono) (use pending_length[OF assms] v in simp)
  then have "leads (length (cw_attempts w) + 8) ?u (if_current k a ?u (clear_pending k a (cw_pendingLeaves ?u) ?u))"
    by (rule leads_if_current) simp
  then have "leads (length (cw_attempts w) + 8) w (if_current k a ?u (clear_pending k a (cw_pendingLeaves ?u) ?u))"
    by (rule leads_from) (simp_all add: v)
  moreover have "leads (length (cw_attempts w) + 8) w (connect_failed k a e v)" for e
    by (rule leads_from[OF leads_mono[OF leads_connect_failed]]) (simp_all add: v)
  ultimately show ?thesis by (simp add: join_settled_def v_def[symmetric] Let_def split: option.split)
qed

lemma leads_token: "leads 6 w (token_settled k a res w)"
proof (cases res)
  case None
  let ?v = "set_attempt a (\<lambda>k. k\<lparr>at_room := Some (length (cw_rooms w))\<rparr>)
    (w\<lparr>cw_rooms := cw_rooms w @ [\<lparr>rm_attempt = a, rm_status = RoomConnecting, rm_pending = True, rm_mic = False\<rparr>]\<rparr>)"
  have "leads 6 w (await_at k (WConnect r) ?v)" for r
    by (rule leads_from[OF leads_await]) simp_all
  with None show ?thesis by (simp add: token_settled_def Let_def leads_if_current)
qed (simp add: token_settled_def leads_mono[OF leads_connect_failed])

lemma leads_room_failed: "leads 5 w (room_failed k a r e w)"
  unfolding room_failed_def by (rule leads_from[OF leads_mono[OF leads_connect_failed]]) (simp_all add: stopRoom_of)

lemma leads_ready: "leads 5 w (room_ready mic k a w)"
  by (simp add: room_ready_def leads_if_current leads_await)

lemma leads_mic_failed: "leads 3 w (mic_failed k a e w)"
  by (simp add: mic_failed_def leads_await leads_mono[OF leads_failed])

lemma leads_mic: "leads 4 w (mic_settled k a res w)"
  by (auto simp: mic_settled_def leads_if_current leads_await intro: leads_mono[OF leads_mic_failed] split: option.split)

lemma leads_mic_on: "leads 3 w (mic_on_settled k a res w)"
proof (cases res)
  case None
  define v where "v = (case at_room (attempt_of w a) of None \<Rightarrow> w | Some r \<Rightarrow> set_room r (\<lambda>k. k\<lparr>rm_mic := True\<rparr>) w)"
  have "leads 3 v (if_current k a v (await_at k WSyncOn v))" by (simp add: leads_if_current leads_await)
  then have "leads 3 w (if_current k a v (await_at k WSyncOn v))"
    by (rule leads_from) (simp_all add: v_def split: option.split)
  with None show ?thesis by (simp add: mic_on_settled_def v_def[symmetric] Let_def)
qed (simp add: mic_on_settled_def leads_mic_failed)

lemma leads_finish: "at_room (attempt_of w a) \<noteq> None \<Longrightarrow> leads 2 w (start_finish k a w)"
  unfolding start_finish_def
  by (rule leads_if_current) (auto simp: start_succeeds_def Let_def leads_def run_rank_def work_done_def)

lemma settled_length:
  "length (cw_attempts (leave_settled x landed ok w)) = length (cw_attempts w)" "cw_queue (leave_settled x landed ok w) = cw_queue w"
  using alike_simps(5,7)[OF drop_alike] by (auto simp: leave_settled_def presence_released_def)

lemma leads_resume:
  assumes i: "call_inv w" and r: "cw_run w = Some (k, q)"
  shows "leads (wait_rank (length (cw_attempts w)) q - 1) w (resume win mic landed res k q w)"
proof -
  have p: "pending_ok None w" and wt: "wait_ok k q w" using i r by (auto simp: call_inv_def)
  let ?l = "\<lambda>x. leave_settled x landed (\<not> isl res) w"
  show ?thesis
  proof (cases "(win, mic, landed, res, k, q, w)" rule: resume.cases)
    case (6 win mic landed res a p r w')
    have o1: "length (cw_attempts (room_opened r w)) = length (cw_attempts w)" "cw_queue (room_opened r w) = cw_queue w"
      by (simp_all add: room_opened_def Let_def stopRoom_of)
    have "leads 5 w (room_failed k a r e (set_room r f w))" for e f by (rule leads_from[OF leads_room_failed]) simp_all
    moreover have "leads 5 w (room_ready mic k a (room_opened r w))" by (rule leads_from[OF leads_ready o1])
    moreover have "leads 5 w (room_failed k a r e (room_opened r w))" for e by (rule leads_from[OF leads_room_failed o1])
    ultimately show ?thesis using 6 by (auto simp: Let_def split: sum.split)
  next
    case (1 win mic landed res a p x w')
    then show ?thesis using leads_start[of "?l x" k a] by (auto intro: leads_from simp: settled_length add.commute)
  next
    case (4 win mic landed res a p x xs w')
    then show ?thesis by (auto intro: leads_from[OF leads_clear] simp: settled_length)
  next
    case (14 win mic landed res x xs w')
    then show ?thesis by (auto intro: leads_from[OF leads_retry] simp: settled_length)
  qed (use p wt in \<open>auto intro: leads_from[OF leads_start] leads_from[OF leads_done] leads_from[OF leads_failed_released] leads_mono[OF leads_url]
      leads_mono[OF leads_join] leads_token leads_finish leads_mic leads_mic_on simp: settled_length\<close>)
qed

lemma leads_cancelled:
  assumes "cw_run w = Some (k, q)"
  shows "call_may CancelDelivered w \<Longrightarrow> leads (wait_rank (length (cw_attempts w)) q - 1) w (wait_cancelled k q w)"
    and "call_may WatchdogFires w \<Longrightarrow> wait_ok k q w \<Longrightarrow> leads (wait_rank (length (cw_attempts w)) q - 1) w (watchdog k q w)"
  using assms
  by (cases k; cases q; auto intro: leads_mono[OF leads_failed] leads_mono[OF leads_connect_failed] leads_mono[OF leads_room_failed] leads_mono[OF leads_mic_failed])+

lemma settle_less:
  assumes i: "call_inv w" and e: "settling e" and m: "call_may e w"
  shows "work_left (call_step win mic e w) < work_left w"
    and "cw_run (call_step win mic e w) = None \<Longrightarrow> cw_queue (call_step win mic e w) = []"
proof -
  obtain k q where r: "cw_run w = Some (k, q)"
    using e m by (cases e) (auto simp: settling_def split: option.splits)
  have wt: "wait_ok k q w" using i r by (simp add: call_inv_def)
  obtain v where v: "call_step win mic e w = drain v" "call_inv v" "leads (wait_rank (length (cw_attempts w)) q - 1) w v"
  proof (cases e)
    case (Settles landed res)
    show thesis by (rule that[OF _ resume_inv[OF i r] leads_resume[OF i r]]) (simp add: Settles settle_run_def r)
  next
    case CancelDelivered
    with m have "call_may CancelDelivered w" by simp
    with r show thesis
      by (intro that[OF _ cancelled_inv(1)[OF i r] leads_cancelled(1)[OF r]]) (simp_all add: CancelDelivered settle_run_def)
  next
    case WatchdogFires
    with m have "call_may WatchdogFires w" by simp
    with r wt show thesis
      by (intro that[OF _ cancelled_inv(2)[OF i r] leads_cancelled(2)[OF r]]) (simp_all add: WatchdogFires settle_run_def)
  qed (use e in \<open>simp_all add: settling_def\<close>)
  have "work_left v < work_left w"
  proof -
    have "0 < wait_rank (length (cw_attempts w)) q" by (cases q) auto
    moreover have "run_rank (length (cw_attempts w)) w = wait_rank (length (cw_attempts w)) q" by (simp add: run_rank_def r)
    moreover have "run_rank (length (cw_attempts w)) v \<le> wait_rank (length (cw_attempts w)) q - 1" using v(3) by (simp add: leads_def)
    ultimately have "run_rank (length (cw_attempts w)) v < run_rank (length (cw_attempts w)) w" by linarith
    with v(3) show ?thesis by (simp add: leads_def work_left_def)
  qed
  with drain_left[OF v(2)] v(1) show "work_left (call_step win mic e w) < work_left w"
    "cw_run (call_step win mic e w) = None \<Longrightarrow> cw_queue (call_step win mic e w) = []" by simp_all
qed

text \<open>An idle queue is an empty one.\<close>

definition idle_ok :: "call_world \<Rightarrow> bool" where
  "idle_ok w \<longleftrightarrow> (cw_run w = None \<longrightarrow> cw_queue w = [])"

lemma drain_with_idle: "idle_ok (drain_with ks w)"
  by (induction ks arbitrary: w) (auto simp: idle_ok_def Let_def)

lemma drain_idle [simp]: "idle_ok (drain w)" "idle_ok (queueCallWork k w)"
  by (auto simp: queueCallWork_def drain_def drain_with_idle) (auto simp: idle_ok_def)

lemma idle_frames [simp]:
  "idle_ok (w\<lparr>cw_saved := s\<rparr>) = idle_ok w" "idle_ok (clearLocalCalls w) = idle_ok w" "idle_ok (stop_room_of q w) = idle_ok w"
  "idle_ok (set_room r f w) = idle_ok w" "idle_ok (room_opened r w) = idle_ok w" "idle_ok (w\<lparr>cw_presence := ps\<rparr>) = idle_ok w"
  by (simp_all add: idle_ok_def room_opened_def Let_def stopRoom_of)

lemma start_idle: "idle_ok w \<Longrightarrow> idle_ok (startCall t muted deafened w)"
  by (simp add: startCall_def Let_def split: option.split)

lemma end_idle: "idle_ok w \<Longrightarrow> idle_ok (endCall t room w)"
  by (simp add: endCall_def split: option.split)

lemma step_idle: "idle_ok w \<Longrightarrow> idle_ok (call_step win mic e w)"
  by (cases e, auto simp: joinLiveKitVoice_def joinLiveKitDmVoice_def leaveLiveKitVoice_def leaveLiveKitDmVoice_def start_idle end_idle
    retryCallCleanup_def prepareCallReload_def restoreCallAfterReload_def room_disconnected_def connection_restored_def Let_def
    assertActiveCallRoom_def stopRoom_of settle_run_def resetCallSessions_def idle_ok_def[of "_\<lparr>cw_identity := _\<rparr>"] idle_ok_def[of "_\<lparr>cw_swept := _\<rparr>"]
    idle_ok_def[of "_\<lparr>cw_dmRows := _\<rparr>"] split: option.split voice_target.split prod.split)
    (auto simp: idle_ok_def)

lemma reach_idle: "call_reach w \<Longrightarrow> idle_ok w"
  by (induction rule: call_reach.induct) (simp_all add: step_idle, simp add: idle_ok_def call_init_def)

end
