(* ===== verification/CallProperties.thy ===== *)
theory CallProperties
  imports CallFacts
begin

text \<open>
  What the call sessions of \<open>Calls\<close> promise: which rooms are open, which presence the server keeps, that the
  queue of works drains; and the runs that show where a promise stops.
\<close>

section \<open>Runs\<close>

text \<open>The events that can happen one after the other, and where they lead.\<close>

fun call_can :: "(string \<times> bool) option \<Rightarrow> bool \<Rightarrow> call_event list \<Rightarrow> call_world \<Rightarrow> bool" where
  "call_can win mic [] w = True"
| "call_can win mic (e # es) w = (call_may e w \<and> call_can win mic es (call_step win mic e w))"

definition call_run :: "(string \<times> bool) option \<Rightarrow> bool \<Rightarrow> call_event list \<Rightarrow> call_world \<Rightarrow> call_world" where
  "call_run win mic es w = foldl (\<lambda>w e. call_step win mic e w) w es"

definition demo_calls :: call_world where
  "demo_calls = call_init (Some ''me'') None None"

lemma calls_reach: "call_reach demo_calls"
  unfolding demo_calls_def by (rule call_reach.start)

text \<open>Seven is joined without a hitch, up to the connecting room and then to the end.\<close>

definition reply :: call_event where
  "reply = Settles True (Inr ''wss://lk.test'')"

definition demo_joins :: "call_event list" where
  "demo_joins = [UserJoins (ChannelCall 7) False False, reply, reply, reply]"

definition demo_joined :: "call_event list" where
  "demo_joined = demo_joins @ [reply, reply, reply, reply]"

lemma call_run_reach: "call_reach w \<Longrightarrow> call_can win mic es w \<Longrightarrow> call_reach (call_run win mic es w)"
  by (induction es arbitrary: w) (auto simp: call_run_def intro: call_reach.step)

section \<open>Properties\<close>

text \<open>C23: No room outlives its call.  Whatever the order in which joins, hang-ups, call switches, sign-outs, late connects
  and device prompts interleave, a room that is connected or has a live microphone is the room of the active
  call, a room installed in one of the two session stores is the room of the active call and of its kind, and
  so without an active call everything is silent.\<close>

theorem no_room_outlives_its_call:
  assumes "call_reach w"
  shows "(\<forall>r < length (cw_rooms w). rm_status (cw_rooms w ! r) = RoomConnected \<or> rm_mic (cw_rooms w ! r)
      \<longrightarrow> (\<exists>a. cw_active w = Some a \<and> at_room (attempt_of w a) = Some r))
    \<and> (\<forall>r. vss_room (cw_voice w) = Some r \<longrightarrow>
        (\<exists>a. cw_active w = Some a \<and> at_room (attempt_of w a) = Some r \<and> is_channel (at_target (attempt_of w a))))
    \<and> (\<forall>r. dvs_room (cw_dm w) = Some r \<longrightarrow>
        (\<exists>a. cw_active w = Some a \<and> at_room (attempt_of w a) = Some r \<and> \<not> is_channel (at_target (attempt_of w a))))"
proof -
  have "rooms_ok w" "stores_ok w" using call_reach_inv[OF assms] by (auto simp: call_inv_def core_def)
  then show ?thesis using rooms_okD(2,3)[of w] unfolding stores_ok_def audible_def by blast
qed

lemma joined_run: "call_can None True demo_joined demo_calls"
  "cw_active (call_run None True demo_joined demo_calls) = Some 0"
  "vss_room (cw_voice (call_run None True demo_joined demo_calls)) = Some 0"
  "length (cw_rooms (call_run None True demo_joined demo_calls)) = 1"
  "rm_mic (cw_rooms (call_run None True demo_joined demo_calls) ! 0)"
  by (code_simp+)

theorem no_room_outlives_its_call_witness:
  "cw_active (call_run None True demo_joined demo_calls) = Some 0 \<and> rm_mic (cw_rooms (call_run None True demo_joined demo_calls) ! 0)
    \<and> (\<exists>a. cw_active (call_run None True demo_joined demo_calls) = Some a
        \<and> at_room (attempt_of (call_run None True demo_joined demo_calls) a) = Some 0
        \<and> is_channel (at_target (attempt_of (call_run None True demo_joined demo_calls) a)))"
proof -
  have "call_reach (call_run None True demo_joined demo_calls)" by (rule call_run_reach[OF calls_reach joined_run(1)])
  from no_room_outlives_its_call[OF this] joined_run(2,3,5) show ?thesis by blast
qed

text \<open>C24: The clean-up of an older call never removes the presence of a newer one.  From the moment the server has
  accepted the join of the active call until its own start fails or it ends, the server holds a presence row for
  its target, however many leaves of earlier calls to the same target were sent, failed, timed out after reaching
  the server or are retried, unless the database connection itself is lost.\<close>

theorem late_leave_spares_newer_call:
  assumes "call_reach w" and "cw_active w = Some a" and "at_claimedPresence (attempt_of w a)"
    and "\<not> refused (at_outcome (attempt_of w a))" and "\<And>p e. cw_run w \<noteq> Some (StartWork a p, WRelease e)" and "\<not> cw_swept w"
  shows "target_key (at_target (attempt_of w a)) \<in> cw_presence w"
proof -
  have "presence_ok (excepted (cw_run w)) w" using call_reach_inv[OF assms(1)] by (simp add: call_inv_def core_def)
  moreover have "excepted (cw_run w) \<noteq> Some a"
    using assms(5) by (cases "cw_run w" rule: excepted.cases) auto
  ultimately show ?thesis using assms by (simp add: presence_ok_def present_def)
qed

text \<open>Seven is left, the leave times out, and seven is joined again: the pending leave is dropped, not repeated.\<close>

definition demo_rejoined :: "call_event list" where
  "demo_rejoined = demo_joined @ [UserLeaves (ChannelCall 7) None, Settles False (Inl (plain_error ''timed out'')),
     UserJoins (ChannelCall 7) False False, reply, reply]"

lemma rejoined_run: "call_can None True demo_rejoined demo_calls"
  "cw_active (call_run None True demo_rejoined demo_calls) = Some 1"
  "at_claimedPresence (attempt_of (call_run None True demo_rejoined demo_calls) 1)"
  "at_outcome (attempt_of (call_run None True demo_rejoined demo_calls) 1) = None"
  "cw_run (call_run None True demo_rejoined demo_calls) = Some (StartWork 1 None, WToken)"
  "\<not> cw_swept (call_run None True demo_rejoined demo_calls)"
  "at_target (attempt_of (call_run None True demo_rejoined demo_calls) 1) = ChannelCall 7"
  by (code_simp+)

theorem late_leave_spares_newer_call_witness:
  "target_key (ChannelCall 7) \<in> cw_presence (call_run None True demo_rejoined demo_calls)"
proof -
  have "call_reach (call_run None True demo_rejoined demo_calls)" by (rule call_run_reach[OF calls_reach rejoined_run(1)])
  from late_leave_spares_newer_call[OF this rejoined_run(2,3) _ _ rejoined_run(6)] show ?thesis
    by (simp add: rejoined_run(4,5,7) del: One_nat_def)
qed

lemma settles_bounded: "call_inv w \<Longrightarrow> call_can win mic es w \<Longrightarrow> list_all settling es \<Longrightarrow> length es + work_left (call_run win mic es w) \<le> work_left w"
proof (induction es arbitrary: w)
  case (Cons e es)
  then have "length es + work_left (call_run win mic es (call_step win mic e w)) \<le> work_left (call_step win mic e w)"
    using call_step_inv[OF Cons.prems(1)] by simp
  moreover have "work_left (call_step win mic e w) < work_left w"
    using settle_less(1)[OF Cons.prems(1)] Cons.prems(2,3) by simp
  ultimately show ?case by (simp add: call_run_def)
qed (simp add: call_run_def)

text \<open>C25: The queue of call works never jams: whatever state the call sessions have reached, the replies that the pending
  works can receive are at most \<open>work_left\<close> many, and when no reply is left to come no work is running or queued,
  so every start and every leave has been carried out.\<close>

theorem call_queue_drains:
  assumes "call_reach w" and "call_can win mic es w" and "list_all settling es"
  shows "length es \<le> work_left w
    \<and> ((\<forall>e. settling e \<longrightarrow> \<not> call_may e (call_run win mic es w))
        \<longrightarrow> cw_run (call_run win mic es w) = None \<and> cw_queue (call_run win mic es w) = [])"
proof -
  let ?v = "call_run win mic es w"
  have v: "call_reach ?v" by (rule call_run_reach[OF assms(1,2)])
  have "cw_run ?v = None" if n: "\<forall>e. settling e \<longrightarrow> \<not> call_may e ?v"
  proof (rule ccontr)
    assume "cw_run ?v \<noteq> None"
    then obtain k q where r: "cw_run ?v = Some (k, q)" by auto
    have "call_may WatchdogFires ?v \<or> call_may (Settles False (Inr [])) ?v" by (cases q) (auto simp: r)
    with n[rule_format, of WatchdogFires] n[rule_format, of "Settles False (Inr [])"] show False by (auto simp: settling_def)
  qed
  moreover have "length es \<le> work_left w" using settles_bounded[OF call_reach_inv[OF assms(1)] assms(2,3)] by simp
  ultimately show ?thesis using reach_idle[OF v] by (auto simp: idle_ok_def)
qed

lemma asked_run: "call_can None True (take 1 demo_joined) demo_calls"
  "call_can None True (drop 1 demo_joined) (call_run None True (take 1 demo_joined) demo_calls)"
  "list_all settling (drop 1 demo_joined)"
  "cw_run (call_run None True (drop 1 demo_joined) (call_run None True (take 1 demo_joined) demo_calls)) = None"
  "length (drop 1 demo_joined) = 7"
  by (code_simp+)

theorem call_queue_drains_witness:
  "7 \<le> work_left (call_run None True (take 1 demo_joined) demo_calls)
    \<and> cw_queue (call_run None True (drop 1 demo_joined) (call_run None True (take 1 demo_joined) demo_calls)) = []"
proof -
  let ?v = "call_run None True (drop 1 demo_joined) (call_run None True (take 1 demo_joined) demo_calls)"
  have "\<forall>e. settling e \<longrightarrow> \<not> call_may e ?v"
  proof (intro allI impI)
    fix e assume "settling e"
    then show "\<not> call_may e ?v" by (cases e) (simp_all add: settling_def asked_run(4) del: One_nat_def)
  qed
  with call_queue_drains[OF call_run_reach[OF calls_reach asked_run(1)] asked_run(2,3)] show ?thesis
    unfolding asked_run(5) by blast
qed

section \<open>A page reload\<close>

text \<open>C26: A call survives a reload of its page.  If the page unloads while the room of the active call is installed and
  not disconnected, and the reloaded page belongs to the same account, host and database, then restoring starts a call
  to the same target with the microphone and deafened state the call had, and consumes the saved record, so that a
  second restore starts nothing; unloading has silenced every room of the old page.\<close>

theorem call_survives_reload:
  assumes "call_reach w" and "cw_active w = Some a" and "at_room (attempt_of w a) = Some r" and "cw_config w = Some config"
    and "installed_room (at_target (attempt_of w a)) w = Some r" and "rm_status (cw_rooms w ! r) \<noteq> RoomDisconnected"
    and "valid_target (at_target (attempt_of w a))"
    and "v = restoreCallAfterReload True (call_init (Some (at_identity (attempt_of w a))) (Some config) (cw_saved (prepareCallReload w)))"
  shows "cw_active v = Some 0 \<and> cw_run v = Some (StartWork 0 None, WUrl) \<and> cw_saved v = None
    \<and> at_target (attempt_of v 0) = at_target (attempt_of w a) \<and> at_muted (attempt_of v 0) = (\<not> rm_mic (cw_rooms w ! r))
    \<and> at_deafened (attempt_of v 0) = self_deafened a w \<and> restoreCallAfterReload True v = v
    \<and> (\<forall>q < length (cw_rooms w). rm_status (cw_rooms (prepareCallReload w) ! q) \<noteq> RoomConnected \<and> \<not> rm_mic (cw_rooms (prepareCallReload w) ! q))"
proof -
  let ?s = "saveCallReload (at_target (attempt_of w a)) (\<not> rm_mic (cw_rooms w ! r)) (self_deafened a w) (at_identity (attempt_of w a)) config"
  let ?u = "prepareCallReload w"
  have u: "?u = clearLocalCalls (w\<lparr>cw_saved := Some ?s\<rparr>)"
    using assms(2-6) by (simp add: prepareCallReload_def)
  have saved: "cw_saved ?u = Some ?s" and quiet: "cw_active ?u = None" and rooms: "length (cw_rooms ?u) = length (cw_rooms w)"
    by (simp_all add: u clearLocalCalls_def Let_def stop_room_of_def stopRoom_def set_room_def set_attempt_def split: option.split)
  have v: "v = startCall (at_target (attempt_of w a)) (\<not> rm_mic (cw_rooms w ! r)) (self_deafened a w)
      ((call_init (Some (at_identity (attempt_of w a))) (Some config) (Some ?s))\<lparr>cw_saved := None\<rparr>)"
    using assms(7,8) unfolding saved
    by (simp add: restoreCallAfterReload_def takeCallReload_def call_init_def saveCallReload_def)
  have start: "cw_active v = Some 0 \<and> cw_run v = Some (StartWork 0 None, WUrl) \<and> cw_saved v = None
      \<and> at_target (attempt_of v 0) = at_target (attempt_of w a) \<and> at_muted (attempt_of v 0) = (\<not> rm_mic (cw_rooms w ! r))
      \<and> at_deafened (attempt_of v 0) = self_deafened a w \<and> cw_config v = Some config \<and> cw_identity v = Some (at_identity (attempt_of w a))"
    unfolding v by (cases "at_target (attempt_of w a)")
      (simp_all add: startCall_def call_init_def Let_def already_in_def clearLocalCalls_def stop_room_of_def voice_session_init_def
        dm_voice_session_init_def voice_session_reset_def dm_voice_session_reset_def queueCallWork_def drain_def start_work_def
        if_current_def current_call_def await_at_def)
  have "call_reach ?u" using call_reach.step[OF assms(1), of PageUnloads None True] by simp
  then have "rooms_ok ?u" using call_reach_inv by (auto simp: call_inv_def core_def)
  then have "\<forall>q < length (cw_rooms w). rm_status (cw_rooms ?u ! q) \<noteq> RoomConnected \<and> \<not> rm_mic (cw_rooms ?u ! q)"
    using rooms_okD(3)[of ?u] unfolding audible_def by (simp add: quiet rooms) blast
  moreover have "restoreCallAfterReload True v = v"
    using start by (simp add: restoreCallAfterReload_def takeCallReload_def)
  ultimately show ?thesis using start by blast
qed

text \<open>The call of \<open>demo_joined\<close> reloads.\<close>

definition demo_config :: server_config where
  "demo_config = \<lparr>spacetimedbUri = ''wss://chat.test'', spacetimedbDatabase = ''chat'', authServiceUrl = ''https://chat.test'',
     livekitUrl = [], uploadPartSizeBytes = None, uploadMaxFileSizeBytes = None, dailyUploadQuotaBytes = None,
     userStorageLimitBytes = None, instanceStorageLimitBytes = None\<rparr>"

definition reloading :: call_world where
  "reloading = call_run None True demo_joined (call_init (Some ''me'') (Some demo_config) None)"

lemma reloading_run: "call_can None True demo_joined (call_init (Some ''me'') (Some demo_config) None)"
  "cw_active reloading = Some 0" "at_room (attempt_of reloading 0) = Some 0" "cw_config reloading = Some demo_config"
  "at_target (attempt_of reloading 0) = ChannelCall 7" "installed_room (at_target (attempt_of reloading 0)) reloading = Some 0"
  "rm_status (cw_rooms reloading ! 0) \<noteq> RoomDisconnected" "valid_target (at_target (attempt_of reloading 0))"
  "rm_mic (cw_rooms reloading ! 0)"
  by (code_simp+)

theorem call_survives_reload_witness:
  "\<exists>v. cw_active v = Some 0 \<and> at_target (attempt_of v 0) = ChannelCall 7 \<and> \<not> at_muted (attempt_of v 0)
    \<and> v = restoreCallAfterReload True (call_init (Some (at_identity (attempt_of reloading 0))) (Some demo_config) (cw_saved (prepareCallReload reloading)))"
proof -
  have "call_reach reloading"
    unfolding reloading_def by (rule call_run_reach[OF call_reach.start reloading_run(1)])
  from call_survives_reload[OF this reloading_run(2,3,4,6,7,8) refl] reloading_run(5,9) show ?thesis by simp
qed

section \<open>The address of the media server\<close>

lemma js_trim_ends: "js_trim s \<noteq> [] \<Longrightarrow> \<not> js_space (last (js_trim s))"
  unfolding js_trim_def last_rev by (metis hd_dropWhile rev.simps(1))

lemma js_trim_clean: "s \<noteq> [] \<Longrightarrow> \<not> js_space (hd s) \<Longrightarrow> \<not> js_space (last s) \<Longrightarrow> js_trim s = s"
proof -
  assume a: "s \<noteq> []" "\<not> js_space (hd s)" "\<not> js_space (last s)"
  have "dropWhile js_space s = s" using a by (cases s) auto
  moreover have "dropWhile js_space (rev s) = rev s" using a by (cases s rule: rev_cases) auto
  ultimately show ?thesis by (simp add: js_trim_def)
qed

lemma starts_with_split: "starts_with p s \<longleftrightarrow> (\<exists>t. s = p @ t)"
  by (metis append_eq_conv_conj append_take_drop_id starts_with_def)

lemma scheme_swap:
  assumes "starts_with ''http://'' n \<or> starts_with ''https://'' n \<or> starts_with ''ws://'' n \<or> starts_with ''wss://'' n"
    and "\<not> js_space (last n)"
  shows "\<exists>u. (if starts_with ''ws://'' n \<or> starts_with ''wss://'' n then n
      else if starts_with ''http://'' n then ''ws://'' @ drop 7 n
      else if starts_with ''https://'' n then ''wss://'' @ drop 8 n else n) = u
    \<and> (starts_with ''ws://'' u \<or> starts_with ''wss://'' u) \<and> \<not> js_space (last u)"
proof -
  have slash: "\<not> js_space (CHR ''/'')" by code_simp
  from assms show ?thesis by (auto simp: starts_with_split slash)
qed

text \<open>C27: Every join is given exactly one address and it is a web socket address: whatever the server
  configured (nothing, a path, a bare host, an http or a socket address, any of them padded), as long as the page itself was
  loaded over http or https; and passing an address through again leaves it alone.\<close>

theorem livekit_url_is_websocket:
  assumes "\<And>origin secure. win = Some (origin, secure) \<Longrightarrow> starts_with ''http://'' origin \<or> starts_with ''https://'' origin"
  shows "\<exists>u. buildLiveKitUrls win raw = [u] \<and> (starts_with ''ws://'' u \<or> starts_with ''wss://'' u) \<and> buildLiveKitUrls win' u = [u]"
proof -
  have again: "buildLiveKitUrls win' u = [u]" if "starts_with ''ws://'' u \<or> starts_with ''wss://'' u" and "\<not> js_space (last u)" for u
  proof -
    have "\<not> js_space (CHR ''w'')" by code_simp
    then have "js_trim u = u" using that by (intro js_trim_clean) (auto simp: starts_with_split)
    with that show ?thesis by (auto simp: buildLiveKitUrls_def normalizeLiveKitUrl_def Let_def starts_with_split)
  qed
  have "\<exists>u. normalizeLiveKitUrl win raw = u \<and> (starts_with ''ws://'' u \<or> starts_with ''wss://'' u) \<and> \<not> js_space (last u)"
  proof (cases "js_trim raw = []")
    case True
    have "\<not> js_space (CHR ''0'')" by code_simp
    with True show ?thesis by (simp add: normalizeLiveKitUrl_def starts_with_def)
  next
    case False
    let ?n = "if starts_with ''/'' (js_trim raw) then (case win of Some (origin, _) \<Rightarrow> origin @ js_trim raw | None \<Rightarrow> ''http://127.0.0.1:7880'' @ js_trim raw)
        else if starts_with ''//'' (js_trim raw) then (case win of Some (_, True) \<Rightarrow> ''https:'' @ js_trim raw | _ \<Rightarrow> ''http:'' @ js_trim raw)
        else if \<not> starts_with ''http://'' (js_trim raw) \<and> \<not> starts_with ''https://'' (js_trim raw)
            \<and> \<not> starts_with ''ws://'' (js_trim raw) \<and> \<not> starts_with ''wss://'' (js_trim raw) then ''http://'' @ js_trim raw
        else js_trim raw"
    have "starts_with ''http://'' ?n \<or> starts_with ''https://'' ?n \<or> starts_with ''ws://'' ?n \<or> starts_with ''wss://'' ?n"
      using assms by (auto simp: starts_with_split split: option.split)
    moreover have "\<not> js_space (last ?n)"
      using js_trim_ends[OF False] False by (simp split: option.split bool.split)
    ultimately show ?thesis
      using scheme_swap[of ?n] False unfolding normalizeLiveKitUrl_def Let_def by simp
  qed
  with again show ?thesis by (auto simp: buildLiveKitUrls_def)
qed

theorem livekit_url_is_websocket_witness:
  "(\<exists>u. buildLiveKitUrls (Some (''https://chat.test'', True)) '' /livekit '' = [u] \<and> (starts_with ''ws://'' u \<or> starts_with ''wss://'' u)
      \<and> buildLiveKitUrls None u = [u])
    \<and> buildLiveKitUrls (Some (''https://chat.test'', True)) '' /livekit '' = [''wss://chat.test/livekit'']"
proof
  show "\<exists>u. buildLiveKitUrls (Some (''https://chat.test'', True)) '' /livekit '' = [u] \<and> (starts_with ''ws://'' u \<or> starts_with ''wss://'' u)
      \<and> buildLiveKitUrls None u = [u]"
    by (rule livekit_url_is_websocket) (simp add: starts_with_def)
qed code_simp

section \<open>Where the promises stop\<close>

text \<open>The connection drops and comes back while the room of a call is still connecting: the server has swept its
  presence, the reconnect handler looks only at installed rooms, and the call goes on without a presence row.\<close>

lemma reconnect_while_joining_loses_presence:
  "let w = call_run None True (demo_joins @ [SocketLost, SocketBack True, reply, reply, reply, reply]) demo_calls in
   at_outcome (attempt_of w 0) = Some (Joined 0) \<and> vss_room (cw_voice w) = Some 0 \<and> cw_run w = None \<and> cw_presence w = {}"
  by code_simp

text \<open>A join that reaches the server and is reported as failed: nobody leaves.\<close>

lemma join_reported_failed_keeps_presence:
  "let w = call_run None True [UserJoins (ChannelCall 7) False False, reply, Settles True (Inl (plain_error ''timed out''))] demo_calls in
   cw_active w = None \<and> cw_run w = None \<and> cw_pendingLeaves w = [] \<and> cw_presence w = {target_key (ChannelCall 7)}"
  by code_simp

text \<open>A microphone that fails with an error named \<open>AbortError\<close>, as \<open>getUserMedia\<close> does when the device cannot start,
  ends the call, where any other failure joins listen-only.\<close>

definition mic_fails :: "string \<Rightarrow> call_event" where
  "mic_fails name = Settles False (Inl \<lparr>je_name = name, je_message = ''Starting the device failed''\<rparr>)"

lemma aborted_microphone_ends_call:
  "vss_room (cw_voice (call_run None True (demo_joins @ [reply, mic_fails ''NotReadableError'', reply]) demo_calls)) = Some 0
   \<and> cw_active (call_run None True (demo_joins @ [reply, mic_fails ''AbortError'', reply]) demo_calls) = None"
  by code_simp

text \<open>A protocol-relative address takes the branch of a path, and the origin of the page is put before it.\<close>

lemma protocol_relative_address_is_prefixed:
  "buildLiveKitUrls (Some (''https://chat.test'', True)) ''//lk.test/rtc'' = [''wss://chat.test//lk.test/rtc'']"
  by code_simp

end
