(* ===== verification/Uploads.thy ===== *)
theory Uploads
  imports CallText Composer
begin

text \<open>
  \<open>src/lib/uploads.ts\<close>.  First what only computes: types, messages, the reading of a storage reply.  Then the pool
  that sends the parts of a large file, and the life of an upload from its reservation to its confirmation.  Both
  are step functions: what an \<open>await\<close> waits for is an event with its result.  A call under
  \<open>withSessionTokenRetry\<close> is one such event.  The dash of a message is written as two hyphens.  \<open>host\<close> is the host of \<open>new URL(_)\<close>, \<open>None\<close> where it throws.
\<close>

section \<open>Types and messages\<close>

record upload_file =
  fl_name :: string
  fl_size :: int
  fl_type :: string

datatype upload_scope = ScopeChannel u64 | ScopeDm string | ScopeAvatar | ScopeIcon u64

text \<open>\<open>ue_full\<close> marks a \<open>StorageFullError\<close>.\<close>

record upload_error =
  ue_message :: string
  ue_full :: bool

definition upload_failure :: "string \<Rightarrow> upload_error" where
  "upload_failure m = \<lparr>ue_message = m, ue_full = False\<rparr>"

definition DEFAULT_MIME_TYPE :: string where "DEFAULT_MIME_TYPE = ''application/octet-stream''"
definition MAX_PARALLEL_PARTS :: nat where "MAX_PARALLEL_PARTS = 4"
definition FAST_PART_MS :: int where "FAST_PART_MS = 15000"

definition BLOCKED_MIME_PREFIXES :: "string list" where
  "BLOCKED_MIME_PREFIXES = [''application/x-msdownload'', ''application/x-executable'', ''application/x-sh'',
     ''application/x-bat'', ''application/x-msdos-program'', ''application/x-dosexec'']"

definition safeMimeType :: "upload_file \<Rightarrow> string" where
  "safeMimeType f = (let mimeType = js_lower (js_trim (fl_type f)) in if mimeType = [] then DEFAULT_MIME_TYPE else mimeType)"

definition isBlockedMimeType :: "string \<Rightarrow> bool" where
  "isBlockedMimeType m = (let normalized = js_lower (js_trim m) in list_ex (\<lambda>p. starts_with p normalized) BLOCKED_MIME_PREFIXES)"

definition buildUploadErrorMessage :: "string \<Rightarrow> upload_error \<Rightarrow> string" where
  "buildUploadErrorMessage name e =
     (if js_trim (ue_message e) \<noteq> [] then name @ '': '' @ ue_message e else name @ '': Upload failed.'')"

definition storageHost :: "(string \<Rightarrow> string option) \<Rightarrow> string \<Rightarrow> string" where
  "storageHost host u = (case host u of None \<Rightarrow> ''the storage host'' | Some h \<Rightarrow> h)"

text \<open>The first match of \<open><Code>([^<]+)</Code>\<close>.\<close>

definition code_here :: "string \<Rightarrow> string option" where
  "code_here s = (if \<not> starts_with ''<Code>'' s then None
     else let rest = drop 6 s; code = takeWhile (\<lambda>c. c \<noteq> CHR ''<'') rest in
       if code \<noteq> [] \<and> starts_with ''</Code>'' (drop (length code) rest) then Some code else None)"

fun storageErrorCode :: "string \<Rightarrow> string option" where
  "storageErrorCode [] = None"
| "storageErrorCode (c # cs) = (case code_here (c # cs) of Some code \<Rightarrow> Some code | None \<Rightarrow> storageErrorCode cs)"

text \<open>How a request to the storage ends.\<close>

datatype xhr_outcome = XhrError | XhrAbort | XhrLoad nat string

fun uploadFileToStorage :: "(string \<Rightarrow> string option) \<Rightarrow> string \<Rightarrow> xhr_outcome \<Rightarrow> upload_error option" where
  "uploadFileToStorage host u XhrError = Some (upload_failure (''Storage upload failed -- could not reach '' @ storageHost host u
     @ '' (network error, or the storage host rejected the CORS preflight; check MINIO_CORS_ALLOW_ORIGIN).''))"
| "uploadFileToStorage host u XhrAbort = Some (upload_failure ''Storage upload was cancelled.'')"
| "uploadFileToStorage host u (XhrLoad status text) =
     (if 200 \<le> status \<and> status < 300 then None
      else let code = storageErrorCode text in
        if status = 507 \<or> code = Some ''XMinioStorageFull'' then Some \<lparr>ue_message =
          ''Object storage is full. Please contact the instance administrator or retry after space is freed.'', ue_full = True\<rparr>
        else Some (upload_failure (case code of
          Some c \<Rightarrow> ''Storage upload failed ('' @ show_nat status @ '' '' @ c @ '') at '' @ storageHost host u @ ''.''
        | None \<Rightarrow> ''Storage upload failed ('' @ show_nat status @ '') at '' @ storageHost host u @ ''.'')))"

section \<open>The parts of a large file\<close>

datatype upload_mode = SingleUpload | MultipartUpload

record upload_request =
  rq_uploadId :: string
  rq_uploadUrl :: "string option"
  rq_expiresIn :: int
  rq_mode :: "upload_mode option"
  rq_partSizeBytes :: "int option"
  rq_partCount :: "int option"

text \<open>A running \<open>uploadPart\<close>: its number, how many attempts failed, and what it waits for: the address of the part, or
  the transfer with the bytes it has in \<open>inFlight\<close>.\<close>

datatype part_wait = AskingUrl | Sending "int option"

record part_task =
  pt_number :: int
  pt_attempt :: nat
  pt_wait :: part_wait

record upload_pool =
  up_size :: int
  up_partSize :: int
  up_count :: int
  up_completed :: "int list"
  up_pending :: "int list"
  up_active :: "part_task list"
  up_done :: int
  up_limit :: nat
  up_failure :: "upload_error option"
  up_reported :: "int list"
  up_stored :: "int list"

text \<open>\<open>up_reported\<close>: what \<open>onProgress\<close> was told, the last first; \<open>up_stored\<close>: the parts the storage has accepted.\<close>

text \<open>The size of a part's \<open>body\<close>, a slice of the file.\<close>

definition body_size :: "int \<Rightarrow> int \<Rightarrow> int \<Rightarrow> int" where
  "body_size fsize partSize n = (let start = (n - 1) * partSize in min fsize (start + partSize) - start)"

definition part_total :: "int \<Rightarrow> int \<Rightarrow> int" where
  "part_total fsize partSize = (fsize + partSize - 1) div partSize"

fun in_flight :: "part_task \<Rightarrow> int" where
  "in_flight t = (case pt_wait t of Sending (Some n) \<Rightarrow> n | _ \<Rightarrow> 0)"

definition pool_report :: "upload_pool \<Rightarrow> upload_pool" where
  "pool_report p = p\<lparr>up_reported := (up_done p + sum_list (map in_flight (up_active p))) # up_reported p\<rparr>"

text \<open>The inner loop that starts parts while there is room.\<close>

fun fill_active :: "nat \<Rightarrow> int list \<Rightarrow> part_task list \<Rightarrow> int list \<times> part_task list" where
  "fill_active limit [] active = ([], active)"
| "fill_active limit (n # ns) active = (if length active < limit
     then fill_active limit ns (active @ [\<lparr>pt_number = n, pt_attempt = 0, pt_wait = AskingUrl\<rparr>]) else (n # ns, active))"

definition pool_fill :: "upload_pool \<Rightarrow> upload_pool" where
  "pool_fill p = (if up_failure p \<noteq> None then p
     else case fill_active (up_limit p) (up_pending p) (up_active p) of (ns, ts) \<Rightarrow> p\<lparr>up_pending := ns, up_active := ts\<rparr>)"

text \<open>\<open>uploadMultipart\<close> up to its loop; \<open>completed\<close> is what the server has already.\<close>

definition part_params :: "int \<Rightarrow> upload_request \<Rightarrow> (int \<times> int) option" where
  "part_params fsize rq = (case (rq_partSizeBytes rq, rq_partCount rq) of
     (Some partSize, Some partCount) \<Rightarrow> if partSize = 0 \<or> partCount = 0 \<or> partSize \<le> 0 \<or> partCount \<noteq> part_total fsize partSize
       then None else Some (partSize, partCount)
   | _ \<Rightarrow> None)"

definition uploadMultipart :: "int \<Rightarrow> upload_request \<Rightarrow> int list \<Rightarrow> upload_error + upload_pool" where
  "uploadMultipart fsize rq completedParts = (case part_params fsize rq of
     None \<Rightarrow> Inl (upload_failure ''Server returned invalid multipart upload parameters.'')
   | Some (partSize, partCount) \<Rightarrow> let completed = remdups completedParts in
       if list_ex (\<lambda>n. n < 1 \<or> n > partCount) completed then Inl (upload_failure ''Server returned an invalid uploaded part.'')
       else let doneBytes = sum_list (map (\<lambda>n. min partSize (fsize - (n - 1) * partSize)) completed) in
         Inr (pool_fill \<lparr>up_size = fsize, up_partSize = partSize, up_count = partCount, up_completed = completed,
           up_pending = filter (\<lambda>n. n \<notin> set completed) [1..partCount], up_active = [], up_done = doneBytes, up_limit = 1,
           up_failure = None, up_reported = [doneBytes], up_stored = []\<rparr>))"

definition pool_task :: "int \<Rightarrow> upload_pool \<Rightarrow> part_task option" where
  "pool_task n p = find (\<lambda>t. pt_number t = n) (up_active p)"

definition set_task :: "int \<Rightarrow> (part_task \<Rightarrow> part_task) \<Rightarrow> upload_pool \<Rightarrow> upload_pool" where
  "set_task n f p = p\<lparr>up_active := map (\<lambda>t. if pt_number t = n then f t else t) (up_active p)\<rparr>"

text \<open>A task settles: \<open>finally\<close> takes it out and the loop goes on.\<close>

definition pool_settle :: "int \<Rightarrow> upload_pool \<Rightarrow> upload_pool" where
  "pool_settle n p = pool_fill (p\<lparr>up_active := filter (\<lambda>t. pt_number t \<noteq> n) (up_active p)\<rparr>)"

definition pool_fail :: "int \<Rightarrow> upload_error \<Rightarrow> upload_pool \<Rightarrow> upload_pool" where
  "pool_fail n e p = pool_settle n (p\<lparr>up_failure := (case up_failure p of None \<Rightarrow> Some e | Some f \<Rightarrow> Some f)\<rparr>)"

text \<open>The \<open>catch\<close> of an attempt and the condition of its loop.\<close>

definition attempt_fails :: "int \<Rightarrow> upload_error \<Rightarrow> upload_pool \<Rightarrow> upload_pool" where
  "attempt_fails n e p = (let p = p\<lparr>up_limit := 1\<rparr> in
     if ue_full e then pool_fail n e p
     else case pool_task n p of None \<Rightarrow> p
       | Some t \<Rightarrow> if pt_attempt t + 1 < 3 \<and> up_failure p = None
           then set_task n (\<lambda>t. t\<lparr>pt_attempt := pt_attempt t + 1, pt_wait := AskingUrl\<rparr>) p
           else pool_fail n e p)"

definition part_stored :: "int \<Rightarrow> bool \<Rightarrow> upload_pool \<Rightarrow> upload_pool" where
  "part_stored n fast p = (let bytes = body_size (up_size p) (up_partSize p) n;
     p = pool_report (set_task n (\<lambda>t. t\<lparr>pt_wait := Sending (Some bytes)\<rparr>) p);
     p = p\<lparr>up_limit := (if fast then min MAX_PARALLEL_PARTS (up_limit p + 1) else max 1 (up_limit p - 1))\<rparr>;
     p = set_task n (\<lambda>t. t\<lparr>pt_wait := Sending None\<rparr>) p
   in pool_settle n (pool_report (p\<lparr>up_done := up_done p + bytes, up_stored := n # up_stored p\<rparr>)))"

text \<open>\<open>PartUrl\<close>: the reply with the address; \<open>PartBytes\<close>: a progress event; \<open>PartPut\<close>: the transfer ends, after the given
  milliseconds.\<close>

datatype pool_event = PartUrl int "upload_error option" | PartBytes int int | PartPut int int "upload_error option"

fun pool_step :: "pool_event \<Rightarrow> upload_pool \<Rightarrow> upload_pool" where
  "pool_step (PartUrl n None) p = set_task n (\<lambda>t. t\<lparr>pt_wait := Sending None\<rparr>) p"
| "pool_step (PartUrl n (Some e)) p = attempt_fails n e p"
| "pool_step (PartBytes n loaded) p =
     pool_report (set_task n (\<lambda>t. t\<lparr>pt_wait := Sending (Some (min (body_size (up_size p) (up_partSize p) n) loaded))\<rparr>) p)"
| "pool_step (PartPut n ms None) p = part_stored n (ms < FAST_PART_MS) p"
| "pool_step (PartPut n ms (Some e)) p = attempt_fails n e p"

definition waits_for :: "int \<Rightarrow> (part_wait \<Rightarrow> bool) \<Rightarrow> upload_pool \<Rightarrow> bool" where
  "waits_for n q p = (case pool_task n p of None \<Rightarrow> False | Some t \<Rightarrow> q (pt_wait t))"

fun pool_may :: "pool_event \<Rightarrow> upload_pool \<Rightarrow> bool" where
  "pool_may (PartUrl n res) p = waits_for n (\<lambda>k. k = AskingUrl) p"
| "pool_may (PartBytes n loaded) p = (0 \<le> loaded \<and> waits_for n (\<lambda>k. k \<noteq> AskingUrl) p)"
| "pool_may (PartPut n ms res) p = waits_for n (\<lambda>k. k \<noteq> AskingUrl) p"

text \<open>The loop is over and \<open>Promise.all(active)\<close> has nothing to wait for.\<close>

definition pool_finished :: "upload_pool \<Rightarrow> bool" where
  "pool_finished p \<longleftrightarrow> (up_failure p \<noteq> None \<or> up_pending p = []) \<and> up_active p = []"

text \<open>The runs of the pool for a file with \<open>completed\<close> already there.\<close>

inductive pool_reach :: "int \<Rightarrow> upload_request \<Rightarrow> int list \<Rightarrow> upload_pool \<Rightarrow> bool" for fsize rq completed where
  start: "uploadMultipart fsize rq completed = Inr p \<Longrightarrow> pool_reach fsize rq completed p"
| step: "pool_reach fsize rq completed p \<Longrightarrow> pool_may e p \<Longrightarrow> pool_reach fsize rq completed (pool_step e p)"

section \<open>The life of an upload\<close>

text \<open>An entry of \<open>activeUploads\<close>; entries are objects, numbered in the order they are made.\<close>

record active_upload =
  au_file :: nat
  au_scope :: upload_scope
  au_request :: upload_request
  au_expiresAt :: int
  au_uploaded :: bool

text \<open>What a call of \<open>uploadSingleFile\<close> waits for: its reservation, the parts, the single transfer, the release after a
  failed transfer, the confirmation.\<close>

datatype upload_wait = UpRequest | UpParts nat | UpPut nat | UpAbort nat upload_error | UpConfirm nat
  | UpDone string | UpFailed upload_error

record upload_task =
  ut_file :: nat
  ut_scope :: upload_scope
  ut_wait :: upload_wait
  ut_stages :: "upload_stage list"

record upload_world =
  uw_files :: "upload_file list"
  uw_uploads :: "active_upload list"
  uw_current :: "(nat, nat) rec"
  uw_tasks :: "upload_task list"
  uw_cancels :: "(nat \<times> nat) list"
  uw_aborted :: "string list"
  uw_transfers :: "nat list"

text \<open>\<open>uw_current\<close> is \<open>activeUploads\<close>; \<open>uw_cancels\<close> the file and entry of every \<open>cancelUpload\<close> that waits;
  \<open>uw_aborted\<close> the reservations whose release was asked for; \<open>uw_transfers\<close> the entries whose transfer was started.\<close>

definition task_to :: "nat \<Rightarrow> (upload_task \<Rightarrow> upload_task) \<Rightarrow> upload_world \<Rightarrow> upload_world" where
  "task_to i f w = w\<lparr>uw_tasks := (uw_tasks w)[i := f (uw_tasks w ! i)]\<rparr>"

definition at_stage :: "nat \<Rightarrow> upload_stage \<Rightarrow> upload_world \<Rightarrow> upload_world" where
  "at_stage i s w = task_to i (\<lambda>t. t\<lparr>ut_stages := ut_stages t @ [s]\<rparr>) w"

definition wait_for :: "nat \<Rightarrow> upload_wait \<Rightarrow> upload_world \<Rightarrow> upload_world" where
  "wait_for i k w = task_to i (\<lambda>t. t\<lparr>ut_wait := k\<rparr>) w"

definition cancelUpload :: "nat \<Rightarrow> upload_world \<Rightarrow> upload_world" where
  "cancelUpload f w = (case map_of (uw_current w) f of None \<Rightarrow> w
     | Some a \<Rightarrow> w\<lparr>uw_cancels := uw_cancels w @ [(f, a)], uw_aborted := uw_aborted w @ [rq_uploadId (au_request (uw_uploads w ! a))]\<rparr>)"

text \<open>Its \<open>finally\<close>.\<close>

definition cancel_settled :: "nat \<Rightarrow> upload_world \<Rightarrow> upload_world" where
  "cancel_settled c w = (case uw_cancels w ! c of (f, a) \<Rightarrow>
     let w = w\<lparr>uw_cancels := take c (uw_cancels w) @ drop (Suc c) (uw_cancels w)\<rparr>
     in if map_of (uw_current w) f = Some a then w\<lparr>uw_current := rec_del f (uw_current w)\<rparr> else w)"

definition begin_confirm :: "nat \<Rightarrow> nat \<Rightarrow> upload_world \<Rightarrow> upload_world" where
  "begin_confirm i a w = wait_for i (UpConfirm a) (at_stage i StConfirming w)"

text \<open>From the stage \<open>uploading\<close> to the next \<open>await\<close>.\<close>

definition begin_transfer :: "nat \<Rightarrow> nat \<Rightarrow> upload_world \<Rightarrow> upload_world" where
  "begin_transfer i a w = (let u = uw_uploads w ! a; w = at_stage i StUploading w in
     if au_uploaded u then begin_confirm i a w
     else if rq_mode (au_request u) = Some MultipartUpload then wait_for i (UpParts a) (w\<lparr>uw_transfers := uw_transfers w @ [a]\<rparr>)
     else case rq_uploadUrl (au_request u) of
       None \<Rightarrow> wait_for i (UpFailed (upload_failure ''Server did not return an upload URL.'')) w
     | Some link \<Rightarrow> if link = [] then wait_for i (UpFailed (upload_failure ''Server did not return an upload URL.'')) w
         else wait_for i (UpPut a) (w\<lparr>uw_transfers := uw_transfers w @ [a]\<rparr>))"

definition uploadSingleFile :: "int \<Rightarrow> nat \<Rightarrow> upload_scope \<Rightarrow> upload_world \<Rightarrow> upload_world" where
  "uploadSingleFile now f scope w = (let file = uw_files w ! f; i = length (uw_tasks w);
     fresh = \<lambda>k stages. w\<lparr>uw_tasks := uw_tasks w @ [\<lparr>ut_file = f, ut_scope = scope, ut_wait = k, ut_stages = stages\<rparr>]\<rparr> in
     if fl_size file \<le> 0 then fresh (UpFailed (upload_failure ''File is empty.'')) []
     else if isBlockedMimeType (safeMimeType file) then fresh (UpFailed (upload_failure ''This file type is not allowed.'')) []
     else let w = fresh UpRequest [StRequesting] in
       case map_of (uw_current w) f of None \<Rightarrow> w
       | Some a \<Rightarrow> if au_scope (uw_uploads w ! a) \<noteq> scope \<or> au_expiresAt (uw_uploads w ! a) \<le> now
           then let w = cancelUpload f w in w\<lparr>uw_current := rec_del f (uw_current w)\<rparr>
           else begin_transfer i a w)"

definition request_replied :: "int \<Rightarrow> nat \<Rightarrow> upload_error + upload_request \<Rightarrow> upload_world \<Rightarrow> upload_world" where
  "request_replied now i res w = (let t = uw_tasks w ! i in case res of
     Inl e \<Rightarrow> wait_for i (UpFailed e) w
   | Inr rq \<Rightarrow> (let a = length (uw_uploads w);
       w = w\<lparr>uw_uploads := uw_uploads w @ [\<lparr>au_file = ut_file t, au_scope = ut_scope t, au_request = rq,
             au_expiresAt = now + rq_expiresIn rq * 1000 - 10000, au_uploaded = False\<rparr>]\<rparr>;
       w = (if rq_mode rq = Some MultipartUpload then w\<lparr>uw_current := rec_set (ut_file t) a (uw_current w)\<rparr> else w)
     in begin_transfer i a w))"

definition transfer_done :: "nat \<Rightarrow> nat \<Rightarrow> upload_world \<Rightarrow> upload_world" where
  "transfer_done i a w = begin_confirm i a (w\<lparr>uw_uploads := (uw_uploads w)[a := (uw_uploads w ! a)\<lparr>au_uploaded := True\<rparr>]\<rparr>)"

definition put_failed :: "nat \<Rightarrow> nat \<Rightarrow> upload_error \<Rightarrow> upload_world \<Rightarrow> upload_world" where
  "put_failed i a e w = wait_for i (UpAbort a e)
     (w\<lparr>uw_aborted := uw_aborted w @ [rq_uploadId (au_request (uw_uploads w ! a))]\<rparr>)"

definition confirmed :: "nat \<Rightarrow> string \<Rightarrow> upload_world \<Rightarrow> upload_world" where
  "confirmed i key w = wait_for i (UpDone key) (at_stage i StDone (w\<lparr>uw_current := rec_del (ut_file (uw_tasks w ! i)) (uw_current w)\<rparr>))"

text \<open>The reply to what call \<open>i\<close> waits for: an error, a reservation, or the storage key of the confirmation.\<close>

datatype upload_reply = ReplyError upload_error | ReplyReserved upload_request | ReplyOk string

fun upload_resume :: "int \<Rightarrow> nat \<Rightarrow> upload_reply \<Rightarrow> upload_wait \<Rightarrow> upload_world \<Rightarrow> upload_world" where
  "upload_resume now i (ReplyError e) UpRequest w = request_replied now i (Inl e) w"
| "upload_resume now i (ReplyReserved rq) UpRequest w = request_replied now i (Inr rq) w"
| "upload_resume now i (ReplyError e) (UpParts a) w = wait_for i (UpFailed e) w"
| "upload_resume now i (ReplyOk key) (UpParts a) w = transfer_done i a w"
| "upload_resume now i (ReplyError e) (UpPut a) w = put_failed i a e w"
| "upload_resume now i (ReplyOk key) (UpPut a) w = transfer_done i a w"
| "upload_resume now i reply (UpAbort a e) w = wait_for i (UpFailed e) w"
| "upload_resume now i (ReplyError e) (UpConfirm a) w = wait_for i (UpFailed e) w"
| "upload_resume now i (ReplyOk key) (UpConfirm a) w = confirmed i key w"
| "upload_resume now i reply k w = w"

datatype upload_event = UploadStarts int nat upload_scope | UploadReplied int nat upload_reply | UploadCancelled nat | CancelReplied nat

fun upload_step :: "upload_event \<Rightarrow> upload_world \<Rightarrow> upload_world" where
  "upload_step (UploadStarts now f scope) w = uploadSingleFile now f scope w"
| "upload_step (UploadReplied now i reply) w = upload_resume now i reply (ut_wait (uw_tasks w ! i)) w"
| "upload_step (UploadCancelled f) w = cancelUpload f w"
| "upload_step (CancelReplied c) w = cancel_settled c w"

fun upload_may :: "upload_event \<Rightarrow> upload_world \<Rightarrow> bool" where
  "upload_may (UploadStarts now f scope) w = (f < length (uw_files w))"
| "upload_may (UploadReplied now i reply) w = (i < length (uw_tasks w))"
| "upload_may (UploadCancelled f) w = (f < length (uw_files w))"
| "upload_may (CancelReplied c) w = (c < length (uw_cancels w))"

definition upload_init :: "upload_file list \<Rightarrow> upload_world" where
  "upload_init files = \<lparr>uw_files = files, uw_uploads = [], uw_current = [], uw_tasks = [], uw_cancels = [], uw_aborted = [],
     uw_transfers = []\<rparr>"

inductive upload_reach :: "upload_world \<Rightarrow> bool" where
  start: "upload_reach (upload_init files)"
| step: "upload_reach w \<Longrightarrow> upload_may e w \<Longrightarrow> upload_reach (upload_step e w)"

text \<open>\<open>uploadFiles\<close>: one file after the other, stopping at the first failure, whose message names the file.  \<open>outcome\<close> is
  how each \<open>uploadSingleFile\<close> ends.\<close>

fun uploadFiles :: "(upload_file \<Rightarrow> upload_error + 'a) \<Rightarrow> upload_file list \<Rightarrow> string + 'a list" where
  "uploadFiles outcome [] = Inr []"
| "uploadFiles outcome (f # fs) = (case outcome f of
     Inl e \<Rightarrow> Inl (buildUploadErrorMessage (fl_name f) e)
   | Inr a \<Rightarrow> (case uploadFiles outcome fs of Inl e \<Rightarrow> Inl e | Inr as \<Rightarrow> Inr (a # as)))"

end
