(* ===== verification/UploadFacts.thy ===== *)
theory UploadFacts
  imports Uploads
begin

text \<open>
  What the uploads of \<open>Uploads\<close> promise: the pool of a large file keeps every part accounted for, stays within its
  limit, reports no more than the file and ends; an upload is confirmed for the file and scope it was reserved for.
\<close>

section \<open>Sizes\<close>

lemma body_size_min: "body_size fsize ps n = min ps (fsize - (n - 1) * ps)"
  by (simp add: body_size_def Let_def min_def)

lemma part_total_less: "0 < ps \<Longrightarrow> n \<le> part_total fsize ps \<Longrightarrow> (n - 1) * ps < fsize"
proof -
  assume ps: "0 < ps" and n: "n \<le> part_total fsize ps"
  have "part_total fsize ps * ps \<le> fsize + ps - 1"
    using div_mult_mod_eq[of "fsize + ps - 1" ps] pos_mod_sign[OF ps, of "fsize + ps - 1"] unfolding part_total_def by linarith
  moreover have "n * ps \<le> part_total fsize ps * ps" using n ps by simp
  ultimately have "n * ps \<le> fsize + ps - 1" by linarith
  then show ?thesis by (simp add: left_diff_distrib)
qed

lemma part_total_enough: "0 < ps \<Longrightarrow> fsize \<le> part_total fsize ps * ps"
proof -
  assume ps: "0 < ps"
  have "fsize + ps - 1 = part_total fsize ps * ps + (fsize + ps - 1) mod ps"
    unfolding part_total_def by simp
  moreover have "(fsize + ps - 1) mod ps < ps" using ps by simp
  ultimately show ?thesis by linarith
qed

lemma body_size_pos: "0 < ps \<Longrightarrow> n \<le> part_total fsize ps \<Longrightarrow> 0 < body_size fsize ps n"
  using part_total_less[of ps n fsize] by (simp add: body_size_min)

lemma body_size_sum_to:
  assumes "0 < ps" and "int k \<le> part_total fsize ps" and "0 < fsize"
  shows "(\<Sum>n \<in> {1..int k}. body_size fsize ps n) = min fsize (int k * ps)"
  using assms(2)
proof (induction k)
  case 0
  then show ?case using assms by simp
next
  case (Suc k)
  have "{1..int (Suc k)} = insert (int (Suc k)) {1..int k}" by auto
  then have "(\<Sum>n \<in> {1..int (Suc k)}. body_size fsize ps n) = body_size fsize ps (int (Suc k)) + (\<Sum>n \<in> {1..int k}. body_size fsize ps n)"
    by simp
  moreover have "int k * ps < fsize" using part_total_less[OF assms(1) Suc.prems] by simp
  ultimately show ?case using Suc by (simp add: body_size_min algebra_simps min_def)
qed

lemma body_size_sum:
  assumes "0 < ps" and "0 < fsize"
  shows "(\<Sum>n \<in> {1..part_total fsize ps}. body_size fsize ps n) = fsize"
proof -
  have "0 \<le> part_total fsize ps" using assms by (simp add: part_total_def pos_imp_zdiv_nonneg_iff)
  with body_size_sum_to[OF assms(1) _ assms(2), of "nat (part_total fsize ps)"] part_total_enough[OF assms(1), of fsize]
  show ?thesis by simp
qed

lemma body_size_sum_list:
  assumes "0 < ps" and "0 < fsize" and "distinct ns" and "set ns \<subseteq> {1..part_total fsize ps}"
  shows "0 \<le> sum_list (map (body_size fsize ps) ns)" and "sum_list (map (body_size fsize ps) ns) \<le> fsize"
    and "set ns = {1..part_total fsize ps} \<Longrightarrow> sum_list (map (body_size fsize ps) ns) = fsize"
proof -
  have s: "sum_list (map (body_size fsize ps) ns) = sum (body_size fsize ps) (set ns)"
    using assms(3) by (simp add: sum_list_distinct_conv_sum_set)
  have pos: "0 \<le> body_size fsize ps n" if "n \<in> {1..part_total fsize ps}" for n
    using body_size_pos[OF assms(1), of n fsize] that by simp
  show "0 \<le> sum_list (map (body_size fsize ps) ns)" unfolding s using pos assms(4) by (intro sum_nonneg) blast
  have "sum (body_size fsize ps) (set ns) \<le> sum (body_size fsize ps) {1..part_total fsize ps}"
    using pos assms(4) by (intro sum_mono2) auto
  then show "sum_list (map (body_size fsize ps) ns) \<le> fsize" by (simp add: s body_size_sum[OF assms(1,2)])
  show "set ns = {1..part_total fsize ps} \<Longrightarrow> sum_list (map (body_size fsize ps) ns) = fsize"
    by (simp add: s body_size_sum[OF assms(1,2)])
qed

section \<open>The pool\<close>

definition new_part :: "int \<Rightarrow> part_task" where
  "new_part n = \<lparr>pt_number = n, pt_attempt = 0, pt_wait = AskingUrl\<rparr>"

lemma fill_active_take:
  "\<exists>k. fill_active limit ns ts = (drop k ns, ts @ map new_part (take k ns))
     \<and> (drop k ns = [] \<or> limit \<le> length ts + k) \<and> length ts + length (take k ns) \<le> max (length ts) limit"
proof (induction limit ns ts rule: fill_active.induct)
  case (2 limit n ns ts)
  show ?case
  proof (cases "length ts < limit")
    case True
    from 2[OF True] obtain k where "fill_active limit ns (ts @ [new_part n]) = (drop k ns, (ts @ [new_part n]) @ map new_part (take k ns))"
      "drop k ns = [] \<or> limit \<le> length ts + Suc k" "length ts + Suc (length (take k ns)) \<le> max (Suc (length ts)) limit"
      by (auto simp: new_part_def[symmetric])
    with True show ?thesis by (intro exI[of _ "Suc k"]) (auto simp: new_part_def[symmetric])
  next
    case False
    then show ?thesis by (intro exI[of _ 0]) auto
  qed
qed (intro exI[of _ 0], simp)

text \<open>All the parts the pool still knows of, in the order completed, stored, active, pending.\<close>

definition pool_parts :: "upload_pool \<Rightarrow> int list" where
  "pool_parts p = up_completed p @ up_stored p @ map pt_number (up_active p) @ up_pending p"

definition part_ok :: "int \<Rightarrow> int \<Rightarrow> part_task \<Rightarrow> bool" where
  "part_ok fsize ps t \<longleftrightarrow> 0 \<le> in_flight t \<and> in_flight t \<le> body_size fsize ps (pt_number t) \<and> pt_attempt t < 3"

definition pool_ok :: "upload_pool \<Rightarrow> bool" where
  "pool_ok p \<longleftrightarrow> 0 < up_partSize p \<and> 0 < up_size p \<and> up_count p = part_total (up_size p) (up_partSize p)
     \<and> distinct (pool_parts p) \<and> set (pool_parts p) \<subseteq> {1..part_total (up_size p) (up_partSize p)}
     \<and> (up_failure p = None \<longrightarrow> {1..part_total (up_size p) (up_partSize p)} \<subseteq> set (pool_parts p))
     \<and> 1 \<le> up_limit p \<and> up_limit p \<le> MAX_PARALLEL_PARTS \<and> length (up_active p) \<le> MAX_PARALLEL_PARTS
     \<and> up_done p = sum_list (map (body_size (up_size p) (up_partSize p)) (up_completed p @ up_stored p))
     \<and> (\<forall>t \<in> set (up_active p). part_ok (up_size p) (up_partSize p) t)
     \<and> (\<forall>r \<in> set (up_reported p). 0 \<le> r \<and> r \<le> up_size p)"

text \<open>While parts are left and nothing failed, something is active.\<close>

definition pool_busy :: "upload_pool \<Rightarrow> bool" where
  "pool_busy p \<longleftrightarrow> (up_failure p = None \<longrightarrow> up_pending p = [] \<or> up_active p \<noteq> [])"

lemma pool_fill_frame [simp]:
  "up_size (pool_fill p) = up_size p" "up_partSize (pool_fill p) = up_partSize p" "up_count (pool_fill p) = up_count p"
  "up_completed (pool_fill p) = up_completed p" "up_done (pool_fill p) = up_done p" "up_limit (pool_fill p) = up_limit p"
  "up_failure (pool_fill p) = up_failure p" "up_reported (pool_fill p) = up_reported p" "up_stored (pool_fill p) = up_stored p"
  by (simp_all add: pool_fill_def split: prod.split)

lemma pool_fill_cases:
  obtains (failed) "up_failure p \<noteq> None" "pool_fill p = p"
  | (filled) k where "up_failure p = None" "up_pending (pool_fill p) = drop k (up_pending p)"
      "up_active (pool_fill p) = up_active p @ map new_part (take k (up_pending p))"
      "drop k (up_pending p) = [] \<or> up_limit p \<le> length (up_active p) + k"
      "length (up_active p) + length (take k (up_pending p)) \<le> max (length (up_active p)) (up_limit p)"
proof (cases "up_failure p = None")
  case True
  from fill_active_take[of "up_limit p" "up_pending p" "up_active p"] True that(2) show thesis
    by (auto simp: pool_fill_def)
qed (use that(1) in \<open>simp add: pool_fill_def\<close>)

lemma pool_fill_parts [simp]: "pool_parts (pool_fill p) = pool_parts p"
  by (cases p rule: pool_fill_cases) (simp_all add: pool_parts_def new_part_def comp_def)

lemma new_part_ok: "0 \<le> body_size fsize ps n \<Longrightarrow> part_ok fsize ps (new_part n)"
  by (simp add: part_ok_def new_part_def)

lemma pool_ok_body: "pool_ok p \<Longrightarrow> n \<in> set (pool_parts p) \<Longrightarrow> 0 < body_size (up_size p) (up_partSize p) n"
  unfolding pool_ok_def by (intro body_size_pos) auto

lemma pool_fill_ok:
  assumes "pool_ok p"
  shows "pool_ok (pool_fill p)" and "pool_busy (pool_fill p)"
proof -
  have new: "part_ok (up_size p) (up_partSize p) (new_part n)" if "n \<in> set (up_pending p)" for n
    using pool_ok_body[OF assms, of n] that by (intro new_part_ok) (simp add: pool_parts_def)
  show "pool_ok (pool_fill p)"
  proof (cases p rule: pool_fill_cases)
    case (filled k)
    have "\<forall>t \<in> set (up_active (pool_fill p)). part_ok (up_size p) (up_partSize p) t"
      using assms new by (auto simp: filled(3) pool_ok_def dest: in_set_takeD)
    moreover have "length (up_active (pool_fill p)) \<le> MAX_PARALLEL_PARTS"
      using filled(5) assms unfolding filled(3) pool_ok_def by simp linarith
    ultimately show ?thesis using assms unfolding pool_ok_def pool_fill_frame pool_fill_parts by blast
  qed (use assms in simp)
  show "pool_busy (pool_fill p)"
  proof (cases p rule: pool_fill_cases)
    case (filled k)
    have "1 \<le> up_limit p" using assms by (simp add: pool_ok_def)
    with filled show ?thesis by (auto simp: pool_busy_def)
  qed (auto simp: pool_busy_def)
qed

lemma uploadMultipart_ok:
  assumes "uploadMultipart fsize rq completed = Inr p" and "0 < fsize"
  shows "pool_ok p" and "pool_busy p" and "up_completed p = remdups completed" and "up_size p = fsize"
proof -
  from assms(1) obtain ps k where ps: "part_params fsize rq = Some (ps, k)"
    and valid: "\<not> list_ex (\<lambda>n. n < 1 \<or> n > k) (remdups completed)"
    and p: "p = pool_fill \<lparr>up_size = fsize, up_partSize = ps, up_count = k, up_completed = remdups completed,
           up_pending = filter (\<lambda>n. n \<notin> set (remdups completed)) [1..k], up_active = [],
           up_done = sum_list (map (\<lambda>n. min ps (fsize - (n - 1) * ps)) (remdups completed)), up_limit = 1,
           up_failure = None, up_reported = [sum_list (map (\<lambda>n. min ps (fsize - (n - 1) * ps)) (remdups completed))], up_stored = []\<rparr>"
    (is "p = pool_fill ?q")
    by (auto simp: uploadMultipart_def Let_def split: option.splits if_splits)
  have k: "0 < ps" "k = part_total fsize ps"
    using ps by (auto simp: part_params_def split: option.splits if_splits)
  have in_range: "set (remdups completed) \<subseteq> {1..part_total fsize ps}"
    using valid k by (auto simp: list_ex_iff not_less)
  have bytes: "map (\<lambda>n. min ps (fsize - (n - 1) * ps)) ns = map (body_size fsize ps) ns" for ns by (simp add: body_size_min)
  have "pool_ok ?q"
    using k assms(2) in_range body_size_sum_list[OF k(1) assms(2) distinct_remdups in_range]
    by (auto simp: pool_ok_def pool_parts_def MAX_PARALLEL_PARTS_def bytes)
  with pool_fill_ok[OF this] show "pool_ok p" "pool_busy p" by (simp_all add: p)
  show "up_completed p = remdups completed" "up_size p = fsize" by (simp_all add: p)
qed


section \<open>A step keeps the parts\<close>

lemma pool_task_Some: "pool_task n p = Some t \<Longrightarrow> t \<in> set (up_active p) \<and> pt_number t = n"
  by (auto simp: pool_task_def find_Some_iff)

lemma set_task_frame [simp]:
  "up_size (set_task n f p) = up_size p" "up_partSize (set_task n f p) = up_partSize p" "up_count (set_task n f p) = up_count p"
  "up_completed (set_task n f p) = up_completed p" "up_pending (set_task n f p) = up_pending p" "up_done (set_task n f p) = up_done p"
  "up_limit (set_task n f p) = up_limit p" "up_failure (set_task n f p) = up_failure p" "up_reported (set_task n f p) = up_reported p"
  "up_stored (set_task n f p) = up_stored p" "length (up_active (set_task n f p)) = length (up_active p)"
  "up_active (set_task n f p) = [] \<longleftrightarrow> up_active p = []"
  by (simp_all add: set_task_def)

lemma set_task_parts: "(\<And>t. pt_number (f t) = pt_number t) \<Longrightarrow> pool_parts (set_task n f p) = pool_parts p"
  by (simp add: pool_parts_def set_task_def comp_def if_distrib cong: if_cong)

lemma set_task_ok:
  assumes "pool_ok p" and "\<And>t. pt_number (f t) = pt_number t"
    and "\<And>t. t \<in> set (up_active p) \<Longrightarrow> pt_number t = n \<Longrightarrow> part_ok (up_size p) (up_partSize p) (f t)"
  shows "pool_ok (set_task n f p)"
proof -
  have "\<forall>t \<in> set (up_active (set_task n f p)). part_ok (up_size p) (up_partSize p) t"
    using assms(1,3) by (auto simp: set_task_def pool_ok_def)
  with assms(1) set_task_parts[OF assms(2), of n p] show ?thesis unfolding pool_ok_def set_task_frame by metis
qed

lemma pool_bytes:
  assumes "pool_ok p"
  shows "0 \<le> up_done p + sum_list (map in_flight (up_active p))" and "up_done p + sum_list (map in_flight (up_active p)) \<le> up_size p"
proof -
  let ?ns = "up_completed p @ up_stored p @ map pt_number (up_active p)" and ?b = "body_size (up_size p) (up_partSize p)"
  have ok: "\<forall>t \<in> set (up_active p). 0 \<le> in_flight t \<and> in_flight t \<le> ?b (pt_number t)"
    using assms by (simp add: pool_ok_def part_ok_def)
  have "0 < up_partSize p" "0 < up_size p" "distinct ?ns" "set ?ns \<subseteq> {1..part_total (up_size p) (up_partSize p)}"
    using assms by (auto simp: pool_ok_def pool_parts_def)
  from body_size_sum_list(2)[OF this] have "sum_list (map ?b ?ns) \<le> up_size p" .
  moreover have "sum_list (map in_flight (up_active p)) \<le> sum_list (map (\<lambda>t. ?b (pt_number t)) (up_active p))"
    using ok by (intro sum_list_mono) auto
  moreover have done': "up_done p = sum_list (map ?b (up_completed p @ up_stored p))" using assms unfolding pool_ok_def by blast
  ultimately show "up_done p + sum_list (map in_flight (up_active p)) \<le> up_size p" by (simp add: comp_def)
  have "0 \<le> sum_list (map in_flight (up_active p))" using ok by (intro sum_list_nonneg) auto
  moreover have "0 \<le> sum_list (map ?b (up_completed p @ up_stored p))"
    using assms by (intro body_size_sum_list(1)) (auto simp: pool_ok_def pool_parts_def)
  ultimately show "0 \<le> up_done p + sum_list (map in_flight (up_active p))" unfolding done' by linarith
qed

lemma pool_report_ok: "pool_ok p \<Longrightarrow> pool_ok (pool_report p)"
  using pool_bytes[of p] by (auto simp: pool_report_def pool_ok_def pool_parts_def)

lemma pool_report_frame [simp]:
  "up_size (pool_report p) = up_size p" "up_partSize (pool_report p) = up_partSize p" "up_active (pool_report p) = up_active p"
  "up_failure (pool_report p) = up_failure p" "up_pending (pool_report p) = up_pending p" "up_limit (pool_report p) = up_limit p"
  "up_done (pool_report p) = up_done p" "up_stored (pool_report p) = up_stored p" "up_completed (pool_report p) = up_completed p"
  by (simp_all add: pool_report_def)

lemma limit_ok: "pool_ok p \<Longrightarrow> 1 \<le> l \<Longrightarrow> l \<le> MAX_PARALLEL_PARTS \<Longrightarrow> pool_ok (p\<lparr>up_limit := l\<rparr>)"
  by (simp add: pool_ok_def pool_parts_def)

lemma failed_settle_ok:
  assumes "pool_ok p"
  shows "pool_ok (pool_fail n e p)" and "pool_busy (pool_fail n e p)"
proof -
  let ?f = "case up_failure p of None \<Rightarrow> Some e | Some f \<Rightarrow> Some f"
  have sub: "length (filter (\<lambda>t. pt_number t \<noteq> n) (up_active p)) \<le> MAX_PARALLEL_PARTS"
    using assms(1) length_filter_le[of "\<lambda>t. pt_number t \<noteq> n" "up_active p"] unfolding pool_ok_def by linarith
  have "distinct (pool_parts (p\<lparr>up_failure := ?f, up_active := filter (\<lambda>t. pt_number t \<noteq> n) (up_active p)\<rparr>))"
    using assms by (auto simp: pool_ok_def pool_parts_def distinct_map_filter)
  moreover have "set (pool_parts (p\<lparr>up_failure := ?f, up_active := filter (\<lambda>t. pt_number t \<noteq> n) (up_active p)\<rparr>)) \<subseteq> set (pool_parts p)"
    by (auto simp: pool_parts_def)
  ultimately have "pool_ok (p\<lparr>up_failure := ?f, up_active := filter (\<lambda>t. pt_number t \<noteq> n) (up_active p)\<rparr>)"
    using assms sub unfolding pool_ok_def by (auto split: option.splits)
  from pool_fill_ok[OF this] show "pool_ok (pool_fail n e p)" "pool_busy (pool_fail n e p)"
    by (simp_all add: pool_fail_def pool_settle_def)
qed

lemma pool_task_limit [simp]: "pool_task n (p\<lparr>up_limit := l\<rparr>) = pool_task n p"
  by (simp add: pool_task_def)

lemma attempt_fails_ok:
  assumes "pool_ok p" and "pool_busy p"
  shows "pool_ok (attempt_fails n e p)" and "pool_busy (attempt_fails n e p)"
proof -
  let ?p = "p\<lparr>up_limit := 1\<rparr>"
  have p: "pool_ok ?p" using assms(1) by (intro limit_ok) (simp_all add: MAX_PARALLEL_PARTS_def)
  have again: "pool_ok (set_task n (\<lambda>t. t\<lparr>pt_attempt := pt_attempt t + 1, pt_wait := AskingUrl\<rparr>) ?p)"
    if "pool_task n p = Some t" "pt_attempt t + 1 < 3" for t
  proof (rule set_task_ok[OF p])
    fix t' assume t': "t' \<in> set (up_active ?p)" "pt_number t' = n"
    have "distinct (map pt_number (up_active p))" using assms(1) by (simp add: pool_ok_def pool_parts_def)
    moreover have "t \<in> set (up_active p)" "pt_number t = n" using pool_task_Some[OF that(1)] by simp_all
    ultimately have "t' = t" using t' by (auto simp: distinct_map dest: inj_onD)
    moreover have "0 < body_size (up_size p) (up_partSize p) n"
      using t' by (intro pool_ok_body[OF assms(1)]) (auto simp: pool_parts_def)
    ultimately show "part_ok (up_size ?p) (up_partSize ?p) (t'\<lparr>pt_attempt := pt_attempt t' + 1, pt_wait := AskingUrl\<rparr>)"
      using that(2) t' by (simp add: part_ok_def)
  qed simp
  show "pool_ok (attempt_fails n e p)"
    using p again failed_settle_ok(1)[OF p] by (simp add: attempt_fails_def Let_def split: option.split)
  show "pool_busy (attempt_fails n e p)"
    using failed_settle_ok(2)[OF p] assms(2) by (simp add: attempt_fails_def Let_def pool_busy_def split: option.split)
qed

lemma part_moves_ok:
  assumes "pool_ok p" and "t \<in> set (up_active p)" and "pt_number t = n"
  shows "pool_ok (p\<lparr>up_active := filter (\<lambda>t. pt_number t \<noteq> n) (up_active p), up_done := up_done p + body_size (up_size p) (up_partSize p) n,
    up_stored := n # up_stored p\<rparr>)" (is "pool_ok ?q")
proof -
  have n: "n \<in> pt_number ` set (up_active p)" using assms(2,3) by auto
  have d: "distinct (pool_parts ?q)"
    using assms(1) n by (auto simp: pool_ok_def pool_parts_def distinct_map_filter)
  have s: "set (pool_parts ?q) = set (pool_parts p)" using n by (auto simp: pool_parts_def)
  have sub: "length (filter (\<lambda>t. pt_number t \<noteq> n) (up_active p)) \<le> MAX_PARALLEL_PARTS"
    using assms(1) length_filter_le[of "\<lambda>t. pt_number t \<noteq> n" "up_active p"] unfolding pool_ok_def by linarith
  from assms(1) d s sub show ?thesis unfolding pool_ok_def by simp
qed

text \<open>A stored part, seen without the reports in between.\<close>

lemma part_stored_eq:
  "part_stored n fast p = (let b = body_size (up_size p) (up_partSize p) n;
     q = pool_report (set_task n (\<lambda>t. t\<lparr>pt_wait := Sending (Some b)\<rparr>) p);
     q = set_task n (\<lambda>t. t\<lparr>pt_wait := Sending None\<rparr>) (q\<lparr>up_limit := (if fast then min MAX_PARALLEL_PARTS (up_limit p + 1) else max 1 (up_limit p - 1))\<rparr>);
     r = up_done q + b + sum_list (map in_flight (up_active q))
   in pool_fill (q\<lparr>up_active := filter (\<lambda>t. pt_number t \<noteq> n) (up_active q), up_done := up_done q + b, up_stored := n # up_stored q,
        up_reported := r # up_reported q\<rparr>))"
  unfolding part_stored_def pool_settle_def Let_def
  by (intro arg_cong[of _ _ pool_fill] upload_pool.equality) (simp_all add: pool_report_def set_task_def)

lemma silent_task: "pt_number t = n \<Longrightarrow> pt_wait t = Sending None \<Longrightarrow> distinct (map pt_number ts) \<Longrightarrow> t \<in> set ts
   \<Longrightarrow> sum_list (map in_flight ts) = sum_list (map in_flight (filter (\<lambda>t. pt_number t \<noteq> n) ts))"
proof (induction ts)
  case (Cons u ts)
  show ?case
  proof (cases "t = u")
    case True
    with Cons.prems have "n \<notin> pt_number ` set ts" by auto
    then have "filter (\<lambda>t. pt_number t \<noteq> n) ts = ts" by (auto simp: filter_id_conv)
    with True Cons.prems show ?thesis by simp
  next
    case False
    with Cons show ?thesis by auto
  qed
qed simp

lemma part_stored_ok:
  assumes "pool_ok p" and "pool_task n p = Some t"
  shows "pool_ok (part_stored n fast p)" and "pool_busy (part_stored n fast p)"
proof -
  let ?b = "body_size (up_size p) (up_partSize p) n"
  define q1 where "q1 = pool_report (set_task n (\<lambda>t. t\<lparr>pt_wait := Sending (Some ?b)\<rparr>) p)"
  define q2 where "q2 = set_task n (\<lambda>t. t\<lparr>pt_wait := Sending None\<rparr>) (q1\<lparr>up_limit := (if fast then min MAX_PARALLEL_PARTS (up_limit p + 1) else max 1 (up_limit p - 1))\<rparr>)"
  have t: "t \<in> set (up_active p)" "pt_number t = n" using pool_task_Some[OF assms(2)] by simp_all
  have b: "0 < ?b" by (rule pool_ok_body[OF assms(1)]) (use t in \<open>auto simp: pool_parts_def\<close>)
  have "pool_ok q1" unfolding q1_def
    by (intro pool_report_ok set_task_ok assms(1)) (use b assms(1) in \<open>auto simp: part_ok_def pool_ok_def\<close>)
  then have q2: "pool_ok q2" unfolding q2_def
    by (intro set_task_ok limit_ok) (use b assms(1) in \<open>auto simp: part_ok_def pool_ok_def MAX_PARALLEL_PARTS_def q1_def set_task_def split: if_splits\<close>)
  have s2: "up_size q2 = up_size p" "up_partSize q2 = up_partSize p" by (simp_all add: q2_def q1_def)
  have t2: "t\<lparr>pt_wait := Sending None\<rparr> \<in> set (up_active q2)"
    using t by (force simp: q2_def q1_def set_task_def)
  have moved: "pool_ok (q2\<lparr>up_active := filter (\<lambda>t. pt_number t \<noteq> n) (up_active q2), up_done := up_done q2 + ?b, up_stored := n # up_stored q2\<rparr>)"
    using part_moves_ok[OF q2 t2] t(2) by (simp add: s2)
  have "sum_list (map in_flight (up_active q2)) = sum_list (map in_flight (filter (\<lambda>t. pt_number t \<noteq> n) (up_active q2)))"
    using q2 t2 t(2) by (intro silent_task[of "t\<lparr>pt_wait := Sending None\<rparr>"]) (auto simp: pool_ok_def pool_parts_def)
  with pool_report_ok[OF moved] have "pool_ok (q2\<lparr>up_active := filter (\<lambda>t. pt_number t \<noteq> n) (up_active q2), up_done := up_done q2 + ?b,
      up_stored := n # up_stored q2, up_reported := (up_done q2 + ?b + sum_list (map in_flight (up_active q2))) # up_reported q2\<rparr>)"
    by (simp add: pool_report_def)
  from pool_fill_ok[OF this] show "pool_ok (part_stored n fast p)" "pool_busy (part_stored n fast p)"
    unfolding part_stored_eq Let_def q1_def[symmetric] q2_def[symmetric] by this+
qed

lemma pool_step_ok:
  assumes "pool_ok p" and "pool_busy p" and "pool_may e p"
  shows "pool_ok (pool_step e p)" and "pool_busy (pool_step e p)"
proof -
  obtain n t where t: "pool_task n p = Some t" and e: "e = PartUrl n None \<or> (\<exists>x. e = PartUrl n (Some x)) \<or> (\<exists>k. e = PartBytes n k \<and> 0 \<le> k)
      \<or> (\<exists>ms. e = PartPut n ms None) \<or> (\<exists>ms x. e = PartPut n ms (Some x))"
    using assms(3) by (cases "(e, p)" rule: pool_step.cases) (auto simp: waits_for_def split: option.splits)
  have b: "0 < body_size (up_size p) (up_partSize p) n"
    by (rule pool_ok_body[OF assms(1)]) (use pool_task_Some[OF t] in \<open>auto simp: pool_parts_def\<close>)
  have sending: "pool_ok (set_task n (\<lambda>t. t\<lparr>pt_wait := Sending l\<rparr>) p)" if "\<And>k. l = Some k \<Longrightarrow> 0 \<le> k \<and> k \<le> body_size (up_size p) (up_partSize p) n" for l
    by (rule set_task_ok[OF assms(1)]) (use b that assms(1) in \<open>auto simp: part_ok_def pool_ok_def split: option.split\<close>)
  from e show "pool_ok (pool_step e p)"
    using b by (auto intro!: sending attempt_fails_ok(1)[OF assms(1,2)] part_stored_ok(1)[OF assms(1) t] pool_report_ok)
  from e show "pool_busy (pool_step e p)"
    using assms(2) by (auto intro!: attempt_fails_ok(2)[OF assms(1,2)] part_stored_ok(2)[OF assms(1) t]) (auto simp: pool_busy_def)
qed

lemma pool_reach_ok: "pool_reach fsize rq completed p \<Longrightarrow> 0 < fsize \<Longrightarrow> pool_ok p \<and> pool_busy p"
  by (induction rule: pool_reach.induct) (simp_all add: uploadMultipart_ok pool_step_ok)

section \<open>The pool ends\<close>

definition task_rank :: "part_task \<Rightarrow> nat" where
  "task_rank t = 2 * (3 - pt_attempt t) - (if pt_wait t = AskingUrl then 0 else 1)"

definition pool_work :: "upload_pool \<Rightarrow> nat" where
  "pool_work p = sum_list (map task_rank (up_active p)) + 7 * length (up_pending p)"

fun is_reply :: "pool_event \<Rightarrow> bool" where
  "is_reply (PartUrl n res) = True" | "is_reply (PartBytes n k) = False" | "is_reply (PartPut n ms res) = True"

lemma pool_fill_work: "pool_work (pool_fill p) \<le> pool_work p"
proof (cases p rule: pool_fill_cases)
  case (filled k)
  have w: "sum_list (map task_rank (map new_part ns)) = 6 * length ns" for ns by (induction ns) (auto simp: new_part_def task_rank_def)
  have "length (up_pending p) = length (take k (up_pending p)) + length (drop k (up_pending p))" by simp
  with w[of "take k (up_pending p)"] show ?thesis unfolding pool_work_def filled(2,3) map_append sum_list_append by linarith
qed simp

lemma sum_list_less:
  assumes "t \<in> set ts" and "(g (f t) :: nat) < g t" and "\<And>u. u \<in> set ts \<Longrightarrow> g (f u) \<le> g u"
  shows "sum_list (map g (map f ts)) < sum_list (map g ts)"
  using assms
proof (induction ts)
  case (Cons u ts)
  have rest: "sum_list (map g (map f ts)) \<le> sum_list (map g ts)"
    using Cons.prems(3) by (simp add: sum_list_mono comp_def)
  show ?case
  proof (cases "t = u")
    case False
    with Cons have "sum_list (map g (map f ts)) < sum_list (map g ts)" by simp
    then show ?thesis using Cons.prems(3)[of u] by simp
  qed (use Cons.prems(2) rest in simp)
qed simp

lemma task_unique:
  assumes "pool_ok p" and "pool_task n p = Some t" and "u \<in> set (up_active p)" and "pt_number u = n"
  shows "u = t"
proof -
  have "distinct (map pt_number (up_active p))" using assms(1) by (simp add: pool_ok_def pool_parts_def)
  with pool_task_Some[OF assms(2)] assms(3,4) show ?thesis by (auto simp: distinct_map dest: inj_onD)
qed

lemma set_task_work:
  assumes "pool_ok p" and "pool_task n p = Some t" and "task_rank (f t) < task_rank t"
  shows "pool_work (set_task n f p) < pool_work p"
proof -
  have t: "t \<in> set (up_active p)" "pt_number t = n" using pool_task_Some[OF assms(2)] by simp_all
  have le: "task_rank (if pt_number u = n then f u else u) \<le> task_rank u" if "u \<in> set (up_active p)" for u
    using task_unique[OF assms(1,2) that] assms(3) by (cases "pt_number u = n") auto
  have "sum_list (map task_rank (map (\<lambda>u. if pt_number u = n then f u else u) (up_active p))) < sum_list (map task_rank (up_active p))"
    by (rule sum_list_less[OF t(1)]) (use t(2) assms(3) le in auto)
  then show ?thesis by (simp add: pool_work_def set_task_def)
qed

lemma task_rank_pos: "pool_ok p \<Longrightarrow> pool_task n p = Some t \<Longrightarrow> 0 < task_rank t"
  using pool_task_Some[of n p t] by (auto simp: pool_ok_def part_ok_def task_rank_def)

lemma settle_work:
  assumes "pool_ok p" and "pool_task n p = Some t" and "map task_rank (filter (\<lambda>t. pt_number t \<noteq> n) (up_active q)) = map task_rank (filter (\<lambda>t. pt_number t \<noteq> n) (up_active p))"
    and "up_pending q = up_pending p"
  shows "pool_work (pool_settle n q) < pool_work p"
proof -
  have split_sum: "sum_list (map task_rank ts) = sum_list (map task_rank (filter P ts)) + sum_list (map task_rank (filter (\<lambda>t. \<not> P t) ts))" for P ts
    by (induction ts) auto
  have "t \<in> set (filter (\<lambda>t. \<not> pt_number t \<noteq> n) (up_active p))" using pool_task_Some[OF assms(2)] by simp
  then have "task_rank t \<le> sum_list (map task_rank (filter (\<lambda>t. \<not> pt_number t \<noteq> n) (up_active p)))"
    by (intro member_le_sum_list) auto
  then have "sum_list (map task_rank (filter (\<lambda>t. pt_number t \<noteq> n) (up_active p))) < sum_list (map task_rank (up_active p))"
    using task_rank_pos[OF assms(1,2)] split_sum[of "up_active p" "\<lambda>t. pt_number t \<noteq> n"] by linarith
  then have "pool_work (q\<lparr>up_active := filter (\<lambda>t. pt_number t \<noteq> n) (up_active q)\<rparr>) < pool_work p"
    by (simp add: pool_work_def assms(3,4))
  with pool_fill_work show ?thesis unfolding pool_settle_def by (rule le_less_trans)
qed

lemma attempt_fails_work:
  assumes "pool_ok p" and "pool_task n p = Some t"
  shows "pool_work (attempt_fails n e p) < pool_work p"
proof -
  have fail: "pool_work (pool_fail n e (p\<lparr>up_limit := 1\<rparr>)) < pool_work p"
    unfolding pool_fail_def by (rule settle_work[OF assms]) simp_all
  have "pool_ok (p\<lparr>up_limit := 1\<rparr>)" by (rule limit_ok[OF assms(1)]) (simp_all add: MAX_PARALLEL_PARTS_def)
  moreover have "pt_attempt t < 3" using pool_task_Some[OF assms(2)] assms(1) by (auto simp: pool_ok_def part_ok_def)
  ultimately have "pool_work (set_task n (\<lambda>t. t\<lparr>pt_attempt := pt_attempt t + 1, pt_wait := AskingUrl\<rparr>) (p\<lparr>up_limit := 1\<rparr>)) < pool_work (p\<lparr>up_limit := 1\<rparr>)"
    by (rule_tac t = t in set_task_work) (auto simp: assms(2) task_rank_def)
  then have "pool_work (set_task n (\<lambda>t. t\<lparr>pt_attempt := pt_attempt t + 1, pt_wait := AskingUrl\<rparr>) (p\<lparr>up_limit := 1\<rparr>)) < pool_work p"
    by (simp add: pool_work_def)
  with fail show ?thesis by (simp add: attempt_fails_def Let_def assms(2))
qed

lemma part_stored_work:
  assumes "pool_ok p" and "pool_task n p = Some t"
  shows "pool_work (part_stored n fast p) < pool_work p"
proof -
  have others: "map task_rank (filter (\<lambda>t. pt_number t \<noteq> n) (map (\<lambda>t. if pt_number t = n then f t else t) ts)) =
      map task_rank (filter (\<lambda>t. pt_number t \<noteq> n) ts)" if "\<And>t. pt_number (f t) = pt_number t" for f ts
    using that by (induction ts) auto
  show ?thesis
    unfolding part_stored_def Let_def
    by (rule settle_work[OF assms]) (simp_all add: pool_report_def set_task_def others del: map_map)
qed

lemma pool_step_work:
  assumes "pool_ok p" and "pool_may e p"
  shows "is_reply e \<Longrightarrow> pool_work (pool_step e p) < pool_work p" and "pool_work (pool_step e p) \<le> pool_work p"
proof -
  have url: "pool_work (set_task n (\<lambda>t. t\<lparr>pt_wait := Sending None\<rparr>) p) < pool_work p" if "pool_task n p = Some t" "pt_wait t = AskingUrl" for n t
    using pool_task_Some[OF that(1)] assms(1) that(2)
    by (intro set_task_work[OF assms(1) that(1)]) (auto simp: task_rank_def pool_ok_def part_ok_def)
  have bytes: "pool_work (pool_report (set_task n (\<lambda>t. t\<lparr>pt_wait := Sending l\<rparr>) p)) = pool_work p"
    if "pool_task n p = Some t" "pt_wait t \<noteq> AskingUrl" for n t l
  proof -
    have "map task_rank (map (\<lambda>u. if pt_number u = n then u\<lparr>pt_wait := Sending l\<rparr> else u) (up_active p)) = map task_rank (up_active p)"
      using task_unique[OF assms(1) that(1)] that(2) by (auto simp: task_rank_def)
    from arg_cong[OF this, of sum_list] show ?thesis by (simp add: pool_work_def pool_report_def set_task_def del: map_map)
  qed
  show less: "pool_work (pool_step e p) < pool_work p" if "is_reply e"
    using assms(2) that
    by (cases "(e, p)" rule: pool_step.cases)
      (auto simp: waits_for_def url attempt_fails_work[OF assms(1)] part_stored_work[OF assms(1)] split: option.splits)
  show "pool_work (pool_step e p) \<le> pool_work p"
  proof (cases "is_reply e")
    case False
    with assms(2) bytes show ?thesis by (cases e) (auto simp: waits_for_def split: option.splits)
  qed (simp add: less less_imp_le)
qed

fun pool_can :: "pool_event list \<Rightarrow> upload_pool \<Rightarrow> bool" where
  "pool_can [] p = True" | "pool_can (e # es) p = (pool_may e p \<and> pool_can es (pool_step e p))"

definition pool_run :: "pool_event list \<Rightarrow> upload_pool \<Rightarrow> upload_pool" where
  "pool_run es p = foldl (\<lambda>p e. pool_step e p) p es"

lemma pool_run_ok:
  "pool_ok p \<Longrightarrow> pool_busy p \<Longrightarrow> pool_can es p \<Longrightarrow> pool_ok (pool_run es p) \<and> pool_busy (pool_run es p)
     \<and> length (filter is_reply es) + pool_work (pool_run es p) \<le> pool_work p"
proof (induction es arbitrary: p)
  case (Cons e es)
  have e: "pool_may e p" "pool_can es (pool_step e p)" using Cons.prems(3) by simp_all
  from Cons.IH[OF pool_step_ok[OF Cons.prems(1,2) e(1)] e(2)] pool_step_work[OF Cons.prems(1) e(1)]
  show ?case by (auto simp: pool_run_def)
qed (simp add: pool_run_def)

lemma pool_run_reach: "pool_reach fsize rq completed p \<Longrightarrow> pool_can es p \<Longrightarrow> pool_reach fsize rq completed (pool_run es p)"
  by (induction es arbitrary: p) (auto simp: pool_run_def intro: pool_reach.step)

text \<open>When nothing is active and nothing failed, the last report was the whole of what is stored.\<close>

definition pool_told :: "upload_pool \<Rightarrow> bool" where
  "pool_told p \<longleftrightarrow> (up_failure p = None \<and> up_active p = [] \<longrightarrow> (\<exists>rs. up_reported p = up_done p # rs))"

lemma pool_fill_told: "(up_active p = [] \<Longrightarrow> \<exists>rs. up_reported p = up_done p # rs) \<Longrightarrow> pool_told (pool_fill p)"
  by (cases p rule: pool_fill_cases) (auto simp: pool_told_def)

lemma attempt_fails_told: "pool_told p \<Longrightarrow> pool_told (attempt_fails n e p)"
  by (auto simp: attempt_fails_def pool_fail_def pool_settle_def pool_told_def Let_def split: option.splits if_splits)

lemma silent_tasks:
  "filter (\<lambda>t. pt_number t \<noteq> n) (map (\<lambda>t. if pt_number t = n then t\<lparr>pt_wait := Sending None\<rparr> else t) ts) = []
   \<Longrightarrow> sum_list (map in_flight (map (\<lambda>t. if pt_number t = n then t\<lparr>pt_wait := Sending None\<rparr> else t) ts)) = 0"
  by (induction ts) (auto split: if_splits)

lemma part_stored_told: "pool_told (part_stored n fast p)"
proof -
  define q where "q = pool_report (set_task n (\<lambda>t. t\<lparr>pt_wait := Sending (Some (body_size (up_size p) (up_partSize p) n))\<rparr>) p)"
  show ?thesis
    unfolding part_stored_def Let_def pool_settle_def q_def[symmetric]
    by (rule pool_fill_told) (simp add: pool_report_def set_task_def silent_tasks del: map_map)
qed

lemma pool_step_told: "pool_told p \<Longrightarrow> pool_may e p \<Longrightarrow> pool_told (pool_step e p)"
proof (cases "(e, p)" rule: pool_step.cases)
  case (3 n loaded q)
  assume "pool_may e p"
  with 3 have "up_active p \<noteq> []" by (auto simp: waits_for_def pool_task_def split: option.splits)
  with 3 show ?thesis by (simp add: pool_told_def)
qed (auto simp: attempt_fails_told part_stored_told, simp add: pool_told_def)

lemma pool_reach_told: "pool_reach fsize rq completed p \<Longrightarrow> pool_told p"
proof (induction rule: pool_reach.induct)
  case (start p)
  then show ?case
    by (auto simp: uploadMultipart_def Let_def intro!: pool_fill_told split: option.splits if_splits)
qed (simp add: pool_step_told)

lemma pool_reach_source: "pool_reach fsize rq completed p \<Longrightarrow> 0 < fsize \<Longrightarrow> up_completed p = remdups completed \<and> up_size p = fsize"
proof (induction rule: pool_reach.induct)
  case (step p e)
  then show ?case
    by (cases "(e, p)" rule: pool_step.cases)
      (auto simp: attempt_fails_def part_stored_def pool_fail_def pool_settle_def Let_def split: option.split)
qed (simp add: uploadMultipart_ok)

section \<open>What the pool promises\<close>

text \<open>C28: A multipart upload that ends without an error has uploaded the whole file: every part the server did not report as
  complete was accepted by the storage exactly once, no other part was, and the bytes counted and last reported
  are the size of the file, whatever the order of the replies, the retries and the width of the pool.\<close>

theorem multipart_upload_complete:
  assumes "pool_reach fsize rq completed p" and "0 < fsize" and "pool_finished p" and "up_failure p = None"
  shows "distinct (up_stored p) \<and> set (up_stored p) = {1..up_count p} - set completed \<and> set completed \<subseteq> {1..up_count p}
    \<and> up_done p = fsize \<and> (\<exists>rs. up_reported p = fsize # rs)"
proof -
  have ok: "pool_ok p" and src: "up_completed p = remdups completed" "up_size p = fsize" and told: "pool_told p"
    using pool_reach_ok[OF assms(1,2)] pool_reach_source[OF assms(1,2)] pool_reach_told[OF assms(1)] by simp_all
  have parts: "pool_parts p = remdups completed @ up_stored p"
    using assms(3,4) src by (simp add: pool_finished_def pool_parts_def)
  have all: "set (remdups completed @ up_stored p) = {1..up_count p}" and d: "distinct (remdups completed @ up_stored p)"
    using ok assms(4) unfolding pool_ok_def parts by auto
  have "up_done p = sum_list (map (body_size fsize (up_partSize p)) (remdups completed @ up_stored p))"
    using ok by (simp add: pool_ok_def src)
  also have "\<dots> = fsize"
    using ok d all src by (intro body_size_sum_list(3)) (auto simp: pool_ok_def)
  finally have bytes: "up_done p = fsize" .
  moreover have "\<exists>rs. up_reported p = fsize # rs" using told assms(3,4) bytes by (auto simp: pool_told_def pool_finished_def)
  ultimately show ?thesis using d all by auto
qed

text \<open>C29: The pool stays within its bounds: at most four parts are in transfer, no part twice, every count of bytes the
  progress callback is given lies between zero and the size of the file, however the storage's progress events
  overshoot, and after a failure no further part is started.\<close>

theorem upload_pool_bounded:
  assumes "pool_reach fsize rq completed p" and "0 < fsize"
  shows "length (up_active p) \<le> 4 \<and> distinct (map pt_number (up_active p)) \<and> (\<forall>r \<in> set (up_reported p). 0 \<le> r \<and> r \<le> fsize)
    \<and> (up_failure p \<noteq> None \<longrightarrow> pool_may e p \<longrightarrow> pt_number ` set (up_active (pool_step e p)) \<subseteq> pt_number ` set (up_active p))"
proof -
  have ok: "pool_ok p" "up_size p = fsize" using pool_reach_ok[OF assms] pool_reach_source[OF assms] by simp_all
  have "pt_number ` set (up_active (pool_step e p)) \<subseteq> pt_number ` set (up_active p)" if "up_failure p \<noteq> None"
    using that by (cases "(e, p)" rule: pool_step.cases)
      (auto simp: attempt_fails_def part_stored_def pool_fail_def pool_settle_def pool_fill_def set_task_def pool_report_def Let_def
        split: option.split if_splits)
  with ok show ?thesis by (auto simp: pool_ok_def pool_parts_def MAX_PARALLEL_PARTS_def)
qed

text \<open>C30: A multipart upload always ends: from its start at most seven replies of the server and the storage can come for
  each part, however many progress events lie between them, and while the pool is not finished some reply is
  still to come.\<close>

theorem multipart_pool_ends:
  assumes "uploadMultipart fsize rq completed = Inr p" and "0 < fsize" and "pool_can es p"
  shows "length (filter is_reply es) \<le> 7 * nat (up_count p)
    \<and> (pool_finished (pool_run es p) \<or> (\<exists>e. is_reply e \<and> pool_may e (pool_run es p)))"
proof -
  have ok: "pool_ok p" "pool_busy p" using uploadMultipart_ok[OF assms(1,2)] by simp_all
  let ?v = "pool_run es p"
  have v: "pool_ok ?v" "pool_busy ?v" "length (filter is_reply es) \<le> pool_work p"
    using pool_run_ok[OF ok assms(3)] by simp_all
  have "pool_work p \<le> 7 * nat (up_count p)"
  proof -
    have "task_rank t \<le> 7" for t by (simp add: task_rank_def)
    then have "sum_list (map task_rank ts) \<le> 7 * length ts" for ts by (induction ts) (simp_all add: add_mono)
    note this[of "up_active p"]
    moreover have "length (pool_parts p) = card (set (pool_parts p))" using ok(1) by (simp add: pool_ok_def distinct_card)
    moreover have "card (set (pool_parts p)) \<le> card {1..up_count p}" using ok(1) by (intro card_mono) (simp_all add: pool_ok_def)
    ultimately show ?thesis by (simp add: pool_work_def pool_parts_def)
  qed
  moreover have "\<exists>e. is_reply e \<and> pool_may e ?v" if "\<not> pool_finished ?v"
  proof -
    from that v(2) have "up_active ?v \<noteq> []" by (auto simp: pool_finished_def pool_busy_def)
    then obtain t ts where t: "up_active ?v = t # ts" by (cases "up_active ?v") auto
    then have task: "pool_task (pt_number t) ?v = Some t" by (simp add: pool_task_def)
    show ?thesis
    proof (cases "pt_wait t")
      case AskingUrl
      with task have "pool_may (PartUrl (pt_number t) None) ?v" by (simp add: waits_for_def)
      then show ?thesis by (intro exI[of _ "PartUrl (pt_number t) None"]) simp
    next
      case (Sending l)
      with task have "pool_may (PartPut (pt_number t) 0 None) ?v" by (simp add: waits_for_def)
      then show ?thesis by (intro exI[of _ "PartPut (pt_number t) 0 None"]) simp
    qed
  qed
  ultimately show ?thesis using v(3) by (auto intro: order_trans)
qed

text \<open>Twenty-five bytes in parts of ten; the second part is there already, the first is refused once.\<close>

definition demo_request :: upload_request where
  "demo_request = \<lparr>rq_uploadId = ''u1'', rq_uploadUrl = None, rq_expiresIn = 900, rq_mode = Some MultipartUpload,
     rq_partSizeBytes = Some 10, rq_partCount = Some 3\<rparr>"

definition demo_pool :: upload_pool where
  "demo_pool = pool_fill \<lparr>up_size = 25, up_partSize = 10, up_count = 3, up_completed = [2], up_pending = [1, 3], up_active = [],
     up_done = 10, up_limit = 1, up_failure = None, up_reported = [10], up_stored = []\<rparr>"

definition demo_parts :: "pool_event list" where
  "demo_parts = [PartUrl 1 None, PartBytes 1 4, PartPut 1 20 (Some (upload_failure ''reset'')), PartUrl 1 None, PartBytes 1 99,
     PartPut 1 200 None, PartUrl 3 None, PartPut 3 200 None]"

lemma demo_pool_start: "uploadMultipart 25 demo_request [2] = Inr demo_pool"
  by code_simp

lemma demo_pool_run: "pool_can demo_parts demo_pool" "pool_finished (pool_run demo_parts demo_pool)"
  "up_failure (pool_run demo_parts demo_pool) = None" "length (filter is_reply demo_parts) = 6"
  "pool_can (take 2 demo_parts) demo_pool" "up_count (pool_run demo_parts demo_pool) = 3" "up_count demo_pool = 3"
  by (code_simp+)

lemma demo_pool_reach: "pool_can es demo_pool \<Longrightarrow> pool_reach 25 demo_request [2] (pool_run es demo_pool)"
  by (rule pool_run_reach[OF pool_reach.start[OF demo_pool_start]])

theorem multipart_upload_complete_witness:
  "set (up_stored (pool_run demo_parts demo_pool)) = {1, 3} \<and> up_done (pool_run demo_parts demo_pool) = 25"
proof -
  have "{1..3} - set [2] = {1, 3::int}" by auto
  with multipart_upload_complete[OF demo_pool_reach[OF demo_pool_run(1)] _ demo_pool_run(2,3)] show ?thesis
    unfolding demo_pool_run(6) by simp
qed

theorem upload_pool_bounded_witness:
  "length (up_active (pool_run (take 2 demo_parts) demo_pool)) \<le> 4
    \<and> distinct (map pt_number (up_active (pool_run (take 2 demo_parts) demo_pool)))
    \<and> up_reported (pool_run (take 2 demo_parts) demo_pool) = [14, 10]"
proof -
  have r: "up_reported (pool_run (take 2 demo_parts) demo_pool) = [14, 10]" by code_simp
  with upload_pool_bounded[OF demo_pool_reach[OF demo_pool_run(5)], of "PartUrl 1 None"] show ?thesis by simp
qed

theorem multipart_pool_ends_witness:
  "length (filter is_reply demo_parts) \<le> 21 \<and> length (filter is_reply demo_parts) = 6"
  using multipart_pool_ends[OF demo_pool_start _ demo_pool_run(1)] demo_pool_run(4,7) by simp

section \<open>An upload keeps to its reservation\<close>

definition sendable :: "upload_world \<Rightarrow> nat \<Rightarrow> bool" where
  "sendable w f \<longleftrightarrow> f < length (uw_files w) \<and> 0 < fl_size (uw_files w ! f) \<and> \<not> isBlockedMimeType (safeMimeType (uw_files w ! f))"

definition owns :: "upload_world \<Rightarrow> upload_task \<Rightarrow> nat \<Rightarrow> bool" where
  "owns w t a \<longleftrightarrow> a < length (uw_uploads w) \<and> au_file (uw_uploads w ! a) = ut_file t \<and> au_scope (uw_uploads w ! a) = ut_scope t"

definition sent :: "upload_world \<Rightarrow> nat \<Rightarrow> bool" where
  "sent w a \<longleftrightarrow> au_uploaded (uw_uploads w ! a) \<and> a \<in> set (uw_transfers w)"

fun wait_fine :: "upload_world \<Rightarrow> upload_task \<Rightarrow> upload_wait \<Rightarrow> bool" where
  "wait_fine w t UpRequest = sendable w (ut_file t)"
| "wait_fine w t (UpParts a) = (owns w t a \<and> a \<in> set (uw_transfers w))"
| "wait_fine w t (UpPut a) = (owns w t a \<and> a \<in> set (uw_transfers w))"
| "wait_fine w t (UpAbort a e) = owns w t a"
| "wait_fine w t (UpConfirm a) = (owns w t a \<and> sent w a)"
| "wait_fine w t (UpDone key) = (\<exists>a. owns w t a \<and> sent w a)"
| "wait_fine w t (UpFailed e) = True"

definition tasks_fine :: "upload_world \<Rightarrow> bool" where
  "tasks_fine w \<longleftrightarrow> (\<forall>t \<in> set (uw_tasks w). wait_fine w t (ut_wait t))"

definition current_fine :: "upload_world \<Rightarrow> bool" where
  "current_fine w \<longleftrightarrow> (\<forall>f a. map_of (uw_current w) f = Some a \<longrightarrow> a < length (uw_uploads w) \<and> au_file (uw_uploads w ! a) = f \<and> sendable w f)
     \<and> (\<forall>a < length (uw_uploads w). au_uploaded (uw_uploads w ! a) \<longrightarrow> a \<in> set (uw_transfers w))"

text \<open>Entries are added and marked as uploaded, nothing else.\<close>

definition later :: "upload_world \<Rightarrow> upload_world \<Rightarrow> bool" where
  "later w v \<longleftrightarrow> uw_files v = uw_files w \<and> length (uw_uploads w) \<le> length (uw_uploads v) \<and> set (uw_transfers w) \<subseteq> set (uw_transfers v)
     \<and> (\<forall>a < length (uw_uploads w). au_file (uw_uploads v ! a) = au_file (uw_uploads w ! a)
          \<and> au_scope (uw_uploads v ! a) = au_scope (uw_uploads w ! a) \<and> (au_uploaded (uw_uploads w ! a) \<longrightarrow> au_uploaded (uw_uploads v ! a)))"

lemma later_fine: "later w v \<Longrightarrow> wait_fine w t k \<Longrightarrow> wait_fine v t k"
proof -
  assume l: "later w v" and k: "wait_fine w t k"
  have "owns v t a \<and> (sent w a \<longrightarrow> sent v a)" if "owns w t a" for a using l that by (auto simp: later_def owns_def sent_def)
  with l k show ?thesis by (cases k) (auto simp: later_def sendable_def)
qed

lemma fine_frames [simp]:
  "sendable (task_to i f w) = sendable w" "owns (task_to i f w) = owns w" "sent (task_to i f w) = sent w"
  "wait_fine (task_to i f w) t k = wait_fine w t k" "current_fine (task_to i f w) = current_fine w"
  "length (uw_tasks (task_to i f w)) = length (uw_tasks w)" "uw_uploads (task_to i f w) = uw_uploads w"
  "uw_transfers (task_to i f w) = uw_transfers w" "uw_current (task_to i f w) = uw_current w" "uw_files (task_to i f w) = uw_files w"
proof -
  show "wait_fine (task_to i f w) t k = wait_fine w t k" by (cases k) (simp_all add: task_to_def owns_def sent_def sendable_def)
qed (simp_all add: task_to_def sendable_def owns_def sent_def current_fine_def fun_eq_iff)

lemma task_to_fine:
  assumes "tasks_fine w" and "i < length (uw_tasks w) \<Longrightarrow> wait_fine w (f (uw_tasks w ! i)) (ut_wait (f (uw_tasks w ! i)))"
  shows "tasks_fine (task_to i f w)"
  unfolding tasks_fine_def
proof
  fix t assume "t \<in> set (uw_tasks (task_to i f w))"
  then have "t \<in> set (uw_tasks w) \<or> i < length (uw_tasks w) \<and> t = f (uw_tasks w ! i)"
  proof (cases "i < length (uw_tasks w)")
    case True
    with \<open>t \<in> _\<close> set_update_subset_insert[of "uw_tasks w" i "f (uw_tasks w ! i)"] show ?thesis by (auto simp: task_to_def)
  next
    case False
    with \<open>t \<in> _\<close> show ?thesis by (simp add: task_to_def list_update_beyond not_less)
  qed
  with assms show "wait_fine (task_to i f w) t (ut_wait t)" by (auto simp: tasks_fine_def)
qed

lemma at_stage_fine [simp]: "tasks_fine w \<Longrightarrow> tasks_fine (at_stage i s w)" "current_fine (at_stage i s w) = current_fine w"
proof -
  have same: "wait_fine w (t\<lparr>ut_stages := ss\<rparr>) k = wait_fine w t k" for t ss k by (cases k) (simp_all add: owns_def)
  show "tasks_fine w \<Longrightarrow> tasks_fine (at_stage i s w)"
    unfolding at_stage_def by (rule task_to_fine) (auto simp: same tasks_fine_def)
  show "current_fine (at_stage i s w) = current_fine w" by (simp add: at_stage_def)
qed

lemma wait_fine_wait [simp]: "wait_fine w (t\<lparr>ut_wait := l\<rparr>) k = wait_fine w t k"
  by (cases k) (simp_all add: owns_def)

lemma wait_for_fine:
  "tasks_fine w \<Longrightarrow> (i < length (uw_tasks w) \<Longrightarrow> wait_fine w (uw_tasks w ! i) k) \<Longrightarrow> tasks_fine (wait_for i k w)"
  "current_fine (wait_for i k w) = current_fine w"
  unfolding wait_for_def by (rule task_to_fine) simp_all

lemma later_tasks: "later w v \<Longrightarrow> tasks_fine w \<Longrightarrow> uw_tasks v = uw_tasks w \<Longrightarrow> tasks_fine v"
  using later_fine by (auto simp: tasks_fine_def)

lemma stage_tasks [simp]:
  "uw_uploads (at_stage i s w) = uw_uploads w" "length (uw_tasks (at_stage i s w)) = length (uw_tasks w)"
  "wait_fine (at_stage i s w) t k = wait_fine w t k" "uw_transfers (at_stage i s w) = uw_transfers w"
  by (simp_all add: at_stage_def)

lemma stage_task [simp]: "i < length (uw_tasks w) \<Longrightarrow> uw_tasks (at_stage i s w) ! i = (uw_tasks w ! i)\<lparr>ut_stages := ut_stages (uw_tasks w ! i) @ [s]\<rparr>"
  by (simp add: at_stage_def task_to_def)

lemma wait_fine_stages [simp]: "wait_fine w (t\<lparr>ut_stages := ss\<rparr>) k = wait_fine w t k"
  by (cases k) (simp_all add: owns_def)

lemma owns_stages [simp]: "owns w (t\<lparr>ut_stages := ss\<rparr>) a = owns w t a" "owns (at_stage i s w) = owns w" "sent (at_stage i s w) = sent w"
  by (simp_all add: owns_def at_stage_def)

definition upload_inv :: "upload_world \<Rightarrow> bool" where
  "upload_inv w \<longleftrightarrow> tasks_fine w \<and> current_fine w"

lemma begin_confirm_inv:
  assumes "upload_inv w" and "i < length (uw_tasks w)" and "owns w (uw_tasks w ! i) a" and "sent w a"
  shows "upload_inv (begin_confirm i a w)"
  using assms by (auto simp: upload_inv_def begin_confirm_def wait_for_fine(2) intro!: wait_for_fine(1))

lemma transfers_later: "later w (w\<lparr>uw_transfers := uw_transfers w @ as\<rparr>)"
  by (auto simp: later_def)

lemma begin_transfer_inv:
  assumes "upload_inv w" and "i < length (uw_tasks w)" and "owns w (uw_tasks w ! i) a"
  shows "upload_inv (begin_transfer i a w)"
proof -
  let ?w = "at_stage i StUploading w" and ?v = "(at_stage i StUploading w)\<lparr>uw_transfers := uw_transfers w @ [a]\<rparr>"
  have w: "upload_inv ?w" "owns ?w (uw_tasks ?w ! i) a" using assms by (simp_all add: upload_inv_def)
  have v: "upload_inv ?v"
    using w later_tasks[OF transfers_later[of ?w "[a]"]] by (auto simp: upload_inv_def current_fine_def sendable_def)
  have failed: "upload_inv (wait_for i (UpFailed e) ?w)" for e
    using w by (auto simp: upload_inv_def wait_for_fine(2) intro!: wait_for_fine(1))
  have going: "upload_inv (wait_for i k ?v)" if "k = UpParts a \<or> k = UpPut a" for k
    using v w(2) that by (auto simp: upload_inv_def wait_for_fine(2) owns_def intro!: wait_for_fine(1))
  have confirm: "upload_inv (begin_confirm i a ?w)" if "au_uploaded (uw_uploads w ! a)"
    using w assms that by (intro begin_confirm_inv) (auto simp: upload_inv_def current_fine_def sent_def owns_def)
  show ?thesis
    unfolding begin_transfer_def Let_def using failed going[of "UpParts a"] going[of "UpPut a"] confirm by (simp split: option.split)
qed

lemma append_upload:
  assumes "upload_inv w" and "\<not> au_uploaded u"
  shows "upload_inv (w\<lparr>uw_uploads := uw_uploads w @ [u]\<rparr>)" (is "upload_inv ?v")
proof -
  have "later w ?v" by (auto simp: later_def nth_append)
  moreover have "current_fine ?v"
    unfolding current_fine_def
  proof (intro conjI allI impI)
    fix a assume "a < length (uw_uploads ?v)" "au_uploaded (uw_uploads ?v ! a)"
    then show "a \<in> set (uw_transfers ?v)"
      using assms by (cases "a < length (uw_uploads w)") (auto simp: upload_inv_def current_fine_def nth_append not_less)
  qed (use assms(1) in \<open>auto simp: upload_inv_def current_fine_def nth_append sendable_def less_Suc_eq\<close>)
  ultimately show ?thesis using assms(1) later_tasks[of w ?v] by (simp add: upload_inv_def)
qed

lemma current_set:
  assumes "upload_inv w" and "a < length (uw_uploads w)" and "au_file (uw_uploads w ! a) = f" and "sendable w f"
  shows "upload_inv (w\<lparr>uw_current := rec_set f a (uw_current w)\<rparr>)" (is "upload_inv ?v")
proof -
  have "later w ?v" by (simp add: later_def)
  moreover have "current_fine ?v" using assms by (simp add: upload_inv_def current_fine_def sendable_def)
  ultimately show ?thesis using assms(1) later_tasks[of w ?v] by (simp add: upload_inv_def)
qed

lemma request_replied_inv:
  assumes "upload_inv w" and "i < length (uw_tasks w)" and "sendable w (ut_file (uw_tasks w ! i))"
  shows "upload_inv (request_replied now i res w)"
proof (cases res)
  case (Inl e)
  with assms(1) show ?thesis by (auto simp: request_replied_def upload_inv_def wait_for_fine(2) intro!: wait_for_fine(1))
next
  case (Inr rq)
  let ?t = "uw_tasks w ! i" and ?a = "length (uw_uploads w)"
  define u where "u = \<lparr>au_file = ut_file ?t, au_scope = ut_scope ?t, au_request = rq, au_expiresAt = now + rq_expiresIn rq * 1000 - 10000, au_uploaded = False\<rparr>"
  define v where "v = w\<lparr>uw_uploads := uw_uploads w @ [u]\<rparr>"
  define v2 where "v2 = (if rq_mode rq = Some MultipartUpload then v\<lparr>uw_current := rec_set (ut_file ?t) ?a (uw_current v)\<rparr> else v)"
  have v: "upload_inv v" unfolding v_def by (rule append_upload[OF assms(1)]) (simp add: u_def)
  have "upload_inv v2"
    unfolding v2_def using v current_set[OF v, of ?a "ut_file ?t"] assms(3) by (simp add: v_def u_def sendable_def)
  moreover have "owns v2 ?t ?a" by (simp add: owns_def v2_def v_def u_def)
  moreover have "uw_tasks v2 = uw_tasks w" by (simp add: v2_def v_def)
  ultimately have "upload_inv (begin_transfer i ?a v2)" using assms(2) by (intro begin_transfer_inv) simp_all
  then show ?thesis unfolding request_replied_def Inr Let_def v2_def v_def u_def by simp
qed

lemma transfer_done_inv:
  assumes "upload_inv w" and "i < length (uw_tasks w)" and "owns w (uw_tasks w ! i) a" and "a \<in> set (uw_transfers w)"
  shows "upload_inv (transfer_done i a w)"
proof -
  let ?v = "w\<lparr>uw_uploads := (uw_uploads w)[a := (uw_uploads w ! a)\<lparr>au_uploaded := True\<rparr>]\<rparr>"
  have a: "a < length (uw_uploads w)" using assms(3) by (simp add: owns_def)
  have "au_file (uw_uploads ?v ! b) = au_file (uw_uploads w ! b) \<and> au_scope (uw_uploads ?v ! b) = au_scope (uw_uploads w ! b)
      \<and> (au_uploaded (uw_uploads w ! b) \<longrightarrow> au_uploaded (uw_uploads ?v ! b))" for b
    using a by (cases "b = a") simp_all
  then have l: "later w ?v" by (simp add: later_def)
  have "tasks_fine ?v" by (rule later_tasks[OF l]) (use assms(1) in \<open>simp_all add: upload_inv_def\<close>)
  moreover have "current_fine ?v"
    unfolding current_fine_def
  proof (intro conjI allI impI)
    fix b assume "b < length (uw_uploads ?v)" "au_uploaded (uw_uploads ?v ! b)"
    then show "b \<in> set (uw_transfers ?v)" using assms(1,4) by (cases "b = a") (auto simp: upload_inv_def current_fine_def)
  next
    fix f b assume "map_of (uw_current ?v) f = Some b"
    then have "b < length (uw_uploads w) \<and> au_file (uw_uploads w ! b) = f \<and> sendable w f"
      using assms(1) by (simp add: upload_inv_def current_fine_def)
    then show "b < length (uw_uploads ?v)" "au_file (uw_uploads ?v ! b) = f" "sendable ?v f"
      by (cases "b = a"; simp add: sendable_def)+
  qed
  moreover have "owns ?v (uw_tasks ?v ! i) a" "sent ?v a" using assms(3,4) by (simp_all add: owns_def sent_def)
  ultimately show ?thesis unfolding transfer_done_def using assms(2) by (intro begin_confirm_inv) (simp_all add: upload_inv_def)
qed

lemma current_del: "upload_inv w \<Longrightarrow> upload_inv (w\<lparr>uw_current := rec_del f (uw_current w)\<rparr>)"
  using later_tasks[of w "w\<lparr>uw_current := rec_del f (uw_current w)\<rparr>"]
  by (auto simp: upload_inv_def current_fine_def later_def sendable_def)

lemma cancelUpload_inv: "upload_inv w \<Longrightarrow> upload_inv (cancelUpload f w)"
  using later_tasks[of w "cancelUpload f w"]
  by (auto simp: upload_inv_def current_fine_def later_def sendable_def cancelUpload_def split: option.splits)

lemma cancels_frame [simp]: "upload_inv (w\<lparr>uw_cancels := cs\<rparr>) = upload_inv w"
proof -
  have "wait_fine (w\<lparr>uw_cancels := cs\<rparr>) t k = wait_fine w t k" for t k by (cases k) (simp_all add: owns_def sent_def sendable_def)
  then show ?thesis by (simp add: upload_inv_def tasks_fine_def current_fine_def sendable_def)
qed

lemma cancel_settled_inv: "upload_inv w \<Longrightarrow> upload_inv (cancel_settled c w)"
  using current_del[of "w\<lparr>uw_cancels := take c (uw_cancels w) @ drop (Suc c) (uw_cancels w)\<rparr>" "fst (uw_cancels w ! c)"]
  by (cases "uw_cancels w ! c") (simp add: cancel_settled_def Let_def)

lemma new_task_inv:
  assumes "upload_inv w" and "wait_fine w t (ut_wait t)"
  shows "upload_inv (w\<lparr>uw_tasks := uw_tasks w @ [t]\<rparr>)"
proof -
  have "wait_fine (w\<lparr>uw_tasks := ts\<rparr>) u k = wait_fine w u k" for u k ts by (cases k) (simp_all add: owns_def sent_def sendable_def)
  with assms show ?thesis by (auto simp: upload_inv_def tasks_fine_def current_fine_def sendable_def)
qed

lemma uploadSingleFile_inv:
  assumes "upload_inv w" and "f < length (uw_files w)"
  shows "upload_inv (uploadSingleFile now f scope w)"
proof -
  let ?t = "\<lambda>k ss. \<lparr>ut_file = f, ut_scope = scope, ut_wait = k, ut_stages = ss\<rparr>"
  have failed: "upload_inv (w\<lparr>uw_tasks := uw_tasks w @ [?t (UpFailed e) []]\<rparr>)" for e
    by (rule new_task_inv[OF assms(1)]) simp
  let ?v = "w\<lparr>uw_tasks := uw_tasks w @ [?t UpRequest [StRequesting]]\<rparr>"
  have v: "upload_inv ?v" if "0 < fl_size (uw_files w ! f)" "\<not> isBlockedMimeType (safeMimeType (uw_files w ! f))"
    by (rule new_task_inv[OF assms(1)]) (use that assms(2) in \<open>simp add: sendable_def\<close>)
  have "upload_inv (begin_transfer (length (uw_tasks w)) a ?v)"
    if "upload_inv ?v" "map_of (uw_current w) f = Some a" "au_scope (uw_uploads w ! a) = scope" for a
    using that assms(1) by (intro begin_transfer_inv) (auto simp: owns_def upload_inv_def current_fine_def)
  then show ?thesis
    using v failed current_del[OF cancelUpload_inv[of ?v f]] by (simp add: uploadSingleFile_def Let_def split: option.split)
qed

lemma upload_step_inv:
  assumes "upload_inv w" and "upload_may e w"
  shows "upload_inv (upload_step e w)"
proof (cases e)
  case (UploadReplied now i reply)
  then have i: "i < length (uw_tasks w)" using assms(2) by simp
  have fine: "wait_fine w (uw_tasks w ! i) (ut_wait (uw_tasks w ! i))"
    using assms(1) i by (simp add: upload_inv_def tasks_fine_def)
  have end_with: "upload_inv (wait_for i k v)" if "upload_inv v" "uw_tasks v = uw_tasks w" "wait_fine v (uw_tasks w ! i) k" for k v
    using that i by (auto simp: upload_inv_def wait_for_fine(2) intro!: wait_for_fine(1))
  have aborted: "upload_inv (w\<lparr>uw_aborted := as\<rparr>)" "owns (w\<lparr>uw_aborted := as\<rparr>) = owns w" for as
    using assms(1) later_tasks[of w "w\<lparr>uw_aborted := as\<rparr>"]
    by (auto simp: upload_inv_def current_fine_def later_def sendable_def owns_def fun_eq_iff)
  have del: "sent (w\<lparr>uw_current := c\<rparr>) = sent w" "owns (w\<lparr>uw_current := c\<rparr>) = owns w" for c by (simp_all add: owns_def sent_def fun_eq_iff)
  have confirmed: "upload_inv (confirmed i key w)" if "wait_fine w (uw_tasks w ! i) (UpDone key)" for key
  proof -
    let ?v = "at_stage i StDone (w\<lparr>uw_current := rec_del (ut_file (uw_tasks w ! i)) (uw_current w)\<rparr>)"
    have "upload_inv ?v" using current_del[OF assms(1)] by (simp add: upload_inv_def)
    then show ?thesis unfolding confirmed_def using that i
      by (auto simp: upload_inv_def wait_for_fine(2) del intro!: wait_for_fine(1))
  qed
  show ?thesis
    unfolding UploadReplied upload_step.simps using fine i
    by (cases "(now, i, reply, ut_wait (uw_tasks w ! i), w)" rule: upload_resume.cases)
      (auto simp: put_failed_def aborted assms(1) intro!: request_replied_inv[OF assms(1) i] transfer_done_inv[OF assms(1) i] end_with confirmed)
next
  case (UploadStarts now f scope)
  with assms show ?thesis by (simp add: uploadSingleFile_inv)
qed (use assms(1) in \<open>simp_all add: cancelUpload_inv cancel_settled_inv\<close>)

lemma upload_reach_inv: "upload_reach w \<Longrightarrow> upload_inv w"
  by (induction rule: upload_reach.induct)
    (simp_all add: upload_step_inv, simp add: upload_inv_def upload_init_def tasks_fine_def current_fine_def)

text \<open>C31: An upload is confirmed only for what it reserved and sent: a call that confirms, or has confirmed, does so for a
  reservation made for its own file and its own scope, whose transfer was started and completed, however calls,
  retries and cancellations of the same file interleave; and calling again for a file whose parts were already sent
  in this scope, while the reservation lasts, confirms without sending anything again.\<close>

theorem upload_confirms_own_reservation:
  assumes "upload_reach w"
  shows "(\<forall>i a. i < length (uw_tasks w) \<longrightarrow> ut_wait (uw_tasks w ! i) = UpConfirm a \<longrightarrow>
        au_file (uw_uploads w ! a) = ut_file (uw_tasks w ! i) \<and> au_scope (uw_uploads w ! a) = ut_scope (uw_tasks w ! i)
        \<and> au_uploaded (uw_uploads w ! a) \<and> a \<in> set (uw_transfers w))
    \<and> (\<forall>i key. i < length (uw_tasks w) \<longrightarrow> ut_wait (uw_tasks w ! i) = UpDone key \<longrightarrow>
        (\<exists>a < length (uw_uploads w). au_file (uw_uploads w ! a) = ut_file (uw_tasks w ! i)
          \<and> au_scope (uw_uploads w ! a) = ut_scope (uw_tasks w ! i) \<and> au_uploaded (uw_uploads w ! a)))
    \<and> (\<forall>f a now. map_of (uw_current w) f = Some a \<longrightarrow> au_uploaded (uw_uploads w ! a) \<longrightarrow> now < au_expiresAt (uw_uploads w ! a) \<longrightarrow>
        (let v = uploadSingleFile now f (au_scope (uw_uploads w ! a)) w
         in ut_wait (last (uw_tasks v)) = UpConfirm a \<and> uw_transfers v = uw_transfers w \<and> uw_uploads v = uw_uploads w))"
proof -
  have inv: "upload_inv w" by (rule upload_reach_inv[OF assms])
  have fine: "wait_fine w (uw_tasks w ! i) (ut_wait (uw_tasks w ! i))" if "i < length (uw_tasks w)" for i
    using inv that by (simp add: upload_inv_def tasks_fine_def)
  have again: "let v = uploadSingleFile now f (au_scope (uw_uploads w ! a)) w
      in ut_wait (last (uw_tasks v)) = UpConfirm a \<and> uw_transfers v = uw_transfers w \<and> uw_uploads v = uw_uploads w"
    if "map_of (uw_current w) f = Some a" "au_uploaded (uw_uploads w ! a)" "now < au_expiresAt (uw_uploads w ! a)" for f a now
  proof -
    have "sendable w f" using inv that(1) by (simp add: upload_inv_def current_fine_def)
    then show ?thesis using that
      by (simp add: uploadSingleFile_def sendable_def begin_transfer_def begin_confirm_def wait_for_def at_stage_def task_to_def Let_def
          not_le last_list_update)
  qed
  have sure: "au_file (uw_uploads w ! a) = ut_file (uw_tasks w ! i) \<and> au_scope (uw_uploads w ! a) = ut_scope (uw_tasks w ! i)
      \<and> au_uploaded (uw_uploads w ! a) \<and> a \<in> set (uw_transfers w)" if "i < length (uw_tasks w)" "ut_wait (uw_tasks w ! i) = UpConfirm a" for i a
    using fine[OF that(1)] that(2) by (simp add: owns_def sent_def)
  have done': "\<exists>a < length (uw_uploads w). au_file (uw_uploads w ! a) = ut_file (uw_tasks w ! i)
      \<and> au_scope (uw_uploads w ! a) = ut_scope (uw_tasks w ! i) \<and> au_uploaded (uw_uploads w ! a)"
    if "i < length (uw_tasks w)" "ut_wait (uw_tasks w ! i) = UpDone key" for i key
    using fine[OF that(1)] that(2) by (auto simp: owns_def sent_def)
  from sure done' again show ?thesis by blast
qed

fun upload_can :: "upload_event list \<Rightarrow> upload_world \<Rightarrow> bool" where
  "upload_can [] w = True" | "upload_can (e # es) w = (upload_may e w \<and> upload_can es (upload_step e w))"

definition upload_run :: "upload_event list \<Rightarrow> upload_world \<Rightarrow> upload_world" where
  "upload_run es w = foldl (\<lambda>w e. upload_step e w) w es"

lemma upload_run_reach: "upload_reach w \<Longrightarrow> upload_can es w \<Longrightarrow> upload_reach (upload_run es w)"
  by (induction es arbitrary: w) (auto simp: upload_run_def intro: upload_reach.step)

text \<open>A film is sent in parts; its confirmation fails and the user tries again.\<close>

definition demo_film :: upload_world where
  "demo_film = upload_init [\<lparr>fl_name = ''film.mp4'', fl_size = 25, fl_type = ''video/mp4''\<rparr>]"

definition demo_retry :: "upload_event list" where
  "demo_retry = [UploadStarts 0 0 (ScopeChannel 7), UploadReplied 0 0 (ReplyReserved demo_request), UploadReplied 0 0 (ReplyOk []),
     UploadReplied 0 0 (ReplyError (upload_failure ''offline''))]"

lemma demo_film_run: "upload_can demo_retry demo_film" "map_of (uw_current (upload_run demo_retry demo_film)) 0 = Some 0"
  "au_uploaded (uw_uploads (upload_run demo_retry demo_film) ! 0)" "au_expiresAt (uw_uploads (upload_run demo_retry demo_film) ! 0) = 890000"
  "au_scope (uw_uploads (upload_run demo_retry demo_film) ! 0) = ScopeChannel 7" "uw_transfers (upload_run demo_retry demo_film) = [0]"
  by (code_simp+)

theorem upload_confirms_own_reservation_witness:
  "let v = uploadSingleFile 60000 0 (ScopeChannel 7) (upload_run demo_retry demo_film)
   in ut_wait (last (uw_tasks v)) = UpConfirm 0 \<and> uw_transfers v = [0]"
proof -
  have "upload_reach (upload_run demo_retry demo_film)"
    by (rule upload_run_reach[OF _ demo_film_run(1)]) (simp add: demo_film_def upload_reach.start)
  note all = upload_confirms_own_reservation[OF this, THEN conjunct2, THEN conjunct2, rule_format]
  from all[OF demo_film_run(2,3), of 60000] show ?thesis
    by (simp add: demo_film_run(4-6) Let_def)
qed

end
