(* ===== verification/AuthClient.thy ===== *)
theory AuthClient
  imports Connection
begin

text \<open>
  \<open>src/lib/authService.ts\<close>, the client of the account service, with \<open>src/features/auth/confirmationCooldown.ts\<close>.  A
  request is sent by one step and answered by another; between them anything else can happen.  \<open>dp\<close> is
  \<open>Date.parse\<close>, \<open>None\<close> for NaN.
\<close>

section \<open>What is sent and stored\<close>

text \<open>The fields of \<open>AuthFrameworkToken\<close> anything reads; \<open>aft_expires\<close> is what \<open>Date.parse\<close> makes of \<open>expires_at\<close>.\<close>

record auth_token =
  aft_id :: string
  aft_access :: string
  aft_expires :: "int option"

datatype endpoint = EpRegister string | EpResendConfirmation | EpCorrectEmail | EpForgotPassword | EpRegistrationStatus
  | EpLink | EpLogin | EpLivekitToken | EpUploadRequest | EpUploadConfirm | EpUploadPartUrl | EpUploadStatus | EpUploadAbort
  | EpDownloadUrl | EpDownloadUrls | EpVideoPlayback | EpRenewSession | EpVerify | EpChangePassword | EpAccount

fun endpoint_path :: "endpoint \<Rightarrow> string" where
  "endpoint_path (EpRegister username) = ''/auth/register''"
| "endpoint_path EpResendConfirmation = ''/auth/resend-confirmation''"
| "endpoint_path EpCorrectEmail = ''/auth/correct-registration-email''"
| "endpoint_path EpForgotPassword = ''/auth/forgot-password''"
| "endpoint_path EpRegistrationStatus = ''/auth/registration-status''"
| "endpoint_path EpLink = ''/auth/link''"
| "endpoint_path EpLogin = ''/auth/login''"
| "endpoint_path EpLivekitToken = ''/livekit/token''"
| "endpoint_path EpUploadRequest = ''/uploads/request''"
| "endpoint_path EpUploadConfirm = ''/uploads/confirm''"
| "endpoint_path EpUploadPartUrl = ''/uploads/part-url''"
| "endpoint_path EpUploadStatus = ''/uploads/status''"
| "endpoint_path EpUploadAbort = ''/uploads/abort''"
| "endpoint_path EpDownloadUrl = ''/uploads/download-url''"
| "endpoint_path EpDownloadUrls = ''/uploads/download-urls''"
| "endpoint_path EpVideoPlayback = ''/uploads/video-playback''"
| "endpoint_path EpRenewSession = ''/auth/renew-session''"
| "endpoint_path EpVerify = ''/auth/verify''"
| "endpoint_path EpChangePassword = ''/auth/change-password''"
| "endpoint_path EpAccount = ''/auth/account''"

definition guarded :: "string \<Rightarrow> bool" where
  "guarded path \<longleftrightarrow> path \<in> set [''/auth/login'', ''/auth/register'', ''/auth/link'', ''/auth/change-password'',
     ''/auth/correct-registration-email'', ''/auth/forgot-password'', ''/auth/resend-confirmation'']"

record open_request =
  or_endpoint :: endpoint
  or_key :: string
  or_url :: string

record auth_client =
  ac_url :: "string option"
  ac_inFlight :: "string list"
  ac_retryAt :: "(string, int) rec"
  ac_stored :: "auth_token option"
  ac_cooldowns :: "(string, int) rec"
  ac_open :: "open_request list"

text \<open>
  \<open>ac_url\<close> is \<open>config?.authServiceUrl\<close>, \<open>ac_inFlight\<close> and \<open>ac_retryAt\<close> the module variables, \<open>ac_stored\<close> and
  \<open>ac_cooldowns\<close> the local storage, \<open>ac_open\<close> the requests that wait for their reply.
\<close>

definition AUTH_REQUEST_TIMEOUT_MS :: int where "AUTH_REQUEST_TIMEOUT_MS = 12000"
definition PASSWORD_MIN_LENGTH :: nat where "PASSWORD_MIN_LENGTH = 8"
definition PASSWORD_MAX_LENGTH :: nat where "PASSWORD_MAX_LENGTH = 128"

definition passwordLengthError :: "string \<Rightarrow> string option" where
  "passwordLengthError password =
     (if length password < PASSWORD_MIN_LENGTH then Some (''Password must be at least '' @ show_nat PASSWORD_MIN_LENGTH @ '' characters.'')
      else if length password > PASSWORD_MAX_LENGTH then Some (''Password must be at most '' @ show_nat PASSWORD_MAX_LENGTH @ '' characters.'')
      else None)"

text \<open>The function of the same text in \<open>connection.ts\<close>.\<close>

definition getNetworkErrorDetails :: "thrown \<Rightarrow> string" where
  "getNetworkErrorDetails e = getConnectionErrorDetails e"

definition url_text :: "auth_client \<Rightarrow> string" where
  "url_text c = (case ac_url c of None \<Rightarrow> ''undefined'' | Some u \<Rightarrow> u)"

section \<open>The confirmation cooldown\<close>

definition CONFIRMATION_COOLDOWN_MS :: int where "CONFIRMATION_COOLDOWN_MS = 60000"
definition INITIAL_CONFIRMATION_COOLDOWN_MS :: int where "INITIAL_CONFIRMATION_COOLDOWN_MS = 30000"

definition confirmationCooldownKey :: "string \<Rightarrow> auth_client \<Rightarrow> string" where
  "confirmationCooldownKey username c = ''letschat.confirmation:'' @ url_text c @ '':'' @ js_lower (js_trim username)"

definition readConfirmationCooldown :: "string \<Rightarrow> auth_client \<Rightarrow> int" where
  "readConfirmationCooldown username c = rec_or (ac_cooldowns c) (confirmationCooldownKey username c) 0"

definition readCorrectionCooldown :: "string \<Rightarrow> auth_client \<Rightarrow> int" where
  "readCorrectionCooldown username c = rec_or (ac_cooldowns c) (confirmationCooldownKey username c @ '':shared'') 0"

definition startConfirmationCooldown :: "int \<Rightarrow> string \<Rightarrow> bool \<Rightarrow> auth_client \<Rightarrow> auth_client" where
  "startConfirmationCooldown now username initial c = (let
     till = now + (if initial then INITIAL_CONFIRMATION_COOLDOWN_MS else CONFIRMATION_COOLDOWN_MS);
     k = confirmationCooldownKey username c
   in c\<lparr>ac_cooldowns := rec_set k till (rec_set (k @ '':shared'') (if initial then 0 else till) (ac_cooldowns c))\<rparr>)"

section \<open>Sending\<close>

text \<open>\<open>postJson\<close> up to the request: an error thrown before anything is sent, or the request.\<close>

definition post_key :: "endpoint \<Rightarrow> auth_client \<Rightarrow> string" where
  "post_key ep c = url_text c @ endpoint_path ep"

definition wait_seconds :: "int \<Rightarrow> string \<Rightarrow> auth_client \<Rightarrow> int" where
  "wait_seconds now key c = - ((now - rec_or (ac_retryAt c) key 0) div 1000)"

definition postJson :: "int \<Rightarrow> endpoint \<Rightarrow> auth_client \<Rightarrow> string option \<times> auth_client" where
  "postJson now ep c = (let key = post_key ep c in
     if guarded (endpoint_path ep) \<and> 0 < wait_seconds now key c
       then (Some (''Too many requests. Please wait '' @ show_int (wait_seconds now key c) @ '' seconds.''), c)
     else if guarded (endpoint_path ep) \<and> key \<in> set (ac_inFlight c) then (Some ''A request is already in progress. Please wait.'', c)
     else (case ac_url c of
       None \<Rightarrow> (Some ''Server not configured. Please complete setup first.'', c)
     | Some u \<Rightarrow> if u = [] then (Some ''Server not configured. Please complete setup first.'', c)
         else (None, c\<lparr>ac_inFlight := (if guarded (endpoint_path ep) then ac_inFlight c @ [key] else ac_inFlight c),
           ac_open := ac_open c @ [\<lparr>or_endpoint = ep, or_key = key, or_url = u\<rparr>]\<rparr>)))"

text \<open>\<open>authServiceVerify\<close>, \<open>authServiceAccount\<close> and \<open>authServiceChangePassword\<close> look for a stored session first; without
  one the first two answer at once.\<close>

definition authService_call :: "int \<Rightarrow> endpoint \<Rightarrow> auth_client \<Rightarrow> string option \<times> auth_client" where
  "authService_call now ep c =
     (if ep \<in> {EpVerify, EpAccount} \<and> ac_stored c = None then (None, c)
      else if ep = EpChangePassword \<and> ac_stored c = None then (Some ''No active sign-in session found.'', c)
      else postJson now ep c)"

section \<open>The reply\<close>

text \<open>How \<open>fetch\<close> ends: the abort of the timeout, another rejection, or a response with its status, its \<open>Retry-After\<close>
  header, the \<open>error\<close> field of its body and its body, \<open>Inl\<close> the parser's error if it is not JSON.\<close>

datatype auth_body = RegisterBody string "auth_token option" | SessionBody auth_token | PlainBody

datatype fetch_end = FetchAborts | FetchThrows thrown | FetchReplies nat "string option" "string option" "string + auth_body"

definition retry_ms :: "(string \<Rightarrow> int option) \<Rightarrow> int \<Rightarrow> string option \<Rightarrow> int" where
  "retry_ms dp now header = max 1000 (case header of
     None \<Rightarrow> 60000
   | Some h \<Rightarrow> if h = [] then 60000 else (case read_digits 0 h of
       Some n \<Rightarrow> 1000 * int n
     | None \<Rightarrow> (case dp h of Some t \<Rightarrow> t - now | None \<Rightarrow> 60000)))"

definition response_ok :: "nat \<Rightarrow> bool" where "response_ok status \<longleftrightarrow> 200 \<le> status \<and> status < 300"

text \<open>\<open>sendJson\<close> after its \<open>fetch\<close>; \<open>Inr None\<close> is the empty answer of a 204.\<close>

fun sendJson :: "(string \<Rightarrow> int option) \<Rightarrow> int \<Rightarrow> open_request \<Rightarrow> fetch_end \<Rightarrow> auth_client \<Rightarrow> (string + auth_body option) \<times> auth_client" where
  "sendJson dp now rq FetchAborts c = (Inl (''core-api request timed out after '' @ show_int (AUTH_REQUEST_TIMEOUT_MS div 1000)
     @ ''s. Ensure core-api is running at '' @ or_url rq @ ''.''), c)"
| "sendJson dp now rq (FetchThrows e) c = (Inl (''Could not reach core-api at '' @ or_url rq @ '' ('' @ getNetworkErrorDetails e
     @ ''). Check core-api status.''), c)"
| "sendJson dp now rq (FetchReplies status header err body) c =
     (if \<not> response_ok status then
        (Inl (case err of Some m \<Rightarrow> m | None \<Rightarrow> ''Request failed ('' @ show_nat status @ '')''),
         if status = 429 \<and> guarded (endpoint_path (or_endpoint rq))
         then c\<lparr>ac_retryAt := rec_set (or_key rq) (now + retry_ms dp now header) (ac_retryAt c)\<rparr> else c)
      else if status = 204 then (Inr None, c)
      else (case body of Inl e \<Rightarrow> (Inl e, c) | Inr b \<Rightarrow> (Inr (Some b), c)))"

definition setStoredAuthSessionToken :: "auth_token \<Rightarrow> auth_client \<Rightarrow> auth_client" where
  "setStoredAuthSessionToken t c = c\<lparr>ac_stored := Some t\<rparr>"

definition clearStoredAuthSessionToken :: "auth_client \<Rightarrow> auth_client" where
  "clearStoredAuthSessionToken c = c\<lparr>ac_stored := None\<rparr>"

text \<open>What the functions of the file do with a successful answer.\<close>

fun adopt_answer :: "int \<Rightarrow> endpoint \<Rightarrow> auth_body \<Rightarrow> auth_client \<Rightarrow> auth_client" where
  "adopt_answer now (EpRegister username) (RegisterBody status auth) c = (let
     c = (if status = ''pending_email_verification'' then startConfirmationCooldown now username True c else c)
   in case auth of None \<Rightarrow> c | Some t \<Rightarrow> if status = ''active'' then setStoredAuthSessionToken t c else c)"
| "adopt_answer now EpLink (SessionBody t) c = setStoredAuthSessionToken t c"
| "adopt_answer now EpLogin (SessionBody t) c = setStoredAuthSessionToken t c"
| "adopt_answer now EpRenewSession (SessionBody t) c = setStoredAuthSessionToken t c"
| "adopt_answer now ep body c = c"

text \<open>The reply to the open request \<open>i\<close>, the \<open>finally\<close> of \<open>postJson\<close> included.\<close>

definition without :: "nat \<Rightarrow> 'a list \<Rightarrow> 'a list" where
  "without i xs = take i xs @ drop (Suc i) xs"

definition post_reply :: "(string \<Rightarrow> int option) \<Rightarrow> int \<Rightarrow> nat \<Rightarrow> fetch_end \<Rightarrow> auth_client \<Rightarrow> (string + auth_body option) \<times> auth_client" where
  "post_reply dp now i res c = (let rq = ac_open c ! i in
     case sendJson dp now rq res (c\<lparr>ac_open := without i (ac_open c)\<rparr>) of (r, c) \<Rightarrow>
       let c = (if guarded (endpoint_path (or_endpoint rq)) then c\<lparr>ac_inFlight := filter (\<lambda>k. k \<noteq> or_key rq) (ac_inFlight c)\<rparr> else c)
       in (r, case r of Inr (Some body) \<Rightarrow> adopt_answer now (or_endpoint rq) body c | _ \<Rightarrow> c))"

text \<open>\<open>HostSet\<close>: the configuration changes; \<open>SessionCleared\<close>: a sign-out clears the stored session.\<close>

datatype auth_event = AuthCalled int endpoint | AuthReplied int nat fetch_end | HostSet "string option" | SessionCleared

fun auth_step :: "(string \<Rightarrow> int option) \<Rightarrow> auth_event \<Rightarrow> auth_client \<Rightarrow> auth_client" where
  "auth_step dp (AuthCalled now ep) c = snd (authService_call now ep c)"
| "auth_step dp (AuthReplied now i res) c = snd (post_reply dp now i res c)"
| "auth_step dp (HostSet u) c = c\<lparr>ac_url := u\<rparr>"
| "auth_step dp SessionCleared c = clearStoredAuthSessionToken c"

fun auth_may :: "auth_event \<Rightarrow> auth_client \<Rightarrow> bool" where
  "auth_may (AuthReplied now i res) c = (i < length (ac_open c))"
| "auth_may e c = True"

definition auth_init :: "string option \<Rightarrow> auth_token option \<Rightarrow> (string, int) rec \<Rightarrow> auth_client" where
  "auth_init u stored cooldowns = \<lparr>ac_url = u, ac_inFlight = [], ac_retryAt = [], ac_stored = stored, ac_cooldowns = cooldowns, ac_open = []\<rparr>"

inductive auth_reach :: "(string \<Rightarrow> int option) \<Rightarrow> auth_client \<Rightarrow> bool" for dp where
  start: "auth_reach dp (auth_init u stored cooldowns)"
| step: "auth_reach dp c \<Longrightarrow> auth_may e c \<Longrightarrow> auth_reach dp (auth_step dp e c)"

end
