(* ===== verification/AuthFacts.thy ===== *)
theory AuthFacts
  imports AuthClient
begin

text \<open>
  What the client of the account service promises: one guarded request at a time for each address, and silence
  towards an address that asked for it.
\<close>

section \<open>The requests in flight\<close>

definition guarded_open :: "auth_client \<Rightarrow> open_request list" where
  "guarded_open c = filter (\<lambda>rq. guarded (endpoint_path (or_endpoint rq))) (ac_open c)"

definition auth_inv :: "auth_client \<Rightarrow> bool" where
  "auth_inv c \<longleftrightarrow> distinct (map or_key (guarded_open c)) \<and> set (ac_inFlight c) = or_key ` set (guarded_open c)"

lemma split_at: "i < length xs \<Longrightarrow> xs = take i xs @ xs ! i # drop (Suc i) xs"
  by (rule id_take_nth_drop)

lemma without_filter:
  assumes "i < length xs"
  shows "P (xs ! i) \<Longrightarrow> \<exists>as bs. filter P xs = as @ xs ! i # bs \<and> filter P (without i xs) = as @ bs"
    and "\<not> P (xs ! i) \<Longrightarrow> filter P (without i xs) = filter P xs"
  using arg_cong[OF split_at[OF assms], of "filter P"] by (simp_all add: without_def) blast

lemma send_frame [simp]:
  "ac_open (snd (sendJson dp now rq res c)) = ac_open c" "ac_inFlight (snd (sendJson dp now rq res c)) = ac_inFlight c"
  "ac_url (snd (sendJson dp now rq res c)) = ac_url c" "ac_stored (snd (sendJson dp now rq res c)) = ac_stored c"
  by (cases "(dp, now, rq, res, c)" rule: sendJson.cases; simp split: sum.split)+

lemma adopt_frame [simp]:
  "ac_open (adopt_answer now ep body c) = ac_open c" "ac_inFlight (adopt_answer now ep body c) = ac_inFlight c"
  "ac_retryAt (adopt_answer now ep body c) = ac_retryAt c" "ac_url (adopt_answer now ep body c) = ac_url c"
  by (cases "(now, ep, body, c)" rule: adopt_answer.cases;
      simp add: setStoredAuthSessionToken_def startConfirmationCooldown_def Let_def split: option.split)+

lemma post_reply_frame:
  "ac_open (snd (post_reply dp now i res c)) = without i (ac_open c)"
  "ac_inFlight (snd (post_reply dp now i res c)) = (if guarded (endpoint_path (or_endpoint (ac_open c ! i)))
     then filter (\<lambda>k. k \<noteq> or_key (ac_open c ! i)) (ac_inFlight c) else ac_inFlight c)"
  "ac_retryAt (snd (post_reply dp now i res c)) = ac_retryAt (snd (sendJson dp now (ac_open c ! i) res (c\<lparr>ac_open := without i (ac_open c)\<rparr>)))"
proof -
  obtain r v where r: "sendJson dp now (ac_open c ! i) res (c\<lparr>ac_open := without i (ac_open c)\<rparr>) = (r, v)" by fastforce
  have v: "ac_open v = without i (ac_open c)" "ac_inFlight v = ac_inFlight c"
    using send_frame(1,2)[of dp now "ac_open c ! i" res "c\<lparr>ac_open := without i (ac_open c)\<rparr>"] by (simp_all add: r)
  show "ac_open (snd (post_reply dp now i res c)) = without i (ac_open c)"
    "ac_inFlight (snd (post_reply dp now i res c)) = (if guarded (endpoint_path (or_endpoint (ac_open c ! i)))
     then filter (\<lambda>k. k \<noteq> or_key (ac_open c ! i)) (ac_inFlight c) else ac_inFlight c)"
    "ac_retryAt (snd (post_reply dp now i res c)) = ac_retryAt (snd (sendJson dp now (ac_open c ! i) res (c\<lparr>ac_open := without i (ac_open c)\<rparr>)))"
    by (simp_all add: post_reply_def Let_def r v split: sum.split option.split)
qed

lemma postJson_cases:
  obtains (refused) e where "postJson now ep c = (Some e, c)"
  | (sent) u where "postJson now ep c = (None, c\<lparr>ac_inFlight := (if guarded (endpoint_path ep) then ac_inFlight c @ [post_key ep c] else ac_inFlight c),
      ac_open := ac_open c @ [\<lparr>or_endpoint = ep, or_key = post_key ep c, or_url = u\<rparr>]\<rparr>)"
      "guarded (endpoint_path ep) \<Longrightarrow> wait_seconds now (post_key ep c) c \<le> 0 \<and> post_key ep c \<notin> set (ac_inFlight c)"
proof (cases "fst (postJson now ep c)")
  case (Some e)
  then have "postJson now ep c = (Some e, c)" by (auto simp: postJson_def Let_def split: if_splits option.splits)
  then show thesis by (rule refused)
next
  case None
  then have free: "\<not> (guarded (endpoint_path ep) \<and> 0 < wait_seconds now (post_key ep c) c)"
      "\<not> (guarded (endpoint_path ep) \<and> post_key ep c \<in> set (ac_inFlight c))"
    by (auto simp: postJson_def Let_def split: if_splits)
  from None obtain u where "ac_url c = Some u" "u \<noteq> []"
    by (auto simp: postJson_def Let_def split: if_splits option.splits)
  with free show thesis by (intro sent[of u]) (auto simp: postJson_def Let_def not_less)
qed

lemma postJson_inv: "auth_inv c \<Longrightarrow> auth_inv (snd (postJson now ep c))"
  by (cases rule: postJson_cases[of now ep c]) (auto simp: auth_inv_def guarded_open_def)

lemma reply_open:
  assumes "i < length (ac_open c)"
  shows "guarded (endpoint_path (or_endpoint (ac_open c ! i))) \<Longrightarrow>
      \<exists>as bs. guarded_open c = as @ ac_open c ! i # bs \<and> guarded_open (snd (post_reply dp now i res c)) = as @ bs"
    and "\<not> guarded (endpoint_path (or_endpoint (ac_open c ! i))) \<Longrightarrow> guarded_open (snd (post_reply dp now i res c)) = guarded_open c"
  using without_filter[OF assms, of "\<lambda>rq. guarded (endpoint_path (or_endpoint rq))"] by (simp_all add: guarded_open_def post_reply_frame)

lemma post_reply_inv:
  assumes "auth_inv c" and "i < length (ac_open c)"
  shows "auth_inv (snd (post_reply dp now i res c))"
proof (cases "guarded (endpoint_path (or_endpoint (ac_open c ! i)))")
  case True
  then obtain as bs where "guarded_open c = as @ ac_open c ! i # bs" "guarded_open (snd (post_reply dp now i res c)) = as @ bs"
    using reply_open(1)[OF assms(2)] by blast
  with assms(1) True show ?thesis by (auto simp: auth_inv_def post_reply_frame(2)) (metis image_eqI)+
next
  case False
  with assms show ?thesis by (simp add: auth_inv_def post_reply_frame(2) reply_open(2))
qed

lemma auth_step_inv: "auth_inv c \<Longrightarrow> auth_may e c \<Longrightarrow> auth_inv (auth_step dp e c)"
  by (cases e) (simp_all add: post_reply_inv authService_call_def postJson_inv, simp_all add: auth_inv_def guarded_open_def clearStoredAuthSessionToken_def)

lemma auth_reach_inv: "auth_reach dp c \<Longrightarrow> auth_inv c"
  by (induction rule: auth_reach.induct) (simp_all add: auth_step_inv, simp add: auth_init_def auth_inv_def guarded_open_def)

section \<open>The silence a server asked for\<close>

definition quiet_until :: "string \<Rightarrow> int \<Rightarrow> auth_client \<Rightarrow> bool" where
  "quiet_until key t c \<longleftrightarrow> rec_or (ac_retryAt c) key 0 = t \<and> key \<notin> or_key ` set (guarded_open c)"

fun event_time :: "auth_event \<Rightarrow> int option" where
  "event_time (AuthCalled now ep) = Some now" | "event_time (AuthReplied now i res) = Some now" | "event_time e = None"

lemma sendJson_retry:
  "rec_or (ac_retryAt (snd (sendJson dp now rq res c))) key 0 = rec_or (ac_retryAt c) key 0
   \<or> key = or_key rq \<and> guarded (endpoint_path (or_endpoint rq))"
  by (cases "(dp, now, rq, res, c)" rule: sendJson.cases) (auto split: sum.split)

lemma ceil_pos: "now < t \<Longrightarrow> 0 < - ((now - t) div (1000::int))"
  by (simp add: div_neg_pos_less0)

lemma quiet_step:
  assumes "quiet_until key t c" and "auth_may e c" and "\<And>now. event_time e = Some now \<Longrightarrow> now < t"
  shows "quiet_until key t (auth_step dp e c)"
proof (cases e)
  case (AuthCalled now ep)
  have "quiet_until key t (snd (postJson now ep c))"
  proof (cases rule: postJson_cases[of now ep c])
    case (sent u)
    have "post_key ep c \<noteq> key" if "guarded (endpoint_path ep)"
      using sent(2)[OF that] assms(1) ceil_pos[of now t] assms(3) AuthCalled by (auto simp: quiet_until_def wait_seconds_def)
    with assms(1) sent(1) show ?thesis by (auto simp: quiet_until_def guarded_open_def)
  qed (use assms(1) in simp)
  with assms(1) AuthCalled show ?thesis by (simp add: authService_call_def)
next
  case (AuthReplied now i res)
  let ?rq = "ac_open c ! i"
  have i: "i < length (ac_open c)" using assms(2) AuthReplied by simp
  have "key \<noteq> or_key ?rq" if "guarded (endpoint_path (or_endpoint ?rq))"
    using assms(1) that i by (auto simp: quiet_until_def guarded_open_def)
  moreover have "set (without i (ac_open c)) \<subseteq> set (ac_open c)"
    by (auto simp: without_def dest: in_set_takeD in_set_dropD)
  ultimately show ?thesis
    using assms(1) sendJson_retry[of dp now ?rq res "c\<lparr>ac_open := without i (ac_open c)\<rparr>" key]
    by (auto simp: AuthReplied quiet_until_def post_reply_frame guarded_open_def)
qed (use assms(1) in \<open>simp_all add: quiet_until_def guarded_open_def clearStoredAuthSessionToken_def\<close>)

fun auth_can :: "(string \<Rightarrow> int option) \<Rightarrow> auth_event list \<Rightarrow> auth_client \<Rightarrow> bool" where
  "auth_can dp [] c = True" | "auth_can dp (e # es) c = (auth_may e c \<and> auth_can dp es (auth_step dp e c))"

definition auth_run :: "(string \<Rightarrow> int option) \<Rightarrow> auth_event list \<Rightarrow> auth_client \<Rightarrow> auth_client" where
  "auth_run dp es c = foldl (\<lambda>c e. auth_step dp e c) c es"

lemma auth_run_reach: "auth_reach dp c \<Longrightarrow> auth_can dp es c \<Longrightarrow> auth_reach dp (auth_run dp es c)"
  by (induction es arbitrary: c) (auto simp: auth_run_def intro: auth_reach.step)

lemma quiet_run:
  "quiet_until key t c \<Longrightarrow> auth_can dp es c \<Longrightarrow> (\<And>e now. e \<in> set es \<Longrightarrow> event_time e = Some now \<Longrightarrow> now < t)
    \<Longrightarrow> quiet_until key t (auth_run dp es c)"
proof (induction es arbitrary: c)
  case (Cons e es)
  have "quiet_until key t (auth_step dp e c)" by (rule quiet_step[OF Cons.prems(1)]) (use Cons.prems in auto)
  with Cons.IH[of "auth_step dp e c"] Cons.prems show ?case by (auto simp: auth_run_def)
qed (simp add: auth_run_def)

text \<open>C32: The account service is asked once at a time and left alone when it says so: a guarded request is on its way at most
  once for each address, and after a 429 to one no further request is sent to that address before the time the
  server named (at least a second, a minute if it named none), whatever else is sent, answered or reconfigured
  meanwhile.\<close>

theorem rate_limit_respected:
  assumes "auth_reach dp c" and "i < length (ac_open c)" and "guarded (endpoint_path (or_endpoint (ac_open c ! i)))"
    and "c' = snd (post_reply dp now i (FetchReplies 429 header err body) c)" and "auth_can dp es c'"
    and "\<And>e t. e \<in> set es \<Longrightarrow> event_time e = Some t \<Longrightarrow> t < now + retry_ms dp now header"
  shows "distinct (map or_key (guarded_open c))
    \<and> or_key (ac_open c ! i) \<notin> or_key ` set (guarded_open (auth_run dp es c')) \<and> 1000 \<le> retry_ms dp now header"
proof -
  have inv: "auth_inv c" by (rule auth_reach_inv[OF assms(1)])
  obtain as bs where "guarded_open c = as @ ac_open c ! i # bs" "guarded_open c' = as @ bs"
    using reply_open(1)[OF assms(2,3)] assms(4) by blast
  then have "or_key (ac_open c ! i) \<notin> or_key ` set (guarded_open c')" using inv by (auto simp: auth_inv_def)
  moreover have "rec_or (ac_retryAt c') (or_key (ac_open c ! i)) 0 = now + retry_ms dp now header"
    using assms(3) by (simp add: assms(4) post_reply_frame response_ok_def)
  ultimately have "quiet_until (or_key (ac_open c ! i)) (now + retry_ms dp now header) c'" by (simp add: quiet_until_def)
  from quiet_run[OF this assms(5)] assms(6) inv show ?thesis
    by (simp add: quiet_until_def auth_inv_def retry_ms_def)
qed

text \<open>A sign-in is refused for half a minute; trying again after ten seconds sends nothing.\<close>

definition demo_auth :: auth_client where
  "demo_auth = auth_init (Some ''https://chat.test'') None []"

definition no_dates :: "string \<Rightarrow> int option" where "no_dates s = None"

definition signing_in :: auth_client where
  "signing_in = auth_run no_dates [AuthCalled 1000 EpLogin] demo_auth"

definition limited :: auth_client where
  "limited = snd (post_reply no_dates 1500 0 (FetchReplies 429 (Some ''30'') None (Inr PlainBody)) signing_in)"

lemma limited_run: "auth_can no_dates [AuthCalled 1000 EpLogin] demo_auth" "length (ac_open signing_in) = 1"
  "or_endpoint (ac_open signing_in ! 0) = EpLogin" "or_key (ac_open signing_in ! 0) = ''https://chat.test/auth/login''"
  "auth_can no_dates [AuthCalled 11500 EpLogin] limited" "retry_ms no_dates 1500 (Some ''30'') = 30000"
  by (code_simp+)

theorem rate_limit_respected_witness:
  "''https://chat.test/auth/login'' \<notin> or_key ` set (guarded_open (auth_run no_dates [AuthCalled 11500 EpLogin] limited))"
proof -
  have "auth_reach no_dates signing_in"
    unfolding signing_in_def by (rule auth_run_reach[OF _ limited_run(1)]) (simp add: demo_auth_def auth_reach.start)
  moreover have "guarded ''/auth/login''" by (simp add: guarded_def)
  ultimately show ?thesis
    using rate_limit_respected[of no_dates signing_in 0 limited 1500 "Some ''30''" None "Inr PlainBody" "[AuthCalled 11500 EpLogin]"]
    by (simp add: limited_run limited_def[symmetric] limited_run(2-6))
qed

section \<open>Where it stops\<close>

text \<open>A renewal on its way when the user signs out stores its session afterwards.\<close>

lemma late_renewal_restores_session:
  "ac_stored (auth_run no_dates [AuthCalled 1000 EpRenewSession, SessionCleared,
     AuthReplied 1200 0 (FetchReplies 200 None None (Inr (SessionBody \<lparr>aft_id = ''t'', aft_access = ''a'', aft_expires = Some 9000000\<rparr>)))] demo_auth)
   = Some \<lparr>aft_id = ''t'', aft_access = ''a'', aft_expires = Some 9000000\<rparr>"
  by code_simp

end
