(* ===== verification/SessionTokens.thy ===== *)
theory SessionTokens
  imports AuthClient
begin

text \<open>
  \<open>src/lib/uploadSession.ts\<close>: the calls that need a session token.  Every call of \<open>withSessionTokenRetry\<close> is a
  task; \<open>tt_calls\<close> are the tokens its function was called with, the last first.
\<close>

section \<open>Tokens\<close>

definition TOKEN_EXPIRY_BUFFER_MS :: int where "TOKEN_EXPIRY_BUFFER_MS = 30000"

definition isSessionError :: "string \<Rightarrow> bool" where
  "isSessionError e = (let message = js_lower e in
     js_includes ''invalid or expired session token'' message \<or> js_includes ''invalid auth session'' message)"

definition isTokenExpiredSoon :: "int \<Rightarrow> auth_token \<Rightarrow> bool" where
  "isTokenExpiredSoon now t = (case aft_expires t of None \<Rightarrow> True | Some e \<Rightarrow> e - TOKEN_EXPIRY_BUFFER_MS \<le> now)"

text \<open>What a task waits for; the flag says that its function has already been refused once.\<close>

datatype token_wait = TkRenewal bool | TkCall bool | TkDone "string option"

record token_task =
  tt_wait :: token_wait
  tt_calls :: "auth_token list"

record token_world =
  tw_stored :: "auth_token option"
  tw_spacetime :: "string option"
  tw_renewing :: bool
  tw_tasks :: "token_task list"

definition session_expired :: string where
  "session_expired = ''Your auth session expired. Please sign in again.''"

definition set_token_task :: "nat \<Rightarrow> (token_task \<Rightarrow> token_task) \<Rightarrow> token_world \<Rightarrow> token_world" where
  "set_token_task i f w = w\<lparr>tw_tasks := (tw_tasks w)[i := f (tw_tasks w ! i)]\<rparr>"

definition call_with :: "bool \<Rightarrow> auth_token \<Rightarrow> token_task \<Rightarrow> token_task" where
  "call_with again t k = k\<lparr>tt_wait := TkCall again, tt_calls := t # tt_calls k\<rparr>"

text \<open>\<open>renewAuthSession\<close> for task \<open>i\<close>: it joins a renewal on its way, starts one, or fails for want of a database token.\<close>

definition renewAuthSession :: "nat \<Rightarrow> bool \<Rightarrow> token_world \<Rightarrow> token_world" where
  "renewAuthSession i again w =
     (if tw_renewing w then set_token_task i (\<lambda>k. k\<lparr>tt_wait := TkRenewal again\<rparr>) w
      else case tw_spacetime w of
        None \<Rightarrow> set_token_task i (\<lambda>k. k\<lparr>tt_wait := TkDone (Some session_expired)\<rparr>) w
      | Some s \<Rightarrow> if s = [] then set_token_task i (\<lambda>k. k\<lparr>tt_wait := TkDone (Some session_expired)\<rparr>) w
          else set_token_task i (\<lambda>k. k\<lparr>tt_wait := TkRenewal again\<rparr>) (w\<lparr>tw_renewing := True\<rparr>))"

definition ensureActiveSessionToken :: "int \<Rightarrow> nat \<Rightarrow> token_world \<Rightarrow> token_world" where
  "ensureActiveSessionToken now i w = (case tw_stored w of
     Some t \<Rightarrow> if isTokenExpiredSoon now t then renewAuthSession i False w else set_token_task i (call_with False t) w
   | None \<Rightarrow> renewAuthSession i False w)"

definition withSessionTokenRetry :: "int \<Rightarrow> token_world \<Rightarrow> token_world" where
  "withSessionTokenRetry now w = ensureActiveSessionToken now (length (tw_tasks w))
     (w\<lparr>tw_tasks := tw_tasks w @ [\<lparr>tt_wait = TkDone None, tt_calls = []\<rparr>]\<rparr>)"

text \<open>The renewal settles: everyone who waits for it goes on.\<close>

definition renewed_task :: "string + auth_token \<Rightarrow> token_task \<Rightarrow> token_task" where
  "renewed_task res k = (case tt_wait k of
     TkRenewal again \<Rightarrow> (case res of Inl e \<Rightarrow> k\<lparr>tt_wait := TkDone (Some e)\<rparr> | Inr t \<Rightarrow> call_with again t k)
   | _ \<Rightarrow> k)"

definition renewal_settled :: "string + auth_token \<Rightarrow> token_world \<Rightarrow> token_world" where
  "renewal_settled res w = w\<lparr>tw_renewing := False, tw_stored := (case res of Inl e \<Rightarrow> tw_stored w | Inr t \<Rightarrow> Some t),
     tw_tasks := map (renewed_task res) (tw_tasks w)\<rparr>"

text \<open>The function of task \<open>i\<close> settles.\<close>

definition call_settled :: "nat \<Rightarrow> string option \<Rightarrow> token_world \<Rightarrow> token_world" where
  "call_settled i res w = (case (tt_wait (tw_tasks w ! i), res) of
     (TkCall False, Some e) \<Rightarrow> if isSessionError e then renewAuthSession i True w else set_token_task i (\<lambda>k. k\<lparr>tt_wait := TkDone (Some e)\<rparr>) w
   | (TkCall again, res) \<Rightarrow> set_token_task i (\<lambda>k. k\<lparr>tt_wait := TkDone res\<rparr>) w
   | _ \<Rightarrow> w)"

datatype token_event = TokenNeeded int | RenewalSettled "string + auth_token" | CallSettled nat "string option"
  | TokensChanged "auth_token option" "string option"

fun token_step :: "token_event \<Rightarrow> token_world \<Rightarrow> token_world" where
  "token_step (TokenNeeded now) w = withSessionTokenRetry now w"
| "token_step (RenewalSettled res) w = renewal_settled res w"
| "token_step (CallSettled i res) w = call_settled i res w"
| "token_step (TokensChanged stored spacetime) w = w\<lparr>tw_stored := stored, tw_spacetime := spacetime\<rparr>"

fun token_may :: "token_event \<Rightarrow> token_world \<Rightarrow> bool" where
  "token_may (RenewalSettled res) w = tw_renewing w"
| "token_may (CallSettled i res) w = (i < length (tw_tasks w) \<and> (\<exists>again \<in> {False, True}. tt_wait (tw_tasks w ! i) = TkCall again))"
| "token_may e w = True"

definition token_init :: "auth_token option \<Rightarrow> string option \<Rightarrow> token_world" where
  "token_init stored spacetime = \<lparr>tw_stored = stored, tw_spacetime = spacetime, tw_renewing = False, tw_tasks = []\<rparr>"

inductive token_reach :: "token_world \<Rightarrow> bool" where
  start: "token_reach (token_init stored spacetime)"
| step: "token_reach w \<Longrightarrow> token_may e w \<Longrightarrow> token_reach (token_step e w)"

section \<open>Every task ends\<close>

definition waits_renewal :: "token_task \<Rightarrow> bool" where
  "waits_renewal k \<longleftrightarrow> (\<exists>again. tt_wait k = TkRenewal again)"

fun calls_fit :: "token_wait \<Rightarrow> nat \<Rightarrow> bool" where
  "calls_fit (TkRenewal again) n = (n = (if again then 1 else 0))"
| "calls_fit (TkCall again) n = (n = (if again then 2 else 1))"
| "calls_fit (TkDone res) n = (n \<le> 2)"

definition session_inv :: "token_world \<Rightarrow> bool" where
  "session_inv w \<longleftrightarrow> (tw_renewing w \<longleftrightarrow> (\<exists>k \<in> set (tw_tasks w). waits_renewal k))
     \<and> (\<forall>k \<in> set (tw_tasks w). calls_fit (tt_wait k) (length (tt_calls k)))"

lemma update_at_set:
  "i < length xs \<Longrightarrow> set (xs[i := y]) \<subseteq> insert y (set xs) \<and> y \<in> set (xs[i := y])
     \<and> (\<forall>x \<in> set xs. x \<noteq> xs ! i \<longrightarrow> x \<in> set (xs[i := y]))"
  by (metis in_set_conv_nth length_list_update nth_list_update set_update_memI set_update_subset_insert)

lemma set_task_inv:
  assumes "session_inv w" and "i < length (tw_tasks w)" and "\<not> waits_renewal (tw_tasks w ! i)"
    and "calls_fit (tt_wait (f (tw_tasks w ! i))) (length (tt_calls (f (tw_tasks w ! i))))"
    and "waits_renewal (f (tw_tasks w ! i)) \<Longrightarrow> tw_renewing w \<or> r" and "r \<Longrightarrow> waits_renewal (f (tw_tasks w ! i))"
  shows "session_inv (set_token_task i f (w\<lparr>tw_renewing := tw_renewing w \<or> r\<rparr>))"
  using assms update_at_set[OF assms(2), of "f (tw_tasks w ! i)"]
  unfolding session_inv_def set_token_task_def by (auto 5 3)

lemma set_task_same: "session_inv w \<Longrightarrow> i < length (tw_tasks w) \<Longrightarrow> \<not> waits_renewal (tw_tasks w ! i)
   \<Longrightarrow> calls_fit (tt_wait (f (tw_tasks w ! i))) (length (tt_calls (f (tw_tasks w ! i)))) \<Longrightarrow> \<not> waits_renewal (f (tw_tasks w ! i))
   \<Longrightarrow> session_inv (set_token_task i f w)"
  using set_task_inv[of w i f False] by simp

lemma renew_inv:
  assumes "session_inv w" and "i < length (tw_tasks w)" and "\<not> waits_renewal (tw_tasks w ! i)"
    and "length (tt_calls (tw_tasks w ! i)) = (if again then 1 else 0)"
  shows "session_inv (renewAuthSession i again w)"
proof -
  have wait: "session_inv (set_token_task i (\<lambda>k. k\<lparr>tt_wait := TkRenewal again\<rparr>) (w\<lparr>tw_renewing := tw_renewing w \<or> True\<rparr>))"
    using assms by (intro set_task_inv) (auto simp: waits_renewal_def)
  have fail: "session_inv (set_token_task i (\<lambda>k. k\<lparr>tt_wait := TkDone (Some session_expired)\<rparr>) w)"
    using assms by (intro set_task_same) (auto simp: waits_renewal_def)
  show ?thesis
  proof (cases "tw_renewing w")
    case True
    then have same: "w\<lparr>tw_renewing := True\<rparr> = w" by simp
    from wait have "session_inv (set_token_task i (\<lambda>k. k\<lparr>tt_wait := TkRenewal again\<rparr>) w)" by (simp add: same)
    with True show ?thesis by (simp add: renewAuthSession_def)
  qed (use wait fail in \<open>simp add: renewAuthSession_def split: option.split\<close>)
qed

lemma new_task_token_inv:
  "session_inv w \<Longrightarrow> session_inv (w\<lparr>tw_tasks := tw_tasks w @ [\<lparr>tt_wait = TkDone None, tt_calls = []\<rparr>]\<rparr>)"
  by (auto simp: session_inv_def waits_renewal_def)

lemma with_retry_inv: "session_inv w \<Longrightarrow> session_inv (withSessionTokenRetry now w)"
proof -
  assume w: "session_inv w"
  let ?v = "w\<lparr>tw_tasks := tw_tasks w @ [\<lparr>tt_wait = TkDone None, tt_calls = []\<rparr>]\<rparr>"
  have v: "session_inv ?v" by (rule new_task_token_inv[OF w])
  have renew: "session_inv (renewAuthSession (length (tw_tasks w)) False ?v)"
    by (rule renew_inv[OF v]) (simp_all add: waits_renewal_def)
  have call: "session_inv (set_token_task (length (tw_tasks w)) (call_with False t) ?v)" for t
    by (rule set_task_same[OF v]) (simp_all add: waits_renewal_def call_with_def)
  show ?thesis
    unfolding withSessionTokenRetry_def ensureActiveSessionToken_def using renew call by (simp split: option.split)
qed

lemma renewed_task_facts: "\<not> waits_renewal (renewed_task res k)"
  "calls_fit (tt_wait k) (length (tt_calls k)) \<Longrightarrow> calls_fit (tt_wait (renewed_task res k)) (length (tt_calls (renewed_task res k)))"
  by (auto simp: renewed_task_def waits_renewal_def call_with_def split: token_wait.split sum.split)

lemma call_settled_inv:
  assumes "session_inv w" and "i < length (tw_tasks w)"
  shows "session_inv (call_settled i res w)"
proof -
  let ?k = "tw_tasks w ! i"
  have fit: "calls_fit (tt_wait ?k) (length (tt_calls ?k))" using assms by (simp add: session_inv_def)
  show ?thesis
  proof (cases "tt_wait ?k")
    case (TkCall again)
    then have k: "\<not> waits_renewal ?k" "length (tt_calls ?k) = (if again then 2 else 1)" using fit by (simp_all add: waits_renewal_def)
    have end_with: "session_inv (set_token_task i (\<lambda>k. k\<lparr>tt_wait := TkDone r\<rparr>) w)" for r
      using k by (intro set_task_same[OF assms]) (auto simp: waits_renewal_def)
    show ?thesis
      using TkCall end_with renew_inv[OF assms k(1), of True] k(2)
      by (cases again; cases res) (simp_all add: call_settled_def)
  qed (use assms(1) in \<open>simp_all add: call_settled_def\<close>)
qed

lemma token_reach_inv: "token_reach w \<Longrightarrow> session_inv w"
proof (induction rule: token_reach.induct)
  case (step w e)
  show ?case
  proof (cases e)
    case (RenewalSettled res)
    with step.IH show ?thesis by (auto simp: session_inv_def renewal_settled_def renewed_task_facts)
  next
    case (CallSettled i res)
    with step show ?thesis by (simp add: call_settled_inv)
  qed (use step.IH in \<open>simp_all add: with_retry_inv\<close>, simp add: session_inv_def)
qed (simp add: token_init_def session_inv_def)

text \<open>How many replies a task can still need.\<close>

fun wait_left :: "token_wait \<Rightarrow> nat" where
  "wait_left (TkRenewal again) = (if again then 2 else 4)"
| "wait_left (TkCall again) = (if again then 1 else 3)"
| "wait_left (TkDone res) = 0"

definition token_left :: "token_world \<Rightarrow> nat" where
  "token_left w = sum_list (map (wait_left \<circ> tt_wait) (tw_tasks w))"

lemma left_update:
  "i < length ks \<Longrightarrow> wait_left (tt_wait k) < wait_left (tt_wait (ks ! i))
    \<Longrightarrow> sum_list (map (wait_left \<circ> tt_wait) (ks[i := k])) < sum_list (map (wait_left \<circ> tt_wait) ks)"
proof (induction ks arbitrary: i)
  case (Cons x ks)
  then show ?case by (cases i) auto
qed simp

lemma call_settled_left:
  assumes "i < length (tw_tasks w)" and "tt_wait (tw_tasks w ! i) = TkCall again"
  shows "token_left (call_settled i res w) < token_left w"
proof -
  have up: "token_left (set_token_task i f v) < token_left w"
    if "tw_tasks v = tw_tasks w" "wait_left (tt_wait (f (tw_tasks w ! i))) < wait_left (TkCall again)" for f v
    using left_update[OF assms(1), of "f (tw_tasks w ! i)"] that by (simp add: token_left_def set_token_task_def assms(2))
  have "token_left (renewAuthSession i True w) < token_left w" if "\<not> again"
    using that by (auto simp: renewAuthSession_def intro!: up split: option.split)
  then show ?thesis using assms(2) by (cases again; cases res) (auto simp: call_settled_def intro!: up)
qed

lemma renewed_left: "wait_left (tt_wait (renewed_task res k)) \<le> wait_left (tt_wait k)"
  "waits_renewal k \<Longrightarrow> wait_left (tt_wait (renewed_task res k)) < wait_left (tt_wait k)"
  by (auto simp: renewed_task_def call_with_def waits_renewal_def split: token_wait.split sum.split)

lemma renewal_settled_left:
  assumes "session_inv w" and "tw_renewing w"
  shows "token_left (renewal_settled res w) < token_left w"
proof -
  have "(\<Sum>k\<leftarrow>ks. wait_left (tt_wait (renewed_task res k))) < (\<Sum>k\<leftarrow>ks. wait_left (tt_wait k))"
    if "\<exists>k \<in> set ks. waits_renewal k" for ks
    using that
  proof (induction ks)
    case (Cons k ks)
    have "(\<Sum>k\<leftarrow>ks. wait_left (tt_wait (renewed_task res k))) \<le> (\<Sum>k\<leftarrow>ks. wait_left (tt_wait k))"
      by (intro sum_list_mono) (simp add: renewed_left)
    with Cons renewed_left[where res = res and k = k] show ?case by (cases "waits_renewal k") auto
  qed simp
  with assms show ?thesis by (simp add: token_left_def renewal_settled_def session_inv_def comp_def)
qed

text \<open>C33: A call that needs a session always ends: its function runs at most twice, each reply brings the whole closer to its
  end (a call is answered after at most four), and nobody is left waiting: while a task is unfinished either its
  own call is on its way or the one renewal all waiting tasks share is, and a renewal is on its way only while
  somebody waits for it.\<close>

theorem session_retry_ends:
  assumes "token_reach w"
  shows "(\<forall>k \<in> set (tw_tasks w). length (tt_calls k) \<le> 2 \<and> wait_left (tt_wait k) \<le> 4)
    \<and> (\<forall>i < length (tw_tasks w). wait_left (tt_wait (tw_tasks w ! i)) = 0 \<or> tw_renewing w \<or> token_may (CallSettled i None) w)
    \<and> (tw_renewing w \<longrightarrow> (\<exists>k \<in> set (tw_tasks w). waits_renewal k))
    \<and> (\<forall>e. token_may e w \<longrightarrow> (\<exists>res i r. e \<in> {RenewalSettled res, CallSettled i r}) \<longrightarrow> token_left (token_step e w) < token_left w)"
proof -
  have inv: "session_inv w" by (rule token_reach_inv[OF assms])
  have "length (tt_calls k) \<le> 2 \<and> wait_left (tt_wait k) \<le> 4" if "k \<in> set (tw_tasks w)" for k
    using inv that by (cases "tt_wait k") (auto simp: session_inv_def dest!: bspec)
  moreover have "wait_left (tt_wait (tw_tasks w ! i)) = 0 \<or> tw_renewing w \<or> token_may (CallSettled i None) w" if "i < length (tw_tasks w)" for i
    using inv that by (cases "tt_wait (tw_tasks w ! i)") (auto simp: session_inv_def waits_renewal_def dest!: nth_mem)
  moreover have "tw_renewing w \<longrightarrow> (\<exists>k \<in> set (tw_tasks w). waits_renewal k)" using inv by (simp add: session_inv_def)
  moreover have "token_left (token_step e w) < token_left w"
    if "token_may e w" "\<exists>res i r. e \<in> {RenewalSettled res, CallSettled i r}" for e
    using that inv by (auto simp: renewal_settled_left intro: call_settled_left)
  ultimately show ?thesis by blast
qed

fun token_run :: "token_event list \<Rightarrow> token_world \<Rightarrow> token_world" where
  "token_run [] w = w" | "token_run (e # es) w = token_run es (token_step e w)"

fun token_can :: "token_event list \<Rightarrow> token_world \<Rightarrow> bool" where
  "token_can [] w = True" | "token_can (e # es) w = (token_may e w \<and> token_can es (token_step e w))"

lemma token_run_reach: "token_reach w \<Longrightarrow> token_can es w \<Longrightarrow> token_reach (token_run es w)"
  by (induction es arbitrary: w) (auto intro: token_reach.step)

text \<open>Two tasks share a renewal; the first is refused with the new token and asks for another.\<close>

definition demo_token :: auth_token where
  "demo_token = \<lparr>aft_id = ''t1'', aft_access = ''a1'', aft_expires = Some 900000\<rparr>"

definition demo_tokens :: "token_event list" where
  "demo_tokens = [TokenNeeded 0, TokenNeeded 5, RenewalSettled (Inr demo_token), CallSettled 0 (Some ''Invalid auth session.'')]"

lemma demo_tokens_run: "token_can demo_tokens (token_init None (Some ''db''))" "tw_renewing (token_run demo_tokens (token_init None (Some ''db'')))"
  "map (length \<circ> tt_calls) (tw_tasks (token_run demo_tokens (token_init None (Some ''db'')))) = [1, 1]"
  by (code_simp+)

theorem session_retry_ends_witness:
  "\<exists>k. k \<in> set (tw_tasks (token_run demo_tokens (token_init None (Some ''db'')))) \<and> waits_renewal k"
  using session_retry_ends[OF token_run_reach[OF token_reach.start demo_tokens_run(1)]] demo_tokens_run(2) by blast

end
