(* ===== verification/Downloads.thy ===== *)
theory Downloads
  imports SessionTokens
begin

text \<open>
  \<open>src/lib/downloadUrls.ts\<close>: the cache of signed addresses.  Every call of \<open>getSignedDownloadUrls\<close> is a task; the
  replies to its batch and single requests are steps.
\<close>

section \<open>State\<close>

record download_entry =
  de_url :: string
  de_expires :: int

datatype batch_status = BatchUnknown | BatchAvailable | BatchUnavailable

text \<open>What a task waits for: the batch, or the single requests still out; \<open>dt_fetched\<close> is \<open>entriesByKey\<close>.\<close>

datatype download_wait = DwBatch | DwSingles "string list" | DwDone "string option"

record download_task =
  dt_now :: int
  dt_missing :: "string list"
  dt_urls :: "(string, string) rec"
  dt_fetched :: "(string, download_entry) rec"
  dt_wait :: download_wait
  dt_key :: "string option"

record download_world =
  dw_cache :: "(string, download_entry) rec"
  dw_inflight :: "(string, nat) rec"
  dw_status :: batch_status
  dw_until :: int
  dw_tasks :: "download_task list"
  dw_signed :: "(string \<times> download_entry \<times> nat) list"

text \<open>\<open>dt_key\<close> is the key when the task runs for \<open>getSignedDownloadUrl\<close>; \<open>dw_signed\<close> records what the server
  signed, for which key and task.\<close>

definition DOWNLOAD_CACHE_EARLY_REFRESH_MS :: int where "DOWNLOAD_CACHE_EARLY_REFRESH_MS = 30000"
definition BATCH_ENDPOINT_RECHECK_MS :: int where "BATCH_ENDPOINT_RECHECK_MS = 60000"

definition isBatchEndpointUnavailableError :: "string \<Rightarrow> bool" where
  "isBatchEndpointUnavailableError e = (let message = js_lower e in
     js_includes ''request failed (404)'' message \<or> js_includes ''not found'' message)"

definition canProbeBatchEndpoint :: "int \<Rightarrow> download_world \<Rightarrow> bool" where
  "canProbeBatchEndpoint now w = (if dw_status w \<noteq> BatchUnavailable then True else dw_until w \<le> now)"

definition markBatchEndpointUnavailable :: "int \<Rightarrow> download_world \<Rightarrow> download_world" where
  "markBatchEndpointUnavailable now w = w\<lparr>dw_status := BatchUnavailable, dw_until := now + BATCH_ENDPOINT_RECHECK_MS\<rparr>"

definition set_download :: "nat \<Rightarrow> (download_task \<Rightarrow> download_task) \<Rightarrow> download_world \<Rightarrow> download_world" where
  "set_download i f w = w\<lparr>dw_tasks := (dw_tasks w)[i := f (dw_tasks w ! i)]\<rparr>"

text \<open>An answer of the server for a key of task \<open>i\<close>.\<close>

definition entry_signed :: "int \<Rightarrow> nat \<Rightarrow> string \<times> string \<times> int \<Rightarrow> download_world \<Rightarrow> download_world" where
  "entry_signed now i item w = (case item of (key, link, expiresIn) \<Rightarrow>
     let e = \<lparr>de_url = link, de_expires = now + expiresIn * 1000\<rparr>
     in set_download i (\<lambda>t. t\<lparr>dt_fetched := rec_set key e (dt_fetched t)\<rparr>) (w\<lparr>dw_signed := (key, e, i) # dw_signed w\<rparr>))"

section \<open>Finding addresses\<close>

definition fresh_entry :: "int \<Rightarrow> string \<Rightarrow> download_world \<Rightarrow> string option" where
  "fresh_entry now key w = (case map_of (dw_cache w) key of None \<Rightarrow> None
     | Some e \<Rightarrow> if now < de_expires e - DOWNLOAD_CACHE_EARLY_REFRESH_MS then Some (de_url e) else None)"

text \<open>A task ends; with a key it leaves \<open>inflightDownloadRequests\<close>.\<close>

definition end_download :: "nat \<Rightarrow> string option \<Rightarrow> download_world \<Rightarrow> download_world" where
  "end_download i err w = (let t = dw_tasks w ! i; w = set_download i (\<lambda>t. t\<lparr>dt_wait := DwDone err\<rparr>) w in
     case dt_key t of None \<Rightarrow> w | Some key \<Rightarrow> w\<lparr>dw_inflight := rec_del key (dw_inflight w)\<rparr>)"

text \<open>\<open>requestDownloadUrlBatch\<close> has returned: the expired entries go, the fetched ones are added.\<close>

definition download_fetched :: "nat \<Rightarrow> download_world \<Rightarrow> download_world" where
  "download_fetched i w = (let t = dw_tasks w ! i;
     kept = filter (\<lambda>(k, e). dt_now t < de_expires e) (dw_cache w);
     cache = foldl (\<lambda>c (k, e). rec_set k e c) kept (dt_fetched t);
     urls = foldl (\<lambda>u (k, e). rec_set k (de_url e) u) (dt_urls t) (dt_fetched t);
     w = set_download i (\<lambda>t. t\<lparr>dt_urls := urls\<rparr>) (w\<lparr>dw_cache := cache\<rparr>)
   in end_download i (case dt_key t of None \<Rightarrow> None
        | Some key \<Rightarrow> if rec_or urls key [] = [] then Some ''Could not load attachment URL.'' else None) w)"

text \<open>The keys the batch left out are asked for one by one, all at once.\<close>

definition begin_singles :: "nat \<Rightarrow> download_world \<Rightarrow> download_world" where
  "begin_singles i w = (let t = dw_tasks w ! i in
     if length (dt_fetched t) < length (dt_missing t)
     then let missing = filter (\<lambda>k. k \<notin> set (rec_keys (dt_fetched t))) (dt_missing t) in
       if missing = [] then download_fetched i w else set_download i (\<lambda>t. t\<lparr>dt_wait := DwSingles missing\<rparr>) w
     else download_fetched i w)"

definition getSignedDownloadUrls :: "int \<Rightarrow> string option \<Rightarrow> string list \<Rightarrow> download_world \<Rightarrow> download_world" where
  "getSignedDownloadUrls now only keys w = (let
     uniqueKeys = rev (remdups (rev (filter (\<lambda>k. js_trim k \<noteq> []) keys)));
     missing = filter (\<lambda>k. fresh_entry now k w = None) uniqueKeys;
     urls = map (\<lambda>k. (k, the (fresh_entry now k w))) (filter (\<lambda>k. fresh_entry now k w \<noteq> None) uniqueKeys);
     i = length (dw_tasks w);
     w = w\<lparr>dw_tasks := dw_tasks w @ [\<lparr>dt_now = now, dt_missing = missing, dt_urls = urls, dt_fetched = [], dt_wait = DwBatch, dt_key = only\<rparr>]\<rparr>
   in if missing = [] then end_download i (if only = None then None else if urls = [] then Some ''Could not load attachment URL.'' else None) w
      else if canProbeBatchEndpoint now w then w else begin_singles i w)"

text \<open>\<open>getSignedDownloadUrl\<close>: from the cache, from a request on its way, or by a request of its own.\<close>

definition getSignedDownloadUrl :: "int \<Rightarrow> string \<Rightarrow> download_world \<Rightarrow> download_world" where
  "getSignedDownloadUrl now key w = (if fresh_entry now key w \<noteq> None then w
     else if map_of (dw_inflight w) key \<noteq> None then w
     else let i = length (dw_tasks w); w = getSignedDownloadUrls now (Some key) [key] w in
       case dt_wait (dw_tasks w ! i) of DwDone r \<Rightarrow> w | _ \<Rightarrow> w\<lparr>dw_inflight := rec_set key i (dw_inflight w)\<rparr>)"

definition invalidateSignedDownloadUrl :: "string \<Rightarrow> download_world \<Rightarrow> download_world" where
  "invalidateSignedDownloadUrl key w = w\<lparr>dw_cache := rec_del key (dw_cache w)\<rparr>"

definition clearSignedDownloadUrlCache :: "download_world \<Rightarrow> download_world" where
  "clearSignedDownloadUrlCache w = w\<lparr>dw_cache := [], dw_inflight := [], dw_status := BatchUnknown, dw_until := 0\<rparr>"

section \<open>Replies\<close>

definition batch_replied :: "int \<Rightarrow> nat \<Rightarrow> string + (string \<times> string \<times> int) list \<Rightarrow> download_world \<Rightarrow> download_world" where
  "batch_replied now i res w = (case res of
     Inl e \<Rightarrow> if isBatchEndpointUnavailableError e then begin_singles i (markBatchEndpointUnavailable now w) else end_download i (Some e) w
   | Inr items \<Rightarrow> begin_singles i (foldl (\<lambda>w item. entry_signed now i item w) (w\<lparr>dw_status := BatchAvailable, dw_until := 0\<rparr>) items))"

definition single_replied :: "int \<Rightarrow> nat \<Rightarrow> string \<Rightarrow> (string \<times> int) option \<Rightarrow> download_world \<Rightarrow> download_world" where
  "single_replied now i key res w = (let
     w = (case res of None \<Rightarrow> w | Some (link, expiresIn) \<Rightarrow> entry_signed now i (key, link, expiresIn) w)
   in case dt_wait (dw_tasks w ! i) of
        DwSingles keys \<Rightarrow> (let rest = filter (\<lambda>k. k \<noteq> key) keys in
          if rest = [] then download_fetched i w else set_download i (\<lambda>t. t\<lparr>dt_wait := DwSingles rest\<rparr>) w)
      | _ \<Rightarrow> w)"

datatype download_event = UrlsAsked int "string list" | UrlAsked int string | BatchReplied int nat "string + (string \<times> string \<times> int) list"
  | SingleReplied int nat string "(string \<times> int) option" | UrlInvalidated string | UrlsCleared

fun download_step :: "download_event \<Rightarrow> download_world \<Rightarrow> download_world" where
  "download_step (UrlsAsked now keys) w = getSignedDownloadUrls now None keys w"
| "download_step (UrlAsked now key) w = getSignedDownloadUrl now key w"
| "download_step (BatchReplied now i res) w = batch_replied now i res w"
| "download_step (SingleReplied now i key res) w = single_replied now i key res w"
| "download_step (UrlInvalidated key) w = invalidateSignedDownloadUrl key w"
| "download_step UrlsCleared w = clearSignedDownloadUrlCache w"

fun download_may :: "download_event \<Rightarrow> download_world \<Rightarrow> bool" where
  "download_may (BatchReplied now i res) w = (i < length (dw_tasks w) \<and> dt_wait (dw_tasks w ! i) = DwBatch)"
| "download_may (SingleReplied now i key res) w = (i < length (dw_tasks w)
     \<and> (case dt_wait (dw_tasks w ! i) of DwSingles keys \<Rightarrow> key \<in> set keys | _ \<Rightarrow> False))"
| "download_may e w = True"

definition download_init :: download_world where
  "download_init = \<lparr>dw_cache = [], dw_inflight = [], dw_status = BatchUnknown, dw_until = 0, dw_tasks = [], dw_signed = []\<rparr>"

inductive download_reach :: "download_world \<Rightarrow> bool" where
  start: "download_reach download_init"
| step: "download_reach w \<Longrightarrow> download_may e w \<Longrightarrow> download_reach (download_step e w)"

end
