(* ===== verification/DownloadFacts.thy ===== *)
theory DownloadFacts
  imports Downloads
begin

text \<open>
  What the cache of \<open>Downloads\<close> promises: an address is handed out only for the key it was signed for, and only while
  it lasts.
\<close>

definition signed_for :: "download_world \<Rightarrow> nat \<Rightarrow> string \<times> string \<Rightarrow> bool" where
  "signed_for w i ku \<longleftrightarrow> (\<exists>e j. (fst ku, e, j) \<in> set (dw_signed w) \<and> de_url e = snd ku
     \<and> (j = i \<or> dt_now (dw_tasks w ! i) + 30000 < de_expires e))"

definition task_signed :: "download_world \<Rightarrow> nat \<Rightarrow> bool" where
  "task_signed w i \<longleftrightarrow> (\<forall>(k, e) \<in> set (dt_fetched (dw_tasks w ! i)). (k, e, i) \<in> set (dw_signed w))
     \<and> (\<forall>ku \<in> set (dt_urls (dw_tasks w ! i)). signed_for w i ku)"

definition cache_signed :: "download_world \<Rightarrow> bool" where
  "cache_signed w \<longleftrightarrow> (\<forall>(k, e) \<in> set (dw_cache w). \<exists>j. (k, e, j) \<in> set (dw_signed w))"

definition download_inv :: "download_world \<Rightarrow> bool" where
  "download_inv w \<longleftrightarrow> cache_signed w \<and> (\<forall>i < length (dw_tasks w). task_signed w i)"

lemma rec_set_subset: "set (rec_set k v r) \<subseteq> insert (k, v) (set r)"
  by (induction r) auto

lemma foldl_rec_set: "set (foldl (\<lambda>r (k, e). rec_set k (f e) r) r es) \<subseteq> set r \<union> (\<lambda>(k, e). (k, f e)) ` set es"
proof (induction es arbitrary: r)
  case (Cons a es)
  obtain k e where a: "a = (k, e)" by fastforce
  from Cons[of "rec_set k (f e) r"] rec_set_subset[of k "f e" r] show ?case by (auto simp: a)
qed simp

text \<open>A step that changes one task only in \<open>dt_urls\<close>, \<open>dt_fetched\<close>, \<open>dt_wait\<close>.\<close>

lemma set_download_inv:
  assumes "download_inv w" and "dt_now (f (dw_tasks w ! i)) = dt_now (dw_tasks w ! i)"
    and "i < length (dw_tasks w) \<Longrightarrow> (\<forall>(k, e) \<in> set (dt_fetched (f (dw_tasks w ! i))). (k, e, i) \<in> set (dw_signed w))
      \<and> (\<forall>ku \<in> set (dt_urls (f (dw_tasks w ! i))). signed_for w i ku)"
  shows "download_inv (set_download i f w)"
proof -
  have now: "dt_now (dw_tasks (set_download i f w) ! j) = dt_now (dw_tasks w ! j)" for j
    using assms(2) by (cases "i < length (dw_tasks w)"; cases "i = j") (simp_all add: set_download_def list_update_beyond not_less)
  have sf: "signed_for (set_download i f w) j ku = signed_for w j ku" for j ku
    unfolding signed_for_def now by (simp add: set_download_def)
  have "task_signed (set_download i f w) j" if "j < length (dw_tasks w)" for j
    using assms(1,3) that unfolding task_signed_def sf download_inv_def
    by (cases "j = i") (auto simp: set_download_def)
  with assms(1) show ?thesis by (auto simp: download_inv_def cache_signed_def set_download_def)
qed

lemma set_wait_inv: "download_inv w \<Longrightarrow> download_inv (set_download i (\<lambda>t. t\<lparr>dt_wait := k\<rparr>) w)"
  by (rule set_download_inv) (auto simp: download_inv_def task_signed_def)

lemma frames_inv:
  "download_inv (w\<lparr>dw_inflight := a\<rparr>) = download_inv w" "download_inv (w\<lparr>dw_status := b\<rparr>) = download_inv w"
  "download_inv (w\<lparr>dw_until := c\<rparr>) = download_inv w"
  by (simp_all add: download_inv_def task_signed_def cache_signed_def signed_for_def)

lemma end_download_inv: "download_inv w \<Longrightarrow> download_inv (end_download i err w)"
  by (simp add: end_download_def Let_def set_wait_inv frames_inv split: option.split)

lemma cache_inv:
  assumes "download_inv w" and "\<And>k e. (k, e) \<in> set c \<Longrightarrow> \<exists>j. (k, e, j) \<in> set (dw_signed w)"
  shows "download_inv (w\<lparr>dw_cache := c\<rparr>)"
  using assms by (auto simp: download_inv_def task_signed_def cache_signed_def signed_for_def)

lemma download_fetched_inv:
  assumes "download_inv w" and "i < length (dw_tasks w)"
  shows "download_inv (download_fetched i w)"
proof -
  let ?t = "dw_tasks w ! i"
  have t: "\<forall>(k, e) \<in> set (dt_fetched ?t). (k, e, i) \<in> set (dw_signed w)" "\<forall>ku \<in> set (dt_urls ?t). signed_for w i ku"
    and c: "\<forall>(k, e) \<in> set (dw_cache w). \<exists>j. (k, e, j) \<in> set (dw_signed w)"
    using assms by (simp_all add: download_inv_def task_signed_def cache_signed_def)
  define cache where "cache = foldl (\<lambda>c (k, e). rec_set k e c) (filter (\<lambda>(k, e). dt_now ?t < de_expires e) (dw_cache w)) (dt_fetched ?t)"
  define urls where "urls = foldl (\<lambda>u (k, e). rec_set k (de_url e) u) (dt_urls ?t) (dt_fetched ?t)"
  have "\<exists>j. (k, e, j) \<in> set (dw_signed w)" if "(k, e) \<in> set cache" for k e
    using that foldl_rec_set[of "\<lambda>e. e" "filter (\<lambda>(k, e). dt_now ?t < de_expires e) (dw_cache w)" "dt_fetched ?t"] t(1) c
    by (fastforce simp: cache_def)
  then have 1: "download_inv (w\<lparr>dw_cache := cache\<rparr>)" by (rule cache_inv[OF assms(1)])
  have "signed_for w i ku" if "ku \<in> set urls" for ku
    using that foldl_rec_set[of de_url "dt_urls ?t" "dt_fetched ?t"] t by (fastforce simp: urls_def signed_for_def)
  then have "download_inv (set_download i (\<lambda>t. t\<lparr>dt_urls := urls\<rparr>) (w\<lparr>dw_cache := cache\<rparr>))"
    using t by (intro set_download_inv[OF 1]) (auto simp: signed_for_def)
  from end_download_inv[OF this] show ?thesis
    unfolding download_fetched_def Let_def cache_def[symmetric] urls_def[symmetric] .
qed

lemma begin_singles_inv: "download_inv w \<Longrightarrow> i < length (dw_tasks w) \<Longrightarrow> download_inv (begin_singles i w)"
  by (simp add: begin_singles_def Let_def download_fetched_inv set_wait_inv)

lemma entry_signed_inv:
  assumes "download_inv w"
  shows "download_inv (entry_signed now i item w)"
proof -
  obtain key link n where item: "item = (key, link, n)" by (cases item)
  let ?e = "\<lparr>de_url = link, de_expires = now + n * 1000\<rparr>"
  let ?v = "w\<lparr>dw_signed := (key, ?e, i) # dw_signed w\<rparr>"
  have v: "download_inv ?v" using assms by (fastforce simp: download_inv_def task_signed_def cache_signed_def signed_for_def)
  show ?thesis
    unfolding item entry_signed_def Let_def prod.case
  proof (rule set_download_inv[OF v])
    assume i: "i < length (dw_tasks ?v)"
    with v have "task_signed ?v i" by (simp add: download_inv_def)
    then show "(\<forall>(k, e) \<in> set (dt_fetched ((dw_tasks ?v ! i)\<lparr>dt_fetched := rec_set key ?e (dt_fetched (dw_tasks ?v ! i))\<rparr>)). (k, e, i) \<in> set (dw_signed ?v))
        \<and> (\<forall>ku \<in> set (dt_urls ((dw_tasks ?v ! i)\<lparr>dt_fetched := rec_set key ?e (dt_fetched (dw_tasks ?v ! i))\<rparr>)). signed_for ?v i ku)"
      using rec_set_subset[of key ?e "dt_fetched (dw_tasks w ! i)"] by (fastforce simp: task_signed_def)
  qed simp
qed

lemma tasks_length [simp]:
  "length (dw_tasks (set_download i f w)) = length (dw_tasks w)" "length (dw_tasks (entry_signed now i item w)) = length (dw_tasks w)"
  by (simp_all add: set_download_def entry_signed_def Let_def split: prod.split)

lemma entries_inv:
  "download_inv w \<Longrightarrow> download_inv (foldl (\<lambda>w item. entry_signed now i item w) w items)
     \<and> length (dw_tasks (foldl (\<lambda>w item. entry_signed now i item w) w items)) = length (dw_tasks w)"
  by (induction items arbitrary: w) (auto simp: entry_signed_inv)

lemma fresh_entry_signed:
  assumes "download_inv w" and "fresh_entry now key w = Some u"
  shows "\<exists>e j. (key, e, j) \<in> set (dw_signed w) \<and> de_url e = u \<and> now + 30000 < de_expires e"
proof -
  from assms(2) obtain e where "map_of (dw_cache w) key = Some e" "de_url e = u" "now + 30000 < de_expires e"
    by (auto simp: fresh_entry_def DOWNLOAD_CACHE_EARLY_REFRESH_MS_def split: option.splits if_splits)
  with assms(1) show ?thesis by (fastforce simp: download_inv_def cache_signed_def dest: map_of_SomeD)
qed

lemma new_download_inv:
  assumes "download_inv w" and "dt_fetched t = []" and "\<And>k u. (k, u) \<in> set (dt_urls t) \<Longrightarrow> fresh_entry (dt_now t) k w = Some u"
  shows "download_inv (w\<lparr>dw_tasks := dw_tasks w @ [t]\<rparr>)" (is "download_inv ?v")
proof -
  have "task_signed ?v i" if i: "i < Suc (length (dw_tasks w))" for i
  proof (cases "i = length (dw_tasks w)")
    case True
    with assms(2) show ?thesis
      using fresh_entry_signed[OF assms(1) assms(3)] by (fastforce simp: task_signed_def signed_for_def)
  next
    case False
    with i assms(1) have "task_signed w i" by (simp add: download_inv_def)
    with i False show ?thesis by (auto simp: task_signed_def signed_for_def nth_append)
  qed
  with assms(1) show ?thesis by (simp add: download_inv_def cache_signed_def)
qed

lemma getSignedDownloadUrls_inv:
  assumes "download_inv w"
  shows "download_inv (getSignedDownloadUrls now only keys w)"
proof -
  let ?ks = "rev (remdups (rev (filter (\<lambda>k. js_trim k \<noteq> []) keys)))"
  let ?t = "\<lparr>dt_now = now, dt_missing = filter (\<lambda>k. fresh_entry now k w = None) ?ks,
      dt_urls = map (\<lambda>k. (k, the (fresh_entry now k w))) (filter (\<lambda>k. fresh_entry now k w \<noteq> None) ?ks), dt_fetched = [], dt_wait = DwBatch, dt_key = only\<rparr>"
  have v: "download_inv (w\<lparr>dw_tasks := dw_tasks w @ [?t]\<rparr>)"
    by (rule new_download_inv[OF assms]) auto
  have either: "download_inv a \<Longrightarrow> download_inv b \<Longrightarrow> download_inv (if c then a else b)" for a b c by simp
  show ?thesis
    unfolding getSignedDownloadUrls_def Let_def by (intro either end_download_inv begin_singles_inv v) simp
qed

lemma download_step_inv:
  assumes "download_inv w" and "download_may e w"
  shows "download_inv (download_step e w)"
proof (cases e)
  case (BatchReplied now i res)
  with assms entries_inv[of "w\<lparr>dw_status := BatchAvailable, dw_until := 0\<rparr>" now i] show ?thesis
    by (auto simp: batch_replied_def markBatchEndpointUnavailable_def frames_inv end_download_inv split: sum.split intro!: begin_singles_inv)
next
  case (SingleReplied now i key res)
  with assms show ?thesis
    by (auto simp: single_replied_def Let_def entry_signed_inv set_wait_inv split: option.split download_wait.split prod.split intro!: download_fetched_inv)
next
  case (UrlAsked now key)
  with assms(1) show ?thesis
    by (simp add: getSignedDownloadUrl_def Let_def getSignedDownloadUrls_inv frames_inv split: download_wait.split)
next
  case (UrlInvalidated key)
  have "download_inv (w\<lparr>dw_cache := rec_del key (dw_cache w)\<rparr>)"
    by (rule cache_inv[OF assms(1)]) (use assms(1) in \<open>auto simp: AList.delete_eq download_inv_def cache_signed_def\<close>)
  with UrlInvalidated show ?thesis by (simp add: invalidateSignedDownloadUrl_def)
next
  case UrlsCleared
  have "download_inv (w\<lparr>dw_cache := []\<rparr>)" by (rule cache_inv[OF assms(1)]) simp
  with UrlsCleared show ?thesis by (simp add: clearSignedDownloadUrlCache_def frames_inv)
qed (use assms(1) in \<open>simp add: getSignedDownloadUrls_inv\<close>)

lemma download_reach_inv: "download_reach w \<Longrightarrow> download_inv w"
  by (induction rule: download_reach.induct) (simp_all add: download_step_inv, simp add: download_init_def download_inv_def cache_signed_def)

text \<open>C34: An address is handed out only for what it was signed for and only while it lasts: every address in the result of a
  call was signed by the server for exactly that key, and either during this very call or so that it still had more
  than thirty seconds to live when the call began; the same holds for an address taken straight from the cache,
  whatever calls, partial batches, failures, invalidations and clean-ups lie in between.\<close>

theorem download_urls_signed:
  assumes "download_reach w"
  shows "(\<forall>i k u. i < length (dw_tasks w) \<longrightarrow> (k, u) \<in> set (dt_urls (dw_tasks w ! i)) \<longrightarrow>
        (\<exists>e j. (k, e, j) \<in> set (dw_signed w) \<and> de_url e = u \<and> (j = i \<or> dt_now (dw_tasks w ! i) + 30000 < de_expires e)))
    \<and> (\<forall>now k u. fresh_entry now k w = Some u \<longrightarrow>
        (\<exists>e j. (k, e, j) \<in> set (dw_signed w) \<and> de_url e = u \<and> now + 30000 < de_expires e))"
proof -
  have inv: "download_inv w" by (rule download_reach_inv[OF assms])
  have "signed_for w i (k, u)" if "i < length (dw_tasks w)" "(k, u) \<in> set (dt_urls (dw_tasks w ! i))" for i k u
    using inv that by (auto simp: download_inv_def task_signed_def)
  with fresh_entry_signed[OF inv] show ?thesis by (auto simp: signed_for_def)
qed

fun download_can :: "download_event list \<Rightarrow> download_world \<Rightarrow> bool" where
  "download_can [] w = True" | "download_can (e # es) w = (download_may e w \<and> download_can es (download_step e w))"

definition download_run :: "download_event list \<Rightarrow> download_world \<Rightarrow> download_world" where
  "download_run es w = foldl (\<lambda>w e. download_step e w) w es"

lemma download_run_reach: "download_reach w \<Longrightarrow> download_can es w \<Longrightarrow> download_reach (download_run es w)"
  by (induction es arbitrary: w) (auto simp: download_run_def intro: download_reach.step)

text \<open>The batch leaves one of two keys out; the single request gets it.\<close>

definition demo_downloads :: "download_event list" where
  "demo_downloads = [UrlsAsked 0 [''a'', ''b'', ''a''], BatchReplied 100 0 (Inr [(''b'', ''https://s/b'', 600)]),
     SingleReplied 200 0 ''a'' (Some (''https://s/a'', 600))]"

lemma demo_downloads_run: "download_can demo_downloads download_init"
  "fresh_entry 1000 ''a'' (download_run demo_downloads download_init) = Some ''https://s/a''"
  "dt_urls (dw_tasks (download_run demo_downloads download_init) ! 0) = [(''b'', ''https://s/b''), (''a'', ''https://s/a'')]"
  by (code_simp+)

theorem download_urls_signed_witness:
  "\<exists>e j. (''a'', e, j) \<in> set (dw_signed (download_run demo_downloads download_init)) \<and> de_url e = ''https://s/a'' \<and> 31000 < de_expires e"
proof -
  have "download_reach (download_run demo_downloads download_init)" by (rule download_run_reach[OF download_reach.start demo_downloads_run(1)])
  from download_urls_signed[OF this, THEN conjunct2, rule_format, OF demo_downloads_run(2)] show ?thesis by simp
qed

section \<open>Where it stops\<close>

text \<open>An answer that arrives after a sign-out has cleared the cache fills it again: the next account of this window finds
  the address without asking the server, which would have refused it.\<close>

lemma late_url_survives_sign_out:
  "fresh_entry 5000 ''a'' (download_run [UrlAsked 0 ''a'', UrlsCleared, BatchReplied 900 0 (Inr [(''a'', ''https://s/a'', 600)])] download_init)
   = Some ''https://s/a''"
  by code_simp

end
