(* ===== verification/Login.thy ===== *)
theory Login
  imports AuthClient Downloads
begin

text \<open>
  \<open>src/lib/spacetimedb/auth.ts\<close>: signing in and out, on top of the connection.  Every call of
  \<open>loginWithPassword\<close> or \<open>changePassword\<close> is a task.  What follows a settled promise is a step of its own, so
  events of the connection may come in between; the cache of the connection at such a step is its parameter.
\<close>

section \<open>State\<close>

text \<open>What the account service answers to a sign-in; \<open>la_session\<close> is the session token it stores.\<close>

record login_auth =
  la_token :: string
  la_identity :: identity
  la_displayName :: string
  la_session :: string

datatype login_wait = LgChange string | LgAuth | LgConnect nat | LgReconnect nat | LgRegister | LgDone | LgFailed string

record login_task =
  lg_username :: string
  lg_auth :: login_auth
  lg_wait :: login_wait

record login_world =
  lw_client :: client
  lw_downloads :: download_world
  lw_tasks :: "login_task list"
  lw_signouts :: nat

text \<open>\<open>lw_signouts\<close>: the calls of \<open>signOut\<close> that wait for their presence reducer.\<close>

definition no_auth :: login_auth where
  "no_auth = \<lparr>la_token = [], la_identity = [], la_displayName = [], la_session = []\<rparr>"

definition login_goes :: "nat \<Rightarrow> login_wait \<Rightarrow> login_world \<Rightarrow> login_world" where
  "login_goes i k w = w\<lparr>lw_tasks := (lw_tasks w)[i := (lw_tasks w ! i)\<lparr>lg_wait := k\<rparr>]\<rparr>"

definition on_client :: "(client \<Rightarrow> client) \<Rightarrow> login_world \<Rightarrow> login_world" where
  "on_client f w = w\<lparr>lw_client := f (lw_client w)\<rparr>"

definition clearStoredToken :: "client \<Rightarrow> client" where "clearStoredToken c = c\<lparr>cl_token := None\<rparr>"

definition setStoredToken :: "string \<Rightarrow> client \<Rightarrow> client" where "setStoredToken t c = c\<lparr>cl_token := Some t\<rparr>"

definition client_identity :: "client \<Rightarrow> identity option" where
  "client_identity c = signed_in (ev_app (cl_ev c))"

definition client_user :: "client \<Rightarrow> user option" where
  "client_user c = self_user (as_self (ev_app (cl_ev c)))"

text \<open>\<open>await connect()\<close>: the error it throws at once, or the run it waits for, \<open>None\<close> when the connection is active.\<close>

definition await_connect :: "platform \<Rightarrow> int \<Rightarrow> client \<Rightarrow> client \<times> (string + nat option)" where
  "await_connect pf now c = (connect pf now False c,
     if is_active c then Inr None
     else case cl_connectPromise c of Some r \<Rightarrow> Inr (Some r)
     | None \<Rightarrow> (case sc_config (cl_server c) of None \<Rightarrow> Inl ''Server not configured. Please complete setup first.''
         | Some config \<Rightarrow> Inr (Some (length (cl_runs c)))))"

section \<open>The row of the user\<close>

text \<open>\<open>ensureAuthenticatedUserRow\<close> once there is a connection, up to the reducer.\<close>

definition username_owner :: "string \<Rightarrow> db_cache \<Rightarrow> user_row option" where
  "username_owner normalized cache = find (\<lambda>row. js_lower (rowString (r_u_username row)) = normalized) (my_visible_users cache)"

definition ensure_row :: "nat \<Rightarrow> db_cache \<Rightarrow> login_world \<Rightarrow> login_world" where
  "ensure_row i cache w = (let t = lw_tasks w ! i; w = on_client (on_app (syncUsers cache)) w in
     if client_user (lw_client w) \<noteq> None then login_goes i LgDone w
     else case client_identity (lw_client w) of
       None \<Rightarrow> login_goes i (LgFailed ''Login succeeded but no Spacetime identity is active.'') w
     | Some me \<Rightarrow> (case username_owner (lg_username t) cache of
         Some row \<Rightarrow> if sameIdentity (toIdentityString (r_u_identity row)) me then login_goes i LgRegister w
           else login_goes i (LgFailed ''This username is linked to a different Spacetime identity. Re-link from a currently signed-in session.'') w
       | None \<Rightarrow> login_goes i LgRegister w))"

definition ensureAuthenticatedUserRow :: "platform \<Rightarrow> int \<Rightarrow> nat \<Rightarrow> db_cache \<Rightarrow> login_world \<Rightarrow> login_world" where
  "ensureAuthenticatedUserRow pf now i cache w = (if cl_connection (lw_client w) \<noteq> None then ensure_row i cache w
     else case await_connect pf now (lw_client w) of (c, r) \<Rightarrow> let w = w\<lparr>lw_client := c\<rparr> in
       case r of Inl e \<Rightarrow> login_goes i (LgFailed e) w | Inr None \<Rightarrow> ensure_row i cache w | Inr (Some r) \<Rightarrow> login_goes i (LgReconnect r) w)"

text \<open>After the reducer \<open>registerUser\<close>, whose error \<open>user already registered\<close> is tolerated.\<close>

definition user_registered :: "nat \<Rightarrow> string option \<Rightarrow> db_cache \<Rightarrow> login_world \<Rightarrow> login_world" where
  "user_registered i res cache w = (case res of
     Some e \<Rightarrow> if js_includes ''user already registered for this identity'' e then (let w = on_client (on_app (syncUsers cache)) w in
         if client_user (lw_client w) \<noteq> None then login_goes i LgDone w
         else login_goes i (LgFailed ''Login succeeded but user profile is not available for this identity.'') w)
       else login_goes i (LgFailed e) w
   | None \<Rightarrow> (let w = on_client (on_app (syncUsers cache)) w in
       if client_user (lw_client w) \<noteq> None then login_goes i LgDone w
       else login_goes i (LgFailed ''Login succeeded but user profile is not available for this identity.'') w))"

section \<open>Signing in\<close>

text \<open>\<open>loginWithPassword\<close> up to its request.\<close>

definition login_start :: "string \<Rightarrow> string \<Rightarrow> login_wait" where
  "login_start username password = (if normalizeUsername username = [] then LgFailed ''Username is required.''
     else case passwordLengthError password of Some e \<Rightarrow> LgFailed e | None \<Rightarrow> LgAuth)"

definition loginWithPassword :: "string \<Rightarrow> string \<Rightarrow> login_world \<Rightarrow> login_world" where
  "loginWithPassword username password w = w\<lparr>lw_tasks := lw_tasks w @ [\<lparr>lg_username = normalizeUsername username, lg_auth = no_auth,
     lg_wait = login_start username password\<rparr>]\<rparr>"

definition changePassword :: "string \<Rightarrow> login_world \<Rightarrow> login_world" where
  "changePassword newPassword w = w\<lparr>lw_tasks := lw_tasks w @ [case client_user (lw_client w) of
     None \<Rightarrow> \<lparr>lg_username = [], lg_auth = no_auth, lg_wait = LgFailed ''No signed-in account to change the password for.''\<rparr>
   | Some u \<Rightarrow> if u_username u = [] then \<lparr>lg_username = [], lg_auth = no_auth, lg_wait = LgFailed ''No signed-in account to change the password for.''\<rparr>
       else \<lparr>lg_username = u_username u, lg_auth = no_auth, lg_wait = LgChange newPassword\<rparr>]\<rparr>"

definition password_changed :: "nat \<Rightarrow> string option \<Rightarrow> login_world \<Rightarrow> login_world" where
  "password_changed i res w = (case lg_wait (lw_tasks w ! i) of
     LgChange newPassword \<Rightarrow> (case res of Some e \<Rightarrow> login_goes i (LgFailed e) w
       | None \<Rightarrow> let t = lw_tasks w ! i in w\<lparr>lw_tasks := (lw_tasks w)[i := t\<lparr>lg_username := normalizeUsername (lg_username t),
           lg_wait := login_start (lg_username t) newPassword\<rparr>]\<rparr>)
   | _ \<Rightarrow> w)"

text \<open>Once connected: the identity must be the one the account service authenticated.\<close>

definition reject_login :: "int \<Rightarrow> nat \<Rightarrow> string \<Rightarrow> login_world \<Rightarrow> login_world" where
  "reject_login now i e w = login_goes i (LgFailed e) (on_client (\<lambda>c. clearStoredToken (client_disconnect now c)) w)"

definition login_connected :: "platform \<Rightarrow> int \<Rightarrow> nat \<Rightarrow> db_cache \<Rightarrow> login_world \<Rightarrow> login_world" where
  "login_connected pf now i cache w = (case client_identity (lw_client w) of
     None \<Rightarrow> reject_login now i ''Login failed: authenticated session has no active identity.'' w
   | Some me \<Rightarrow> if \<not> sameIdentity me (la_identity (lg_auth (lw_tasks w ! i)))
       then reject_login now i (''Login failed: SpacetimeDB did not accept this account'' @ [CHR 39] @ ''s token and connected anonymously instead. ''
         @ ''The stored token has been cleared -- try again. If it keeps happening, the server'' @ [CHR 39] @ ''s SPACETIME_OIDC_PRIVATE_KEY is ''
         @ ''probably unset or changed, so tokens it signs no longer verify.'') w
       else ensureAuthenticatedUserRow pf now i cache w)"

definition connect_threw :: "nat \<Rightarrow> string \<Rightarrow> login_world \<Rightarrow> login_world" where
  "connect_threw i e w = login_goes i (LgFailed e) (on_client clearStoredToken w)"

text \<open>The answer of the account service; it has stored its session before it returns.\<close>

definition login_answered :: "platform \<Rightarrow> int \<Rightarrow> nat \<Rightarrow> db_cache \<Rightarrow> string + login_auth \<Rightarrow> login_world \<Rightarrow> login_world" where
  "login_answered pf now i cache res w = (case res of Inl e \<Rightarrow> login_goes i (LgFailed e) w
     | Inr auth \<Rightarrow> (let w = w\<lparr>lw_tasks := (lw_tasks w)[i := (lw_tasks w ! i)\<lparr>lg_auth := auth\<rparr>]\<rparr>;
         c = (lw_client w)\<lparr>cl_server := (cl_server (lw_client w))\<lparr>sessionToken := Some (la_session auth)\<rparr>\<rparr>;
         c = setStoredToken (la_token auth) (client_disconnect now c)
       in case await_connect pf now c of (c, r) \<Rightarrow> let w = w\<lparr>lw_client := c\<rparr> in
          case r of Inl e \<Rightarrow> connect_threw i e w | Inr None \<Rightarrow> login_connected pf now i cache w | Inr (Some r) \<Rightarrow> login_goes i (LgConnect r) w))"

text \<open>The awaited run has settled.\<close>

definition connect_settled :: "platform \<Rightarrow> int \<Rightarrow> nat \<Rightarrow> db_cache \<Rightarrow> login_world \<Rightarrow> login_world" where
  "connect_settled pf now i cache w = (case lg_wait (lw_tasks w ! i) of
     LgConnect r \<Rightarrow> (case cr_outcome (cl_runs (lw_client w) ! r) of
         None \<Rightarrow> w | Some None \<Rightarrow> login_connected pf now i cache w | Some (Some e) \<Rightarrow> connect_threw i e w)
   | LgReconnect r \<Rightarrow> (case cr_outcome (cl_runs (lw_client w) ! r) of
         None \<Rightarrow> w | Some None \<Rightarrow> ensure_row i cache w | Some (Some e) \<Rightarrow> login_goes i (LgFailed e) w)
   | _ \<Rightarrow> w)"

section \<open>Signing out\<close>

definition sign_out_rest :: "int \<Rightarrow> login_world \<Rightarrow> login_world" where
  "sign_out_rest now w = (let c = clearStoredToken (client_disconnect now (lw_client w)) in
     w\<lparr>lw_client := c\<lparr>cl_server := (cl_server c)\<lparr>sessionToken := None\<rparr>, cl_ev := (cl_ev c)\<lparr>ev_badge := Some 0\<rparr>\<rparr>,
       lw_downloads := clearSignedDownloadUrlCache (lw_downloads w)\<rparr>)"

text \<open>\<open>offered\<close>: the connection has the reducer \<open>setPresenceOffline\<close>; its result does not matter.\<close>

definition signOut :: "int \<Rightarrow> bool \<Rightarrow> login_world \<Rightarrow> login_world" where
  "signOut now offered w = (if cl_connection (lw_client w) \<noteq> None \<and> offered then w\<lparr>lw_signouts := Suc (lw_signouts w)\<rparr>
     else sign_out_rest now w)"

definition presence_offline_settled :: "int \<Rightarrow> login_world \<Rightarrow> login_world" where
  "presence_offline_settled now w = sign_out_rest now (w\<lparr>lw_signouts := lw_signouts w - 1\<rparr>)"

end
