(* ===== verification/LoginFacts.thy ===== *)
theory LoginFacts
  imports Login ConnectionFacts
begin

text \<open>
  What signing in and out promises: a login is only carried on under the identity the account service authenticated,
  every other way out of it leaves no database token, and a sign-out leaves nothing of the account in the client.
\<close>

lemma disconnect_identity [simp]: "client_identity (client_disconnect now c) = None" "client_user (client_disconnect now c) = None"
  by (simp_all add: client_identity_def client_user_def client_disconnect_def Let_def on_app_def resetClientState_def signed_in_def
    setConnIdentity_def setUser_def setSynced_def)

lemma stored_token_frame [simp]:
  "client_identity (clearStoredToken c) = client_identity c" "client_user (clearStoredToken c) = client_user c"
  "cl_token (clearStoredToken c) = None" "cl_connection (clearStoredToken c) = cl_connection c"
  "cl_intentional (clearStoredToken c) = cl_intentional c"
  by (simp_all add: clearStoredToken_def client_identity_def client_user_def)

lemma login_goes_frame [simp]:
  "lw_client (login_goes i k w) = lw_client w" "lw_downloads (login_goes i k w) = lw_downloads w"
  "i < length (lw_tasks w) \<Longrightarrow> lg_wait (lw_tasks (login_goes i k w) ! i) = k" "length (lw_tasks (login_goes i k w)) = length (lw_tasks w)"
  by (simp_all add: login_goes_def)

lemma on_client_frame [simp]: "lw_tasks (on_client f w) = lw_tasks w" "lw_client (on_client f w) = f (lw_client w)"
  by (simp_all add: on_client_def)

lemma on_app_token [simp]: "cl_token (on_app f c) = cl_token c" "cl_connection (on_app f c) = cl_connection c"
  by (simp_all add: on_app_def)

lemma ensure_row_facts:
  assumes "i < length (lw_tasks w)"
  shows "cl_token (lw_client (ensure_row i cache w)) = cl_token (lw_client w)"
    and "lg_wait (lw_tasks (ensure_row i cache w) ! i) = LgDone \<Longrightarrow> client_user (lw_client (ensure_row i cache w)) \<noteq> None"
  using assms by (auto simp: ensure_row_def Let_def split: option.splits if_splits)

text \<open>C35: A login carries on only as the account that was authenticated.  When the connection a sign-in waited for settles:
  if it failed, the sign-in fails and no database token stays behind; if it was made under no identity or another
  than the one the account service authenticated, the sign-in fails, the connection is closed for good and no
  token, identity or user stays behind; otherwise it goes on with its token, and is done only when the user's own
  row is there.\<close>

theorem login_only_as_authenticated:
  assumes "i < length (lw_tasks w)" and "lg_wait (lw_tasks w ! i) = LgConnect r" and "cr_outcome (cl_runs (lw_client w) ! r) = Some out"
    and "v = connect_settled pf now i cache w"
  shows "case out of
      Some e \<Rightarrow> lg_wait (lw_tasks v ! i) = LgFailed e \<and> cl_token (lw_client v) = None
    | None \<Rightarrow> (if \<exists>me. client_identity (lw_client w) = Some me \<and> sameIdentity me (la_identity (lg_auth (lw_tasks w ! i)))
        then (cl_connection (lw_client w) \<noteq> None \<longrightarrow> cl_token (lw_client v) = cl_token (lw_client w)
            \<and> (lg_wait (lw_tasks v ! i) = LgDone \<longrightarrow> client_user (lw_client v) \<noteq> None))
        else (\<exists>e. lg_wait (lw_tasks v ! i) = LgFailed e) \<and> cl_token (lw_client v) = None \<and> cl_connection (lw_client v) = None
          \<and> cl_intentional (lw_client v) \<and> client_identity (lw_client v) = None \<and> client_user (lw_client v) = None)"
proof (cases out)
  case (Some e)
  with assms show ?thesis by (simp add: connect_settled_def connect_threw_def)
next
  case None
  then have v: "v = login_connected pf now i cache w" using assms by (simp add: connect_settled_def)
  show ?thesis
  proof (cases "\<exists>me. client_identity (lw_client w) = Some me \<and> sameIdentity me (la_identity (lg_auth (lw_tasks w ! i)))")
    case True
    then have "v = ensureAuthenticatedUserRow pf now i cache w" using v by (auto simp: login_connected_def)
    then have "cl_connection (lw_client w) \<noteq> None \<Longrightarrow> v = ensure_row i cache w" by (simp add: ensureAuthenticatedUserRow_def)
    with True None ensure_row_facts[OF assms(1), of cache] show ?thesis by auto
  next
    case False
    then have "\<exists>e. v = reject_login now i e w" using v by (auto simp: login_connected_def split: option.splits)
    with False None assms(1) show ?thesis by (auto simp: reject_login_def)
  qed
qed

text \<open>A sign-out leaves neither tokens nor a connection nor a timer nor a signed address.\<close>

lemma sign_out_leaves_nothing:
  "let v = sign_out_rest now w; c = lw_client v in
     cl_token c = None \<and> sessionToken (cl_server c) = None \<and> cl_connection c = None \<and> cl_reconnectTimer c = None \<and> cl_intentional c
     \<and> client_identity c = None \<and> client_user c = None \<and> dw_cache (lw_downloads v) = [] \<and> dw_inflight (lw_downloads v) = []"
proof -
  have "cl_reconnectTimer (client_disconnect now c) = None" for c
    by (simp add: client_disconnect_def teardownConnection_def setStatus_def on_app_def set_conn_def Let_def split: option.split)
  moreover have "client_identity (c\<lparr>cl_server := s, cl_ev := e\<lparr>ev_badge := b\<rparr>\<rparr>) = client_identity (c\<lparr>cl_ev := e\<rparr>)"
    "client_user (c\<lparr>cl_server := s, cl_ev := e\<lparr>ev_badge := b\<rparr>\<rparr>) = client_user (c\<lparr>cl_ev := e\<rparr>)" for c s e b
    by (simp_all add: client_identity_def client_user_def)
  ultimately show ?thesis
    by (simp add: sign_out_rest_def Let_def clearSignedDownloadUrlCache_def) (simp add: clearStoredToken_def)
qed

text \<open>Ada signs in, but the server does not take her token and connects her anonymously.\<close>

definition demo_login :: "login_world" where
  "demo_login = loginWithPassword '' Ada '' ''password1'' \<lparr>lw_client = demo_client, lw_downloads = download_init, lw_tasks = [], lw_signouts = 0\<rparr>"

definition demo_answer :: login_auth where
  "demo_answer = \<lparr>la_token = ''t'', la_identity = ''ada1'', la_displayName = ''Ada'', la_session = ''s''\<rparr>"

definition demo_signing_in :: login_world where
  "demo_signing_in = on_client (client_run (demo_platform True) (still_clock 0) [SdkConnect 0 ''anon'' ''t2'', SdkApplied 0 empty_cache])
     (login_answered (demo_platform True) 0 0 empty_cache (Inr demo_answer) demo_login)"

lemma demo_signing_in_run: "lg_wait (lw_tasks demo_signing_in ! 0) = LgConnect 0" "length (lw_tasks demo_signing_in) = 1"
  "cr_outcome (cl_runs (lw_client demo_signing_in) ! 0) = Some None" "client_identity (lw_client demo_signing_in) = Some ''anon''"
  "la_identity (lg_auth (lw_tasks demo_signing_in ! 0)) = ''ada1''" "\<not> sameIdentity ''anon'' ''ada1''"
  "cl_token (lw_client demo_signing_in) = Some ''t2''"
  by (code_simp+)

theorem login_only_as_authenticated_witness:
  "cl_token (lw_client demo_signing_in) = Some ''t2'' \<and> cl_token (lw_client (connect_settled (demo_platform True) 5 0 empty_cache demo_signing_in)) = None"
proof -
  have "0 < length (lw_tasks demo_signing_in)" by (simp add: demo_signing_in_run)
  from login_only_as_authenticated[OF this demo_signing_in_run(1,3) refl, of "demo_platform True" 5 empty_cache] show ?thesis
    by (simp add: demo_signing_in_run(4-7))
qed

text \<open>The session of the account service stays in the local storage after such a failure.\<close>

lemma failed_login_keeps_session:
  "sessionToken (cl_server (lw_client (connect_settled (demo_platform True) 5 0 empty_cache demo_signing_in))) = Some ''s''"
  by code_simp

end
