(* ===== verification/History.thy ===== *)
theory History
  imports MessageStores
begin

text \<open>
  \<open>src/lib/spacetimedb/history.ts\<close>: paging over the history below the live window, and the procedure of the server
  (\<open>server/src/procedures.rs\<close>) that serves the pages.  A call in flight is a request with an outcome to come;
  \<open>loadChannelMessage\<close>, which awaits one page after another, is a task.  The server's reply and what follows a
  settled promise are steps of their own, so the stores may change in between.
\<close>

section \<open>State\<close>

datatype page_target = ChannelPage u64 | DmPage identity

text \<open>\<open>pr_outcome\<close>: not yet settled, resolved, or rejected with an error.\<close>

record page_request =
  pr_target :: page_target
  pr_before :: int
  pr_outcome :: "string option option"

text \<open>\<open>JumpPage r n\<close> awaits a request, \<open>JumpTick n\<close> a promise that is already resolved; \<open>n\<close> is \<open>cnt\<close>.\<close>

datatype jump_wait = JumpPage nat nat | JumpTick nat | JumpDone | JumpFailed string

record jump_task =
  jt_channel :: u64
  jt_message :: int
  jt_wait :: jump_wait

record history_world =
  hw_messages :: messages_state
  hw_dms :: dm_state
  hw_inflight :: "(page_target, nat) rec"
  hw_requests :: "page_request list"
  hw_jumps :: "jump_task list"

text \<open>
  \<open>hw_inflight\<close> is \<open>channelRequests\<close> and \<open>dmRequests\<close> in one table.  The constructors of the SDK are parameters:
  \<open>fromDate\<close> is \<open>Timestamp.fromDate\<close> on the milliseconds of a date (\<open>None\<close> is an invalid one), with the
  microseconds or the error thrown, and \<open>target_error\<close> is the error of \<open>BigInt\<close> or of the identity's constructor.
\<close>

record history_sdk =
  fromDate :: "int option \<Rightarrow> string + int"
  target_error :: "page_target \<Rightarrow> string option"

definition PAGE_SIZE :: nat where "PAGE_SIZE = 100"

section \<open>Asking for a page\<close>

definition beforeTimestamp :: "history_sdk \<Rightarrow> string \<Rightarrow> string + int" where
  "beforeTimestamp sdk sentAt = fromDate sdk (date_parse sentAt)"

fun page_exhausted :: "page_target \<Rightarrow> history_world \<Rightarrow> bool" where
  "page_exhausted (ChannelPage c) w = rec_or (historyExhausted (hw_messages w)) c False"
| "page_exhausted (DmPage p) w = rec_or (dmHistoryExhausted (hw_dms w)) p False"

fun oldest_sentAt :: "page_target \<Rightarrow> history_world \<Rightarrow> string option" where
  "oldest_sentAt (ChannelPage c) w = (case rec_or (messagesByChannel (hw_messages w)) c [] of [] \<Rightarrow> None | m # _ \<Rightarrow> Some (msg_sentAt m))"
| "oldest_sentAt (DmPage p) w = (case rec_or (conversations (hw_dms w)) p [] of [] \<Rightarrow> None | m # _ \<Rightarrow> Some (dm_sentAt m))"

text \<open>
  The arguments of the procedure are built before anything is awaited: when that throws, the \<open>finally\<close> has run
  before the table gets its entry.
\<close>

definition page_arguments :: "history_sdk \<Rightarrow> page_target \<Rightarrow> string \<Rightarrow> string + int" where
  "page_arguments sdk t sentAt = (case target_error sdk t of Some e \<Rightarrow> Inl e | None \<Rightarrow> beforeTimestamp sdk sentAt)"

definition page_request_of :: "page_target \<Rightarrow> string + int \<Rightarrow> page_request" where
  "page_request_of t args = (case args of Inl e \<Rightarrow> \<lparr>pr_target = t, pr_before = 0, pr_outcome = Some (Some e)\<rparr>
     | Inr b \<Rightarrow> \<lparr>pr_target = t, pr_before = b, pr_outcome = None\<rparr>)"

text \<open>\<open>loadOlderChannelMessages\<close> and \<open>loadOlderDirectMessages\<close>; the result is the request the caller's promise follows.\<close>

definition load_older :: "history_sdk \<Rightarrow> page_target \<Rightarrow> history_world \<Rightarrow> history_world \<times> nat option" where
  "load_older sdk t w = (case map_of (hw_inflight w) t of Some r \<Rightarrow> (w, Some r)
     | None \<Rightarrow> if page_exhausted t w then (w, None)
       else case oldest_sentAt t w of None \<Rightarrow> (w, None)
       | Some sentAt \<Rightarrow> let r = length (hw_requests w) in
           (w\<lparr>hw_requests := hw_requests w @ [page_request_of t (page_arguments sdk t sentAt)], hw_inflight := rec_set t r (hw_inflight w)\<rparr>, Some r))"

definition loadOlderChannelMessages :: "history_sdk \<Rightarrow> u64 \<Rightarrow> history_world \<Rightarrow> history_world \<times> nat option" where
  "loadOlderChannelMessages sdk c w = load_older sdk (ChannelPage c) w"

definition loadOlderDirectMessages :: "history_sdk \<Rightarrow> identity \<Rightarrow> history_world \<Rightarrow> history_world \<times> nat option" where
  "loadOlderDirectMessages sdk p w = load_older sdk (DmPage p) w"

section \<open>A page arrives\<close>

definition request_pending :: "nat \<Rightarrow> history_world \<Rightarrow> bool" where
  "request_pending r w \<longleftrightarrow> r < length (hw_requests w) \<and> pr_outcome (hw_requests w ! r) = None"

definition settle_request :: "nat \<Rightarrow> string option \<Rightarrow> history_world \<Rightarrow> history_world" where
  "settle_request r out w = w\<lparr>hw_requests := (hw_requests w)[r := (hw_requests w ! r)\<lparr>pr_outcome := Some out\<rparr>],
     hw_inflight := rec_del (pr_target (hw_requests w ! r)) (hw_inflight w)\<rparr>"

definition channel_page :: "(string \<Rightarrow> string \<Rightarrow> int) \<Rightarrow> u64 \<Rightarrow> message_row list \<Rightarrow> history_world \<Rightarrow> history_world" where
  "channel_page lc c rows w = w\<lparr>hw_messages := prependOlderMessages lc c (map mapMessage rows) (length rows < PAGE_SIZE) (hw_messages w)\<rparr>"

definition dm_page :: "(string \<Rightarrow> string \<Rightarrow> int) \<Rightarrow> identity \<Rightarrow> direct_message_row list \<Rightarrow> history_world \<Rightarrow> history_world" where
  "dm_page lc p rows w = w\<lparr>hw_dms := prependOlderDirectMessages lc p (map mapDirectMessage rows) (length rows < PAGE_SIZE) (hw_dms w)\<rparr>"

datatype page_reply = ChannelRows "message_row list" | DmRows "direct_message_row list" | PageError string

text \<open>A procedure answers with rows of its own table; another answer does not occur.\<close>

definition page_answered :: "(string \<Rightarrow> string \<Rightarrow> int) \<Rightarrow> nat \<Rightarrow> page_reply \<Rightarrow> history_world \<Rightarrow> history_world" where
  "page_answered lc r reply w = (if \<not> request_pending r w then w else case (pr_target (hw_requests w ! r), reply) of
     (_, PageError e) \<Rightarrow> settle_request r (Some e) w
   | (ChannelPage c, ChannelRows rows) \<Rightarrow> settle_request r None (channel_page lc c rows w)
   | (DmPage p, DmRows rows) \<Rightarrow> settle_request r None (dm_page lc p rows w)
   | _ \<Rightarrow> w)"

definition loadPinnedChannelMessages :: "message_row list \<Rightarrow> message list" where
  "loadPinnedChannelMessages rows = map mapMessage rows"

section \<open>Jumping to a message\<close>

definition jump_goes :: "nat \<Rightarrow> jump_wait \<Rightarrow> history_world \<Rightarrow> history_world" where
  "jump_goes i k w = w\<lparr>hw_jumps := (hw_jumps w)[i := (hw_jumps w ! i)\<lparr>jt_wait := k\<rparr>]\<rparr>"

definition channel_count :: "u64 \<Rightarrow> history_world \<Rightarrow> nat" where
  "channel_count c w = length (rec_or (messagesByChannel (hw_messages w)) c [])"

definition jump_loop :: "history_sdk \<Rightarrow> nat \<Rightarrow> history_world \<Rightarrow> history_world" where
  "jump_loop sdk i w = (let c = jt_channel (hw_jumps w ! i) in
     if list_ex (\<lambda>row. msg_id row = jt_message (hw_jumps w ! i)) (rec_or (messagesByChannel (hw_messages w)) c []) then jump_goes i JumpDone w
     else if page_exhausted (ChannelPage c) w then jump_goes i (JumpFailed ''This message is no longer available.'') w
     else let cnt = channel_count c w in case loadOlderChannelMessages sdk c w of
       (w, None) \<Rightarrow> jump_goes i (JumpTick cnt) w
     | (w, Some r) \<Rightarrow> jump_goes i (JumpPage r cnt) w)"

definition loadChannelMessage :: "history_sdk \<Rightarrow> u64 \<Rightarrow> int \<Rightarrow> history_world \<Rightarrow> history_world" where
  "loadChannelMessage sdk c m w = jump_loop sdk (length (hw_jumps w))
     (w\<lparr>hw_jumps := hw_jumps w @ [\<lparr>jt_channel = c, jt_message = m, jt_wait = JumpTick 0\<rparr>]\<rparr>)"

definition jump_counted :: "history_sdk \<Rightarrow> nat \<Rightarrow> nat \<Rightarrow> history_world \<Rightarrow> history_world" where
  "jump_counted sdk i cnt w = (if channel_count (jt_channel (hw_jumps w ! i)) w = cnt
     then jump_goes i (JumpFailed ''Could not load this message. Please try again.'') w else jump_loop sdk i w)"

definition jump_resumes :: "history_sdk \<Rightarrow> nat \<Rightarrow> history_world \<Rightarrow> history_world" where
  "jump_resumes sdk i w = (if i < length (hw_jumps w) then case jt_wait (hw_jumps w ! i) of
       JumpTick cnt \<Rightarrow> jump_counted sdk i cnt w
     | JumpPage r cnt \<Rightarrow> (case pr_outcome (hw_requests w ! r) of None \<Rightarrow> w
         | Some None \<Rightarrow> jump_counted sdk i cnt w | Some (Some e) \<Rightarrow> jump_goes i (JumpFailed e) w)
     | _ \<Rightarrow> w else w)"

section \<open>Runs\<close>

text \<open>\<open>StoresChange\<close> stands for whatever else the program does to the two stores.\<close>

datatype history_event = LoadPage page_target | PageReply nat page_reply | Jump u64 int | JumpResumes nat | StoresChange messages_state dm_state

fun history_event_step :: "history_sdk \<Rightarrow> (string \<Rightarrow> string \<Rightarrow> int) \<Rightarrow> history_event \<Rightarrow> history_world \<Rightarrow> history_world" where
  "history_event_step sdk lc (LoadPage t) w = fst (load_older sdk t w)"
| "history_event_step sdk lc (PageReply r reply) w = page_answered lc r reply w"
| "history_event_step sdk lc (Jump c m) w = loadChannelMessage sdk c m w"
| "history_event_step sdk lc (JumpResumes i) w = jump_resumes sdk i w"
| "history_event_step sdk lc (StoresChange ms ds) w = w\<lparr>hw_messages := ms, hw_dms := ds\<rparr>"

definition history_events :: "history_sdk \<Rightarrow> (string \<Rightarrow> string \<Rightarrow> int) \<Rightarrow> history_event list \<Rightarrow> history_world \<Rightarrow> history_world" where
  "history_events sdk lc es w = foldl (\<lambda>w e. history_event_step sdk lc e w) w es"

definition history_world_init :: history_world where
  "history_world_init = \<lparr>hw_messages = messages_init, hw_dms = dm_init, hw_inflight = [], hw_requests = [], hw_jumps = []\<rparr>"

section \<open>The procedure of the server\<close>

text \<open>Of \<open>server/src/procedures.rs\<close> and \<open>views.rs\<close>; \<open>micros\<close> is \<open>sent_at\<close> of a row, in microseconds.\<close>

definition RECENT_MESSAGE_WINDOW :: nat where "RECENT_MESSAGE_WINDOW = 200"

definition page_size :: "nat \<Rightarrow> nat" where
  "page_size limit = max 1 (min RECENT_MESSAGE_WINDOW limit)"

definition older_than :: "('m \<Rightarrow> int) \<Rightarrow> 'm list \<Rightarrow> int \<Rightarrow> nat \<Rightarrow> 'm list" where
  "older_than micros rows before n = (let rows = sort_key micros (filter (\<lambda>row. micros row < before) rows) in drop (length rows - n) rows)"

definition server_page :: "(message_row \<Rightarrow> int) \<Rightarrow> message_row list \<Rightarrow> int \<Rightarrow> message_row list" where
  "server_page micros history before = older_than micros history before (page_size PAGE_SIZE)"

text \<open>One round of a jump: the server answers the awaited request and the jump goes on.\<close>

definition jump_round :: "history_sdk \<Rightarrow> (string \<Rightarrow> string \<Rightarrow> int) \<Rightarrow> (message_row \<Rightarrow> int) \<Rightarrow> message_row list \<Rightarrow> nat \<Rightarrow> history_world \<Rightarrow> history_world" where
  "jump_round sdk lc micros history i w = (case jt_wait (hw_jumps w ! i) of
     JumpPage r cnt \<Rightarrow> jump_resumes sdk i (page_answered lc r (ChannelRows (server_page micros history (pr_before (hw_requests w ! r)))) w)
   | _ \<Rightarrow> jump_resumes sdk i w)"

end
