(* ===== verification/HistoryFacts.thy ===== *)
theory HistoryFacts
  imports History
begin

text \<open>
  What paging promises: one request at a time for each channel and conversation, which every caller shares; and a jump
  that loads page after page without a gap until its message is there or the history is.
\<close>

section \<open>One request for each target\<close>

definition history_inv :: "history_world \<Rightarrow> bool" where
  "history_inv w \<longleftrightarrow> (\<forall>t r. map_of (hw_inflight w) t = Some r \<longrightarrow> r < length (hw_requests w) \<and> pr_target (hw_requests w ! r) = t)
     \<and> (\<forall>r. request_pending r w \<longrightarrow> map_of (hw_inflight w) (pr_target (hw_requests w ! r)) = Some r)"

lemma history_inv_cong: "hw_inflight v = hw_inflight w \<Longrightarrow> hw_requests v = hw_requests w \<Longrightarrow> history_inv v = history_inv w"
  by (simp add: history_inv_def request_pending_def)

lemma page_request_of_target [simp]: "pr_target (page_request_of t args) = t"
  by (simp add: page_request_of_def split: sum.split)

lemma history_invI:
  assumes "\<And>t r. map_of (hw_inflight w) t = Some r \<Longrightarrow> r < length (hw_requests w) \<and> pr_target (hw_requests w ! r) = t"
    and "\<And>r. request_pending r w \<Longrightarrow> map_of (hw_inflight w) (pr_target (hw_requests w ! r)) = Some r"
  shows "history_inv w"
  using assms by (simp add: history_inv_def)

lemma history_inv_entry: "history_inv w \<Longrightarrow> map_of (hw_inflight w) t = Some r \<Longrightarrow> r < length (hw_requests w) \<and> pr_target (hw_requests w ! r) = t"
  unfolding history_inv_def by blast

lemma history_inv_pending: "history_inv w \<Longrightarrow> request_pending r w \<Longrightarrow> map_of (hw_inflight w) (pr_target (hw_requests w ! r)) = Some r"
  unfolding history_inv_def by blast

lemma new_request_inv:
  assumes "history_inv w" and "map_of (hw_inflight w) t = None" and "pr_target q = t"
  shows "history_inv (w\<lparr>hw_requests := hw_requests w @ [q], hw_inflight := rec_set t (length (hw_requests w)) (hw_inflight w)\<rparr>)" (is "history_inv ?v")
proof (rule history_invI)
  fix t' r assume "map_of (hw_inflight ?v) t' = Some r"
  then show "r < length (hw_requests ?v) \<and> pr_target (hw_requests ?v ! r) = t'"
    using history_inv_entry[OF assms(1), of t' r] assms(3) by (cases "t' = t") (simp_all add: nth_append)
next
  fix r assume p: "request_pending r ?v"
  show "map_of (hw_inflight ?v) (pr_target (hw_requests ?v ! r)) = Some r"
  proof (cases "r = length (hw_requests w)")
    case True
    with assms(3) show ?thesis by simp
  next
    case False
    with p have r: "request_pending r w" "r < length (hw_requests w)" by (auto simp: request_pending_def nth_append less_Suc_eq split: if_splits)
    from history_inv_pending[OF assms(1) r(1)] assms(2) have "pr_target (hw_requests w ! r) \<noteq> t" by (metis option.distinct(1))
    with history_inv_pending[OF assms(1) r(1)] r(2) show ?thesis by (simp add: nth_append)
  qed
qed

lemma load_older_inv: "history_inv w \<Longrightarrow> history_inv (fst (load_older sdk t w))"
  using new_request_inv[of w t] by (simp add: load_older_def Let_def split: option.split)

lemma settle_request_inv:
  assumes "history_inv w" and "request_pending r w"
  shows "history_inv (settle_request r out w)" (is "history_inv ?v")
proof (rule history_invI)
  fix t r' assume "map_of (hw_inflight ?v) t = Some r'"
  then have "map_of (hw_inflight w) t = Some r'" by (simp add: settle_request_def split: if_splits)
  from history_inv_entry[OF assms(1) this] show "r' < length (hw_requests ?v) \<and> pr_target (hw_requests ?v ! r') = t"
    by (cases "r' = r") (simp_all add: settle_request_def)
next
  fix r' assume p: "request_pending r' ?v"
  then have "r' \<noteq> r" by (auto simp: request_pending_def settle_request_def)
  with p have "request_pending r' w" by (simp add: request_pending_def settle_request_def)
  from history_inv_pending[OF assms(1) this] history_inv_pending[OF assms] \<open>r' \<noteq> r\<close>
  have "pr_target (hw_requests w ! r') \<noteq> pr_target (hw_requests w ! r)" by (metis option.inject)
  with history_inv_pending[OF assms(1) \<open>request_pending r' w\<close>] \<open>r' \<noteq> r\<close>
  show "map_of (hw_inflight ?v) (pr_target (hw_requests ?v ! r')) = Some r'" by (simp add: settle_request_def)
qed

lemma page_frame [simp]:
  "hw_inflight (channel_page lc c rows w) = hw_inflight w" "hw_requests (channel_page lc c rows w) = hw_requests w"
  "hw_jumps (channel_page lc c rows w) = hw_jumps w" "hw_dms (channel_page lc c rows w) = hw_dms w"
  "hw_inflight (dm_page lc p drows w) = hw_inflight w" "hw_requests (dm_page lc p drows w) = hw_requests w"
  by (simp_all add: channel_page_def dm_page_def)

lemma page_pending [simp]: "request_pending r (channel_page lc c rows w) = request_pending r w" "request_pending r (dm_page lc p drows w) = request_pending r w"
  by (simp_all add: request_pending_def)

lemma page_answered_inv: "history_inv w \<Longrightarrow> history_inv (page_answered lc r reply w)"
proof (cases "request_pending r w")
  case True
  assume h: "history_inv w"
  have "history_inv (settle_request r out v)" if "hw_inflight v = hw_inflight w" "hw_requests v = hw_requests w" for v out
    using h True that history_inv_cong[OF that] by (intro settle_request_inv) (simp_all add: request_pending_def)
  with h show ?thesis by (auto simp: page_answered_def split: page_target.splits page_reply.splits)
qed (simp add: page_answered_def)

lemma jump_goes_frame [simp]:
  "hw_inflight (jump_goes i k w) = hw_inflight w" "hw_requests (jump_goes i k w) = hw_requests w" "hw_messages (jump_goes i k w) = hw_messages w"
  "length (hw_jumps (jump_goes i k w)) = length (hw_jumps w)"
  by (simp_all add: jump_goes_def)

lemma jump_loop_inv: "history_inv w \<Longrightarrow> history_inv (jump_loop sdk i w)"
  using load_older_inv[of w sdk "ChannelPage (jt_channel (hw_jumps w ! i))"]
    history_inv_cong[OF jump_goes_frame(1,2)]
  by (auto simp: jump_loop_def Let_def loadOlderChannelMessages_def split: prod.splits option.splits)

lemma jump_resumes_inv: "history_inv w \<Longrightarrow> history_inv (jump_resumes sdk i w)"
  using jump_loop_inv[of w sdk i] history_inv_cong[OF jump_goes_frame(1,2)]
  by (auto simp: jump_resumes_def jump_counted_def split: jump_wait.splits option.splits)

lemma history_step_inv: "history_inv w \<Longrightarrow> history_inv (history_event_step sdk lc e w)"
proof (cases e)
  case (Jump c m)
  then show "history_inv w \<Longrightarrow> ?thesis"
    using history_inv_cong[of "w\<lparr>hw_jumps := hw_jumps w @ [\<lparr>jt_channel = c, jt_message = m, jt_wait = JumpTick 0\<rparr>]\<rparr>" w]
    by (simp add: loadChannelMessage_def jump_loop_inv)
next
  case (StoresChange ms ds)
  then show "history_inv w \<Longrightarrow> ?thesis" using history_inv_cong[of "w\<lparr>hw_messages := ms, hw_dms := ds\<rparr>" w] by simp
qed (simp_all add: load_older_inv page_answered_inv jump_resumes_inv)

lemma history_events_inv: "history_inv w \<Longrightarrow> history_inv (history_events sdk lc es w)"
  unfolding history_events_def by (induction es arbitrary: w) (simp_all add: history_step_inv)

lemma history_init_inv: "history_inv history_world_init"
  by (simp add: history_inv_def history_world_init_def request_pending_def)

text \<open>C37: However calls, replies, jumps and changes of the stores interleave, at most one request for a channel or a
  conversation is on its way, and every further call for it starts nothing and follows that request.\<close>

theorem one_page_request_per_target:
  assumes "w = history_events sdk lc es history_world_init" and "request_pending r w" and "pr_target (hw_requests w ! r) = t"
  shows "(\<forall>r'. request_pending r' w \<and> pr_target (hw_requests w ! r') = t \<longrightarrow> r' = r) \<and> load_older sdk t w = (w, Some r)"
proof -
  have "history_inv w" unfolding assms(1) by (rule history_events_inv[OF history_init_inv])
  then have *: "map_of (hw_inflight w) t = Some r'" if "request_pending r' w" "pr_target (hw_requests w ! r') = t" for r'
    using history_inv_pending[of w r'] that by simp
  from *[OF assms(2,3)] have "load_older sdk t w = (w, Some r)" by (simp add: load_older_def)
  moreover have "r' = r" if "request_pending r' w" "pr_target (hw_requests w ! r') = t" for r'
    using *[OF that] *[OF assms(2,3)] by simp
  ultimately show ?thesis by blast
qed


section \<open>A jump loads the history without a gap\<close>

text \<open>
  What the server and the SDK are taken to do for the history \<open>h\<close> of a channel: a time stamp has microseconds, of which
  the client sees the milliseconds; no two messages share a millisecond; and \<open>localeCompare\<close> orders the printed times.
\<close>

definition millis :: "(message_row \<Rightarrow> int) \<Rightarrow> message_row \<Rightarrow> int" where
  "millis micros row = micros row div 1000"

definition channel_served :: "history_sdk \<Rightarrow> (string \<Rightarrow> string \<Rightarrow> int) \<Rightarrow> (message_row \<Rightarrow> int) \<Rightarrow> u64 \<Rightarrow> message_row list \<Rightarrow> bool" where
  "channel_served sdk lc micros c h \<longleftrightarrow> target_error sdk (ChannelPage c) = None \<and> (\<forall>row \<in> set h. fromDate sdk (Some (millis micros row)) = Inr (1000 * millis micros row))
     \<and> sorted_wrt (\<lambda>a b. millis micros a < millis micros b) h \<and> distinct (map (\<lambda>row. msg_id (mapMessage row)) h)
     \<and> (\<forall>row \<in> set h. date_parse (msg_sentAt (mapMessage row)) = Some (millis micros row))
     \<and> (\<forall>a \<in> set h. \<forall>b \<in> set h. lc (msg_sentAt (mapMessage a)) (msg_sentAt (mapMessage b)) \<le> 0 \<longleftrightarrow> millis micros a \<le> millis micros b)"

text \<open>The view of the channel is the history but for its \<open>k\<close> oldest messages.\<close>

definition shows_from :: "history_world \<Rightarrow> u64 \<Rightarrow> message_row list \<Rightarrow> nat \<Rightarrow> bool" where
  "shows_from w c h k \<longleftrightarrow> k < length h \<and> channel_view (hw_messages w) c = map mapMessage (drop k h)
     \<and> set (channel_older (hw_messages w) c) \<subseteq> set (channel_view (hw_messages w) c)"

lemma older_than_take:
  assumes "sorted_wrt (\<lambda>a b. millis micros a < millis micros b) h" and "k < length h"
  shows "older_than micros h (1000 * millis micros (h ! k)) n = drop (k - n) (take k h)"
proof -
  have below: "micros (h ! j) < 1000 * millis micros (h ! k)" if "j < k" for j
    using sorted_wrt_nth_less[OF assms(1) that assms(2)] unfolding millis_def by linarith
  have above: "\<not> micros (h ! j) < 1000 * millis micros (h ! k)" if "k \<le> j" "j < length h" for j
  proof (cases "j = k")
    case False
    with sorted_wrt_nth_less[OF assms(1), of k j] that show ?thesis unfolding millis_def by linarith
  qed (simp add: millis_def)
  have t: "filter (\<lambda>row. micros row < 1000 * millis micros (h ! k)) (take k h) = take k h"
    using below assms(2) by (force simp: filter_id_conv in_set_conv_nth)
  have d: "filter (\<lambda>row. micros row < 1000 * millis micros (h ! k)) (drop k h) = []"
    using above assms(2) by (force simp: filter_empty_conv in_set_conv_nth)
  have "filter (\<lambda>row. micros row < 1000 * millis micros (h ! k)) (take k h @ drop k h) = take k h"
    unfolding filter_append t d by simp
  then have f: "filter (\<lambda>row. micros row < 1000 * millis micros (h ! k)) h = take k h" by simp
  have "sorted_wrt (\<lambda>a b. micros a \<le> micros b) h"
    by (rule sorted_wrt_mono_rel[OF _ assms(1)]) (unfold millis_def, linarith)
  then have "sorted (map micros (take k h))" by (simp add: sorted_wrt_map sorted_wrt_take)
  then show ?thesis using assms(2) by (simp add: older_than_def f sorted_sort_id Let_def min_def sort_key_id_if_sorted)
qed


text \<open>Merging rows of an ordered history gives the rows of the history that occur.\<close>

lemma by_id_within:
  assumes "distinct (map idf T)" and "set xs \<subseteq> set T"
  shows "by_id idf xs i = Some x \<longleftrightarrow> x \<in> set xs \<and> idf x = i"
proof
  assume "x \<in> set xs \<and> idf x = i"
  then have x: "x \<in> set xs" "idf x = i" by auto
  then have "by_id idf xs i \<noteq> None" by (auto simp: by_id_None_iff)
  then obtain y where y: "by_id idf xs i = Some y" by auto
  then have "y \<in> set xs" "idf y = i" by (auto dest: by_id_SomeD)
  with x assms have "y = x" by (metis inj_onD distinct_map subsetD)
  with y show "by_id idf xs i = Some x" by simp
qed (rule by_id_SomeD)

lemma merge_within:
  assumes "distinct (map idf T)" and "set os \<subseteq> set T" and "set live \<subseteq> set T"
  shows "set (merge_by_id idf sent lc (Some os) live) = set os \<union> set live"
proof (cases "os = []")
  case False
  have "x \<in> set (merge_by_id idf sent lc (Some os) live) \<longleftrightarrow> by_id idf (merge_by_id idf sent lc (Some os) live) (idf x) = Some x" for x
    by (simp add: by_id_distinct[OF merge_by_id_rows(2)[OF False]])
  moreover have "by_id idf (merge_by_id idf sent lc (Some os) live) (idf x) = Some x \<longleftrightarrow> x \<in> set os \<union> set live" for x
  proof -
    have "y = x" if "y \<in> set live" "x \<in> set os" "idf y = idf x" for y
      using that assms by (metis inj_onD distinct_map subsetD)
    moreover have "by_id idf live (idf x) = None \<or> (\<exists>y \<in> set live. idf y = idf x \<and> by_id idf live (idf x) = Some y)"
      by (cases "by_id idf live (idf x)") (auto dest: by_id_SomeD)
    ultimately show ?thesis
      unfolding merge_by_id_rows(1)[OF False] map_add_Some_iff
      using by_id_within[OF assms(1,2), of "idf x" x] by_id_within[OF assms(1,3), of "idf x" x] by auto
  qed
  ultimately show ?thesis by blast
qed simp


definition sent_ms :: "message \<Rightarrow> int" where
  "sent_ms m = the (date_parse (msg_sentAt m))"

lemma served_ms: "channel_served sdk lc micros c h \<Longrightarrow> row \<in> set h \<Longrightarrow> sent_ms (mapMessage row) = millis micros row"
  by (simp add: channel_served_def sent_ms_def)

lemma served_lc: "channel_served sdk lc micros c h \<Longrightarrow> a \<in> set h \<Longrightarrow> b \<in> set h
    \<Longrightarrow> lc (msg_sentAt (mapMessage a)) (msg_sentAt (mapMessage b)) \<le> 0 \<longleftrightarrow> millis micros a \<le> millis micros b"
  unfolding channel_served_def by blast

lemma served_sorted: "channel_served sdk lc micros c h \<Longrightarrow> sorted_wrt (\<lambda>a b. millis micros a < millis micros b) (drop k h)"
  by (simp add: channel_served_def sorted_wrt_drop)

lemma served_distinct: "channel_served sdk lc micros c h \<Longrightarrow> distinct (map msg_id (map mapMessage (drop k h)))"
  by (simp add: channel_served_def comp_def distinct_drop flip: drop_map)

lemma served_by_sent: "channel_served sdk lc micros c h \<Longrightarrow> by_sent lc (map mapMessage (drop k h))"
proof -
  assume s: "channel_served sdk lc micros c h"
  show ?thesis unfolding by_sent_def sorted_wrt_map
    by (rule sorted_wrt_mono_rel[OF _ served_sorted[OF s]]) (meson in_set_dropD less_imp_le s served_lc)
qed

lemma served_ms_sorted: "channel_served sdk lc micros c h \<Longrightarrow> sorted_wrt (<) (map sent_ms (map mapMessage (drop k h)))"
proof -
  assume s: "channel_served sdk lc micros c h"
  show ?thesis unfolding sorted_wrt_map
    by (rule sorted_wrt_mono_rel[OF _ served_sorted[OF s]]) (metis in_set_dropD s served_ms)
qed

lemma served_unique:
  assumes s: "channel_served sdk lc micros c h" and set: "set xs = set (map mapMessage (drop k h))"
    and "distinct (map msg_id xs)" and sent: "by_sent lc xs"
  shows "xs = map mapMessage (drop k h)"
proof (rule map_sorted_distinct_set_unique[where f = sent_ms])
  have strict: "sorted_wrt (<) (map sent_ms (map mapMessage (drop k h)))" by (rule served_ms_sorted[OF s])
  then show "sorted (map sent_ms (map mapMessage (drop k h)))" and d: "distinct (map sent_ms (map mapMessage (drop k h)))"
    by (simp_all only: strict_sorted_iff)
  then show inj: "inj_on sent_ms (set xs \<union> set (map mapMessage (drop k h)))" unfolding set by (simp only: Un_absorb distinct_map)
  have "sent_ms a \<le> sent_ms b" if "lc (msg_sentAt a) (msg_sentAt b) \<le> 0" "a \<in> set xs" "b \<in> set xs" for a b
    using that set s by (auto simp: served_lc served_ms dest!: in_set_dropD)
  then show "sorted (map sent_ms xs)"
    using sent unfolding by_sent_def sorted_wrt_map by (metis (mono_tags, lifting) sorted_wrt_mono_rel)
  show "distinct (map sent_ms xs)" using assms(3) inj by (simp add: distinct_map inj_on_Un)
qed (rule set)


lemma merge_within_or:
  assumes "distinct (map idf T)" and "set (rec_or r c []) \<subseteq> set T" and "set live \<subseteq> set T"
  shows "set (merge_by_id idf sent lc (map_of r c) live) = set (rec_or r c []) \<union> set live"
proof (cases "map_of r c")
  case (Some os)
  with assms merge_within[OF assms(1) _ assms(3), of os] show ?thesis by (simp add: rec_or_def)
qed (simp add: rec_or_def)

lemma page_joins: "k < length h \<Longrightarrow> drop (k - n) (take k h) @ drop k h = drop (k - n) h"
proof -
  assume "k < length h"
  then have "drop (k - n) (take k h @ drop k h) = drop (k - n) (take k h) @ drop k h" by (subst drop_append) simp
  then show ?thesis by simp
qed

lemma page_shown:
  assumes s: "channel_served sdk lc micros c h" and lc: "consistent_comparator lc" and w: "shows_from w c h k"
  shows "shows_from (channel_page lc c (drop (k - n) (take k h)) w) c h (k - n)" (is "shows_from ?v c h _")
proof -
  define T where "T = map mapMessage h"
  define page where "page = map mapMessage (drop (k - n) (take k h))"
  define os where "os = mergeHistory lc (map_of (olderByChannel (hw_messages w)) c) page"
  from w have k: "k < length h" and view: "channel_view (hw_messages w) c = map mapMessage (drop k h)"
    and old: "set (rec_or (olderByChannel (hw_messages w)) c []) \<subseteq> set (map mapMessage (drop k h))"
    unfolding shows_from_def channel_older_def by auto
  have T: "distinct (map msg_id T)" using served_distinct[OF s, of 0] by (simp add: T_def)
  have sub: "set page \<subseteq> set T" "set (map mapMessage (drop k h)) \<subseteq> set T"
    by (auto simp: page_def T_def dest!: in_set_dropD in_set_takeD)
  have os: "set os = set (rec_or (olderByChannel (hw_messages w)) c []) \<union> set page"
    unfolding os_def mergeHistory_def using old sub by (intro merge_within_or[OF T]) auto
  have join: "map mapMessage (drop (k - n) h) = page @ map mapMessage (drop k h)"
    by (simp add: page_def page_joins[OF k] flip: map_append)
  have v: "channel_view (hw_messages ?v) c = mergeHistory lc (Some os) (map mapMessage (drop k h))"
    by (simp add: channel_page_def channel_view_prepend view os_def page_def)
  have "set (mergeHistory lc (Some os) (map mapMessage (drop k h))) = set os \<union> set (map mapMessage (drop k h))"
    unfolding mergeHistory_def using old sub os by (intro merge_within[OF T]) auto
  then have set: "set (mergeHistory lc (Some os) (map mapMessage (drop k h))) = set (map mapMessage (drop (k - n) h))"
    using os old unfolding join by auto
  have "mergeHistory lc (Some os) (map mapMessage (drop k h)) = map mapMessage (drop (k - n) h)"
    using mergeHistory_ok[OF lc served_distinct[OF s] served_by_sent[OF s]] set by (intro served_unique[OF s]) auto
  moreover have "channel_older (hw_messages ?v) c = os" by (simp add: channel_page_def channel_older_prepend os_def page_def)
  moreover have "set os \<subseteq> set (map mapMessage (drop (k - n) h))" using os old unfolding join by auto
  ultimately show ?thesis using k v by (simp add: shows_from_def)
qed


text \<open>Where a jump stands: it awaits the page below the \<open>k\<close>-th message, or it is over.\<close>

definition shown_ids :: "message_row list \<Rightarrow> nat \<Rightarrow> int set" where
  "shown_ids h k = (\<lambda>row. msg_id (mapMessage row)) ` set (drop k h)"

definition jump_of :: "nat \<Rightarrow> u64 \<Rightarrow> int \<Rightarrow> history_world \<Rightarrow> bool" where
  "jump_of i c m w \<longleftrightarrow> i < length (hw_jumps w) \<and> jt_channel (hw_jumps w ! i) = c \<and> jt_message (hw_jumps w ! i) = m"

definition jump_awaits :: "(message_row \<Rightarrow> int) \<Rightarrow> nat \<Rightarrow> u64 \<Rightarrow> int \<Rightarrow> message_row list \<Rightarrow> nat \<Rightarrow> history_world \<Rightarrow> bool" where
  "jump_awaits micros i c m h k w \<longleftrightarrow> jump_of i c m w \<and> shows_from w c h k \<and> m \<notin> shown_ids h k
     \<and> (\<exists>r. jt_wait (hw_jumps w ! i) = JumpPage r (length h - k) \<and> request_pending r w
         \<and> hw_requests w ! r = \<lparr>pr_target = ChannelPage c, pr_before = 1000 * millis micros (h ! k), pr_outcome = None\<rparr>)"

definition jump_over :: "nat \<Rightarrow> u64 \<Rightarrow> int \<Rightarrow> message_row list \<Rightarrow> nat \<Rightarrow> history_world \<Rightarrow> bool" where
  "jump_over i c m h k w \<longleftrightarrow> jump_of i c m w \<and> shows_from w c h k
     \<and> (if m \<in> shown_ids h k then jt_wait (hw_jumps w ! i) = JumpDone else k = 0 \<and> (\<exists>e. jt_wait (hw_jumps w ! i) = JumpFailed e))"

lemma shows_from_cong: "hw_messages v = hw_messages w \<Longrightarrow> shows_from v c h k = shows_from w c h k"
  by (simp add: shows_from_def)

lemma view_rec: "rec_or (messagesByChannel ms) c [] = channel_view ms c"
  by (simp add: channel_view_def)

lemma jump_loop_goes:
  assumes s: "channel_served sdk lc micros c h" and w: "shows_from w c h k" and j: "jump_of i c m w"
    and free: "map_of (hw_inflight w) (ChannelPage c) = None" and x: "page_exhausted (ChannelPage c) w \<Longrightarrow> k = 0"
  shows "if m \<in> shown_ids h k \<or> page_exhausted (ChannelPage c) w then jump_over i c m h k (jump_loop sdk i w)
    else jump_awaits micros i c m h k (jump_loop sdk i w)"
proof -
  from w have k: "k < length h" and view: "channel_view (hw_messages w) c = map mapMessage (drop k h)" unfolding shows_from_def by auto
  have found: "list_ex (\<lambda>row. msg_id row = m) (channel_view (hw_messages w) c) \<longleftrightarrow> m \<in> shown_ids h k"
    by (auto simp: view shown_ids_def list_ex_iff)
  have goes: "jump_of i c m (jump_goes i a v)" "jt_wait (hw_jumps (jump_goes i a v) ! i) = a" "shows_from (jump_goes i a v) c h k"
    if "hw_jumps v = hw_jumps w" "hw_messages v = hw_messages w" for a v
    using j w that shows_from_cong[of "jump_goes i a v" w] by (simp_all add: jump_of_def jump_goes_def)
  consider "m \<in> shown_ids h k" | "m \<notin> shown_ids h k" "page_exhausted (ChannelPage c) w" | "m \<notin> shown_ids h k" "\<not> page_exhausted (ChannelPage c) w" by blast
  then show ?thesis
  proof cases
    case 1
    then have "jump_loop sdk i w = jump_goes i JumpDone w" using j found by (simp add: jump_loop_def jump_of_def view_rec)
    with 1 goes show ?thesis by (simp add: jump_over_def)
  next
    case 2
    then have "jump_loop sdk i w = jump_goes i (JumpFailed ''This message is no longer available.'') w" using j found by (simp add: jump_loop_def jump_of_def view_rec)
    with 2 goes x show ?thesis by (simp add: jump_over_def)
  next
    case 3
    define q where "q = \<lparr>pr_target = ChannelPage c, pr_before = 1000 * millis micros (h ! k), pr_outcome = None\<rparr>"
    define v where "v = w\<lparr>hw_requests := hw_requests w @ [q], hw_inflight := rec_set (ChannelPage c) (length (hw_requests w)) (hw_inflight w)\<rparr>"
    have "drop k h = h ! k # drop (Suc k) h" using k by (simp add: Cons_nth_drop_Suc)
    then have "oldest_sentAt (ChannelPage c) w = Some (msg_sentAt (mapMessage (h ! k)))" by (simp add: view_rec view)
    moreover have "page_arguments sdk (ChannelPage c) (msg_sentAt (mapMessage (h ! k))) = Inr (1000 * millis micros (h ! k))"
      using s k by (simp add: page_arguments_def beforeTimestamp_def channel_served_def)
    ultimately have "loadOlderChannelMessages sdk c w = (v, Some (length (hw_requests w)))"
      using free 3 by (simp add: loadOlderChannelMessages_def load_older_def page_request_of_def v_def q_def Let_def del: oldest_sentAt.simps page_exhausted.simps)
    then have "jump_loop sdk i w = jump_goes i (JumpPage (length (hw_requests w)) (length h - k)) v"
      using 3 j found by (simp add: jump_loop_def jump_of_def view_rec channel_count_def view del: page_exhausted.simps)
    moreover have "request_pending (length (hw_requests w)) (jump_goes i a v)" "hw_requests (jump_goes i a v) ! length (hw_requests w) = q" for a
      by (simp_all add: request_pending_def v_def q_def)
    moreover have "hw_jumps v = hw_jumps w" "hw_messages v = hw_messages w" by (simp_all add: v_def)
    ultimately show ?thesis using 3 goes by (simp add: jump_awaits_def q_def del: page_exhausted.simps)
  qed
qed


lemma jump_resumes_over: "jump_over i c m h k w \<Longrightarrow> jump_round sdk lc micros h i w = w"
  by (auto simp: jump_over_def jump_round_def jump_resumes_def split: if_splits)

lemma jump_round_goes:
  assumes s: "channel_served sdk lc micros c h" and lc: "consistent_comparator lc" and w: "jump_awaits micros i c m h k w"
  shows "if m \<in> shown_ids h (k - 100) \<or> k < 100 then jump_over i c m h (k - 100) (jump_round sdk lc micros h i w)
    else jump_awaits micros i c m h (k - 100) (jump_round sdk lc micros h i w)"
proof -
  from w obtain r where j: "jump_of i c m w" and sh: "shows_from w c h k" and m: "m \<notin> shown_ids h k"
    and r: "jt_wait (hw_jumps w ! i) = JumpPage r (length h - k)" "request_pending r w"
      "hw_requests w ! r = \<lparr>pr_target = ChannelPage c, pr_before = 1000 * millis micros (h ! k), pr_outcome = None\<rparr>"
    unfolding jump_awaits_def by blast
  from sh have k: "k < length h" by (simp add: shows_from_def)
  define page where "page = drop (k - 100) (take k h)"
  have served: "server_page micros h (1000 * millis micros (h ! k)) = page"
    using older_than_take[OF _ k, of micros 100] s
    by (simp add: server_page_def page_size_def PAGE_SIZE_def RECENT_MESSAGE_WINDOW_def page_def channel_served_def)
  define v where "v = settle_request r None (channel_page lc c page w)"
  have round: "jump_round sdk lc micros h i w = jump_resumes sdk i v"
    using r by (simp add: jump_round_def served page_answered_def v_def)
  have jv: "hw_jumps v = hw_jumps w" by (simp add: v_def settle_request_def)
  have jov: "jump_of i c m v" using j by (simp add: jump_of_def jv)
  have shv: "shows_from v c h (k - 100)"
    using page_shown[OF s lc sh, of 100] shows_from_cong[of v "channel_page lc c page w"]
    by (simp add: v_def settle_request_def flip: page_def)
  have free: "map_of (hw_inflight v) (ChannelPage c) = None" by (simp add: v_def settle_request_def r(3))
  have out: "pr_outcome (hw_requests v ! r) = Some None" using r(2) by (simp add: v_def settle_request_def request_pending_def)
  have n: "channel_count c v = length h - (k - 100)" using shv by (simp add: channel_count_def view_rec shows_from_def)
  have x: "page_exhausted (ChannelPage c) v \<longleftrightarrow> k < 100"
    using k by (auto simp: v_def settle_request_def channel_page_def prependOlderMessages_def page_def PAGE_SIZE_def Let_def)
  have counted: "jump_round sdk lc micros h i w = jump_counted sdk i (length h - k) v"
    using j r(1) out by (simp add: round jump_resumes_def jv jump_of_def)
  show ?thesis
  proof (cases "k = 0")
    case True
    then have "jump_counted sdk i (length h - k) v = jump_goes i (JumpFailed ''Could not load this message. Please try again.'') v"
      using n jov by (simp add: jump_counted_def jump_of_def)
    moreover have "jump_of i c m (jump_goes i e v)" "jt_wait (hw_jumps (jump_goes i e v) ! i) = e" for e
      using jov by (simp_all add: jump_of_def jump_goes_def)
    ultimately show ?thesis using counted True shv m shows_from_cong[OF jump_goes_frame(3)] by (simp add: jump_over_def)
  next
    case False
    then have "jump_counted sdk i (length h - k) v = jump_loop sdk i v"
      using n jov k by (simp add: jump_counted_def jump_of_def)
    with jump_loop_goes[OF s shv jov free] x counted show ?thesis by simp
  qed
qed

lemma jump_rounds:
  assumes s: "channel_served sdk lc micros c h" and lc: "consistent_comparator lc"
  shows "jump_awaits micros i c m h k w \<Longrightarrow> \<exists>k' \<le> k. jump_over i c m h k' ((jump_round sdk lc micros h i ^^ Suc (k div 100)) w)"
proof (induction k arbitrary: w rule: less_induct)
  case (less k)
  let ?v = "jump_round sdk lc micros h i w"
  note step = jump_round_goes[OF s lc less.prems]
  have stay: "(jump_round sdk lc micros h i ^^ n) ?v = ?v" if "jump_over i c m h (k - 100) ?v" for n
    by (induction n) (simp_all add: jump_resumes_over[OF that])
  show ?case
  proof (cases "m \<in> shown_ids h (k - 100) \<or> k < 100")
    case True
    with step have over: "jump_over i c m h (k - 100) ?v" by simp
    with stay[OF over] show ?thesis by (metis comp_apply diff_le_self funpow_Suc_right)
  next
    case False
    with step have "jump_awaits micros i c m h (k - 100) ?v" by simp
    from less.IH[OF _ this] False obtain k' where "k' \<le> k - 100" "jump_over i c m h k' ((jump_round sdk lc micros h i ^^ Suc ((k - 100) div 100)) ?v)" by auto
    moreover have "Suc ((k - 100) div 100) = k div 100" using False by (simp add: le_div_geq)
    ultimately show ?thesis by (metis comp_apply diff_le_self funpow_Suc_right order_trans)
  qed
qed



text \<open>Four messages, one a second, of which the client shows the newest two.\<close>

definition demo_row :: "int \<Rightarrow> message_row" where
  "demo_row i = \<lparr>r_msg_id = NumValue i, r_msg_channelId = NumValue 7, r_msg_senderIdentity = IdentText ''ada'', r_msg_content = Some ''hi'',
     r_msg_sentAt = TimeStamp (1700000000000 + 1000 * i), r_msg_editedAt = None, r_msg_deleted = False\<rparr>"

definition row_micros :: "message_row \<Rightarrow> int" where
  "row_micros row = (case r_msg_sentAt row of TimeStamp ms \<Rightarrow> 1000 * ms | _ \<Rightarrow> 0)"

definition demo_sdk :: history_sdk where
  "demo_sdk = \<lparr>fromDate = (\<lambda>d. case d of None \<Rightarrow> Inl ''RangeError'' | Some ms \<Rightarrow> Inr (1000 * ms)), target_error = (\<lambda>_. None)\<rparr>"

definition demo_rows :: "message_row list" where "demo_rows = map demo_row [0, 1, 2, 3]"

definition demo_shown :: history_world where
  "demo_shown = history_world_init\<lparr>hw_messages := setChannelMessages code_unit_compare 7 (map mapMessage (drop 2 demo_rows)) messages_init\<rparr>"

lemma demo_row_simps: "millis row_micros (demo_row i) = 1700000000000 + 1000 * i" "msg_id (mapMessage (demo_row i)) = i"
  "msg_sentAt (mapMessage (demo_row i)) = to_iso_string (1700000000000 + 1000 * i)"
  by (simp_all add: millis_def row_micros_def demo_row_def mapMessage_def)

definition demo_times :: "string list" where
  "demo_times = [''2023-11-14T22:13:20.000Z'', ''2023-11-14T22:13:21.000Z'', ''2023-11-14T22:13:22.000Z'', ''2023-11-14T22:13:23.000Z'']"

lemma demo_day: "civil_from_days 19675 = (2023, 11, 14)" by code_simp

lemma demo_digits: "digit_char 0 = CHR ''0''" "digit_char 1 = CHR ''1''" "digit_char 2 = CHR ''2''" "digit_char 3 = CHR ''3''" "digit_char 4 = CHR ''4''"
  by code_simp+

lemma replicate_two: "replicate 2 c = [c, c]"
  by (simp add: numeral_2_eq_2)

lemma demo_sent: "map (\<lambda>row. msg_sentAt (mapMessage row)) demo_rows = demo_times"
  by (simp add: demo_rows_def demo_row_simps demo_times_def to_iso_string_def demo_day iso_year_def pad_def)
    (simp add: show_nat.simps demo_digits replicate_two del: One_nat_def)

lemma demo_order: "map (\<lambda>a. map (\<lambda>b. a \<le> b) demo_times) demo_times = map (\<lambda>a. map (\<lambda>b. a \<le> b) [0, 1, 2, 3]) [0, 1, 2, 3 :: int]"
  by code_simp

lemma demo_served: "channel_served demo_sdk code_unit_compare row_micros 7 demo_rows"
proof -
  have "sorted_wrt (\<lambda>a b. millis row_micros a < millis row_micros b) demo_rows" "distinct (map (\<lambda>row. msg_id (mapMessage row)) demo_rows)"
    by (simp_all add: demo_rows_def demo_row_simps)
  moreover have "\<forall>row \<in> set demo_rows. date_parse (msg_sentAt (mapMessage row)) = Some (millis row_micros row)"
    by (simp add: demo_rows_def demo_row_simps date_parse_iso[of _ 2023 11 14] demo_day)
  moreover have "\<forall>a \<in> set demo_rows. \<forall>b \<in> set demo_rows.
      code_unit_compare (msg_sentAt (mapMessage a)) (msg_sentAt (mapMessage b)) \<le> 0 \<longleftrightarrow> millis row_micros a \<le> millis row_micros b"
  proof -
    have "map (\<lambda>a. map (\<lambda>b. msg_sentAt (mapMessage a) \<le> msg_sentAt (mapMessage b)) demo_rows) demo_rows
        = map (\<lambda>a. map (\<lambda>b. a \<le> b) demo_times) demo_times" by (simp add: comp_def flip: demo_sent)
    also have "\<dots> = map (\<lambda>a. map (\<lambda>b. millis row_micros a \<le> millis row_micros b) demo_rows) demo_rows"
      unfolding demo_order by (simp add: demo_rows_def demo_row_simps)
    finally show ?thesis by (simp add: map_eq_conv)
  qed
  ultimately show ?thesis by (simp add: channel_served_def demo_sdk_def)
qed

lemma demo_shown_simps: "channel_view (hw_messages demo_shown) 7 = map mapMessage (drop 2 demo_rows)" "channel_older (hw_messages demo_shown) 7 = []"
  "hw_inflight demo_shown = []" "hw_jumps demo_shown = []" "historyExhausted (hw_messages demo_shown) = []"
  by (simp_all add: demo_shown_def history_world_init_def channel_view_set mergeHistory_def)
    (simp_all add: messages_init_def channel_older_def setChannelMessages_def Let_def mergeHistory_def)


theorem one_page_request_per_target_witness:
  "load_older demo_sdk (ChannelPage 7) (history_events demo_sdk code_unit_compare [StoresChange (hw_messages demo_shown) dm_init, LoadPage (ChannelPage 7)] history_world_init)
     = (history_events demo_sdk code_unit_compare [StoresChange (hw_messages demo_shown) dm_init, LoadPage (ChannelPage 7)] history_world_init, Some 0)"
proof -
  define w where "w = history_events demo_sdk code_unit_compare [StoresChange (hw_messages demo_shown) dm_init, LoadPage (ChannelPage 7)] history_world_init"
  have "map pr_target (hw_requests w) = [ChannelPage 7]" "map pr_outcome (hw_requests w) = [None]" unfolding w_def by code_simp+
  then have "request_pending 0 w" "pr_target (hw_requests w ! 0) = ChannelPage 7" by (auto simp: request_pending_def)
  from one_page_request_per_target[OF w_def this] show ?thesis unfolding w_def by blast
qed

section \<open>Where paging does less than it means to\<close>

text \<open>
  The cursor of a page has milliseconds, the server compares microseconds: a message that was sent in the millisecond of
  the oldest one on view, but before it, is in no page.
\<close>

lemma same_millisecond_is_skipped:
  assumes "millis micros x = millis micros y"
  shows "x \<notin> set (server_page micros h (1000 * millis micros y))"
proof -
  have "\<not> micros x < 1000 * millis micros y" using assms unfolding millis_def by linarith
  then show ?thesis by (auto simp: server_page_def older_than_def Let_def dest!: in_set_dropD)
qed

text \<open>An error thrown while the arguments are built leaves the entry of the table behind: every later call follows the
  rejected promise, whatever happens.\<close>

definition stuck :: "page_target \<Rightarrow> nat \<Rightarrow> string \<Rightarrow> history_world \<Rightarrow> bool" where
  "stuck t r e w \<longleftrightarrow> map_of (hw_inflight w) t = Some r \<and> r < length (hw_requests w) \<and> pr_outcome (hw_requests w ! r) = Some (Some e) \<and> history_inv w"

lemma thrown_arguments_stick:
  assumes "page_arguments sdk t sentAt = Inl e" and "oldest_sentAt t w = Some sentAt" and "\<not> page_exhausted t w"
    and "map_of (hw_inflight w) t = None" and "history_inv w"
  shows "stuck t (length (hw_requests w)) e (fst (load_older sdk t w))"
  using assms load_older_inv[OF assms(5), of sdk t] by (simp add: stuck_def load_older_def page_request_of_def Let_def)

lemma stuck_answers: "stuck t r e w \<Longrightarrow> load_older sdk t w = (w, Some r)"
  by (simp add: stuck_def load_older_def)

lemma load_older_stuck: "stuck t r e w \<Longrightarrow> stuck t r e (fst (load_older sdk t' w))"
  using load_older_inv[of w sdk t'] by (auto simp: stuck_def load_older_def Let_def nth_append split: option.split)

lemma stuck_cong: "hw_inflight v = hw_inflight w \<Longrightarrow> hw_requests v = hw_requests w \<Longrightarrow> stuck t r e v = stuck t r e w"
  using history_inv_cong[of v w] by (simp add: stuck_def)

lemma settle_stuck: "stuck t r e w \<Longrightarrow> request_pending r' w \<Longrightarrow> stuck t r e (settle_request r' out w)"
proof -
  assume s: "stuck t r e w" and p: "request_pending r' w"
  then have h: "history_inv w" and "r' \<noteq> r" by (auto simp: stuck_def request_pending_def)
  with s history_inv_pending[OF h p] have "pr_target (hw_requests w ! r') \<noteq> t" by (auto simp: stuck_def)
  with s \<open>r' \<noteq> r\<close> settle_request_inv[OF h p] show ?thesis by (simp add: stuck_def settle_request_def)
qed

lemma history_step_stuck: "stuck t r e w \<Longrightarrow> stuck t r e (history_event_step sdk lc ev w)"
proof -
  assume s: "stuck t r e w"
  have goes: "stuck t r e (jump_goes i k v) = stuck t r e v" for i k v by (rule stuck_cong) simp_all
  have loop: "stuck t r e v \<Longrightarrow> stuck t r e (jump_loop sdk i v)" for i v
    using load_older_stuck[of t r e v sdk "ChannelPage (jt_channel (hw_jumps v ! i))"]
    by (auto simp: jump_loop_def Let_def loadOlderChannelMessages_def goes split: prod.splits option.splits)
  show ?thesis
  proof (cases ev)
    case (PageReply r' reply)
    have "stuck t r e (settle_request r' out v)" if "request_pending r' w" "hw_inflight v = hw_inflight w" "hw_requests v = hw_requests w" for v out
      using settle_stuck[of t r e v r'] that s stuck_cong[OF that(2,3)] by (simp add: request_pending_def)
    with s PageReply show ?thesis by (auto simp: page_answered_def split: page_target.splits page_reply.splits)
  next
    case (Jump c m)
    then show ?thesis
      using s stuck_cong[of "w\<lparr>hw_jumps := hw_jumps w @ [\<lparr>jt_channel = c, jt_message = m, jt_wait = JumpTick 0\<rparr>]\<rparr>" w]
      by (simp add: loadChannelMessage_def loop)
  next
    case (JumpResumes i)
    with s loop goes show ?thesis by (auto simp: jump_resumes_def jump_counted_def split: jump_wait.splits option.splits)
  next
    case (StoresChange ms ds)
    with s stuck_cong[of "w\<lparr>hw_messages := ms, hw_dms := ds\<rparr>" w] show ?thesis by simp
  qed (simp add: load_older_stuck s)
qed

end
