(* ===== verification/Discovery.thy ===== *)
theory Discovery
  imports ServerConfig Json
begin

text \<open>
  How a host is found: \<open>src/lib/discovery.ts\<close> with \<open>src/lib/runtimeConfig.ts\<close>, and the two hooks that configure the
  client without its user, \<open>src/hooks/useDeepLink.ts\<close> and \<open>src/hooks/useWebAutoConfig.ts\<close>.
\<close>

section \<open>The discovery document\<close>

record well_known =
  wk_spacetimedb :: "string option"
  wk_auth :: "string option"
  wk_livekit :: "string option"
  wk_database :: "string option"
  wk_uploadPartSizeBytes :: "int option"
  wk_uploadMaxFileSizeBytes :: "int option"
  wk_dailyUploadQuotaBytes :: "int option"
  wk_userStorageLimitBytes :: "int option"
  wk_instanceStorageLimitBytes :: "int option"
  wk_web :: "string option"

text \<open>The host without brackets or port, as the two regular expressions of \<open>isLocalHost\<close> cut it.\<close>

definition bracketed_host :: "string \<Rightarrow> string option" where
  "bracketed_host s = (case s of c # r \<Rightarrow> (let h = takeWhile (\<lambda>x. x \<noteq> CHR '']'') r in
       if c = CHR ''['' \<and> h \<noteq> [] \<and> length h < length r then Some h else None) | [] \<Rightarrow> None)"

definition strip_port :: "string \<Rightarrow> string" where
  "strip_port s = (let d = takeWhile is_digit (rev s); r = drop (length d) (rev s) in
     case r of c # r' \<Rightarrow> if d \<noteq> [] \<and> c = CHR '':'' then rev r' else s | [] \<Rightarrow> s)"

definition private_172 :: "string \<Rightarrow> bool" where
  "private_172 h \<longleftrightarrow> (\<exists>k \<in> set [16..<32]. starts_with (''172.'' @ show_nat k @ ''.'') h)"

definition isLocalHost :: "string \<Rightarrow> bool" where
  "isLocalHost hostWithPort = (let host = js_lower (case bracketed_host hostWithPort of Some h \<Rightarrow> h | None \<Rightarrow> strip_port hostWithPort) in
     host = ''localhost'' \<or> host = ''::1'' \<or> starts_with (rev ''.local'') (rev host) \<or> starts_with ''127.'' host
     \<or> starts_with ''10.'' host \<or> starts_with ''192.168.'' host \<or> private_172 host)"

definition trimmed_url :: "string \<Rightarrow> string" where
  "trimmed_url input = rev (dropWhile (\<lambda>c. c = CHR ''/'') (rev (js_trim input)))"

definition url_head :: "string \<Rightarrow> string" where
  "url_head s = takeWhile (\<lambda>c. c \<noteq> CHR ''/'') s"

definition normalizeServerUrl :: "string \<Rightarrow> string" where
  "normalizeServerUrl input = (let trimmed = trimmed_url input in if js_includes ''://'' trimmed then trimmed
     else (if isLocalHost (url_head trimmed) then ''http'' else ''https'') @ ''://'' @ trimmed)"

text \<open>The scheme is matched in either case, and the letter that makes it secure is copied as it is.\<close>

definition toSocketUrl :: "string \<Rightarrow> string" where
  "toSocketUrl u = (if js_lower (take 7 u) = ''http://'' then ''ws://'' @ drop 7 u
     else if js_lower (take 8 u) = ''https://'' then ''ws'' @ [u ! 4] @ ''://'' @ drop 8 u else u)"

definition secure_endpoint :: "string list \<Rightarrow> string option \<Rightarrow> bool" where
  "secure_endpoint schemes u = (case u of None \<Rightarrow> False | Some u \<Rightarrow> list_ex (\<lambda>s. starts_with s u) schemes)"

definition insecure_endpoints :: "well_known \<Rightarrow> string list" where
  "insecure_endpoints json = map fst (filter (\<lambda>(name, url, schemes). \<not> secure_endpoint schemes url)
     [(''auth'', wk_auth json, [''https://'']), (''spacetimedb'', wk_spacetimedb json, [''wss://'', ''https://'']),
      (''livekit'', wk_livekit json, [''wss://'', ''https://''])])"

definition join_names :: "string list \<Rightarrow> string" where
  "join_names names = (case names of [] \<Rightarrow> [] | n # ns \<Rightarrow> n @ concat (map (\<lambda>m. '', '' @ m) ns))"

definition assertSecureEndpoints :: "string \<Rightarrow> well_known \<Rightarrow> string option" where
  "assertSecureEndpoints base json = (if \<not> starts_with ''https://'' base then None
     else let insecure = insecure_endpoints json in if insecure = [] then None
       else Some (''letschat.json advertises insecure endpoints for an https server: '' @ join_names insecure))"

text \<open>What \<open>fetch\<close> of the document ends with: it throws, or a status, or a document.\<close>

datatype fetch_reply = FetchThrows string | HttpStatus nat | WellKnownDocument well_known

definition fetchWellKnown :: "string \<Rightarrow> fetch_reply \<Rightarrow> string + well_known" where
  "fetchWellKnown serverUrl reply = (let base = normalizeServerUrl serverUrl in case reply of
     FetchThrows e \<Rightarrow> Inl e
   | HttpStatus n \<Rightarrow> Inl (''Discovery failed ('' @ show_nat n @ ''). Is /.well-known/letschat.json hosted at '' @ base @ ''?'')
   | WellKnownDocument json \<Rightarrow> Inr json)"

definition field_missing :: "string option \<Rightarrow> bool" where
  "field_missing f = (case f of None \<Rightarrow> True | Some s \<Rightarrow> s = [])"

definition missing_fields :: "well_known \<Rightarrow> string list" where
  "missing_fields json = map fst (filter (\<lambda>(name, f). field_missing f)
     [(''spacetimedb'', wk_spacetimedb json), (''auth'', wk_auth json), (''livekit'', wk_livekit json)])"

definition config_of_document :: "well_known \<Rightarrow> server_config" where
  "config_of_document json = \<lparr>spacetimedbUri = toSocketUrl (the (wk_spacetimedb json)),
     spacetimedbDatabase = (case wk_database json of None \<Rightarrow> ''letschat'' | Some d \<Rightarrow> d), authServiceUrl = the (wk_auth json),
     livekitUrl = toSocketUrl (the (wk_livekit json)), uploadPartSizeBytes = wk_uploadPartSizeBytes json,
     uploadMaxFileSizeBytes = wk_uploadMaxFileSizeBytes json, dailyUploadQuotaBytes = wk_dailyUploadQuotaBytes json,
     userStorageLimitBytes = wk_userStorageLimitBytes json, instanceStorageLimitBytes = wk_instanceStorageLimitBytes json\<rparr>"

text \<open>\<open>fetchWellKnown\<close> normalises once more what is normal already.\<close>

definition discoverConfig :: "string \<Rightarrow> fetch_reply \<Rightarrow> string + server_config" where
  "discoverConfig serverUrl reply = (let base = normalizeServerUrl serverUrl in case fetchWellKnown base reply of
     Inl e \<Rightarrow> Inl e
   | Inr json \<Rightarrow> if missing_fields json \<noteq> [] then Inl (''letschat.json is missing fields: '' @ join_names (missing_fields json))
     else case assertSecureEndpoints base json of Some e \<Rightarrow> Inl e | None \<Rightarrow> Inr (config_of_document json))"

section \<open>Join links\<close>

definition WARM_DEDUPE_WINDOW_MS :: int where "WARM_DEDUPE_WINDOW_MS = 2000"

definition sameConfig :: "server_config option \<Rightarrow> server_config \<Rightarrow> bool" where
  "sameConfig a b = (case a of None \<Rightarrow> False | Some a \<Rightarrow> spacetimedbUri a = spacetimedbUri b \<and> authServiceUrl a = authServiceUrl b
     \<and> livekitUrl a = livekitUrl b \<and> spacetimedbDatabase a = spacetimedbDatabase b)"

text \<open>
  \<open>dl_connects\<close> counts the calls of \<open>initializeSpacetime\<close>, \<open>dl_asked\<close> the questions for the launch links on their way,
  \<open>dl_cold\<close> the launch links that were applied.
\<close>

record link_world =
  coldStartConsumed :: bool
  warmListenerInitialised :: bool
  lastWarmHandled :: "(string \<times> int) option"
  dl_config :: server_config_state
  dl_connects :: nat
  dl_asked :: nat
  dl_cold :: nat

datatype link_kind = ColdLink | WarmLink

definition warm_duplicate :: "int \<Rightarrow> string \<Rightarrow> link_world \<Rightarrow> bool" where
  "warm_duplicate now raw w = (case lastWarmHandled w of None \<Rightarrow> False | Some (url, at) \<Rightarrow> url = raw \<and> now - at < WARM_DEDUPE_WINDOW_MS)"

text \<open>\<open>parse\<close> is \<open>parseJoinLink\<close>; the toasts and the navigation are left out.\<close>

definition applyParsedUrl :: "(string \<Rightarrow> server_config option) \<Rightarrow> string \<Rightarrow> link_world \<Rightarrow> link_world" where
  "applyParsedUrl parse raw w = (case parse raw of None \<Rightarrow> w
     | Some cfg \<Rightarrow> if sameConfig (sc_config (dl_config w)) cfg then w
       else case requestConnect cfg True (dl_config w) of
         (False, st) \<Rightarrow> w\<lparr>dl_config := st\<rparr>
       | (True, st) \<Rightarrow> w\<lparr>dl_config := setConfig cfg st, dl_connects := Suc (dl_connects w)\<rparr>)"

definition applyUrl :: "(string \<Rightarrow> server_config option) \<Rightarrow> int \<Rightarrow> string \<Rightarrow> link_kind \<Rightarrow> link_world \<Rightarrow> link_world" where
  "applyUrl parse now raw kind w = (if kind = WarmLink then
       (if warm_duplicate now raw w then w else applyParsedUrl parse raw (w\<lparr>lastWarmHandled := Some (raw, now)\<rparr>))
     else applyParsedUrl parse raw w)"

text \<open>
  The steps of \<open>init\<close>: the plugin is there, the launch links are there (none when the plugin throws), the listeners are
  being subscribed, the second one failed; \<open>gone\<close>: the effect was cleaned up meanwhile.  And the links that come later.
\<close>

definition plugin_loaded :: "bool \<Rightarrow> link_world \<Rightarrow> link_world" where
  "plugin_loaded gone w = (if gone \<or> coldStartConsumed w then w else w\<lparr>coldStartConsumed := True, dl_asked := Suc (dl_asked w)\<rparr>)"

definition launch_links :: "(string \<Rightarrow> server_config option) \<Rightarrow> int \<Rightarrow> bool \<Rightarrow> string list \<Rightarrow> link_world \<Rightarrow> link_world" where
  "launch_links parse now gone initial w = (if dl_asked w = 0 then w else let w = w\<lparr>dl_asked := dl_asked w - 1\<rparr> in
     case initial of u # _ \<Rightarrow> if gone then w else applyUrl parse now u ColdLink (w\<lparr>dl_cold := Suc (dl_cold w)\<rparr>) | [] \<Rightarrow> w)"

definition warm_subscribing :: "link_world \<Rightarrow> link_world" where
  "warm_subscribing w = w\<lparr>warmListenerInitialised := True\<rparr>"

definition open_url_failed :: "link_world \<Rightarrow> link_world" where
  "open_url_failed w = w\<lparr>warmListenerInitialised := False\<rparr>"

datatype link_event = PluginLoaded bool | LaunchLinks bool "string list" | WarmSubscribing | OpenUrlFailed | WarmUrl string | OtherConfig host_op

fun link_step :: "(string \<Rightarrow> server_config option) \<Rightarrow> int \<Rightarrow> link_event \<Rightarrow> link_world \<Rightarrow> link_world" where
  "link_step parse now (PluginLoaded gone) w = plugin_loaded gone w"
| "link_step parse now (LaunchLinks gone initial) w = launch_links parse now gone initial w"
| "link_step parse now WarmSubscribing w = warm_subscribing w"
| "link_step parse now OpenUrlFailed w = open_url_failed w"
| "link_step parse now (WarmUrl u) w = applyUrl parse now u WarmLink w"
| "link_step parse now (OtherConfig p) w = w\<lparr>dl_config := host_step p (dl_config w)\<rparr>"

definition link_run :: "(string \<Rightarrow> server_config option) \<Rightarrow> (int \<times> link_event) list \<Rightarrow> link_world \<Rightarrow> link_world" where
  "link_run parse es w = foldl (\<lambda>w (now, e). link_step parse now e w) w es"

definition link_init :: "server_config_state \<Rightarrow> link_world" where
  "link_init st = \<lparr>coldStartConsumed = False, warmListenerInitialised = False, lastWarmHandled = None, dl_config = st, dl_connects = 0, dl_asked = 0, dl_cold = 0\<rparr>"

section \<open>The hosted web client\<close>

text \<open>\<open>runtime\<close> and \<open>baked\<close> are the two places \<open>WEB_CONNECT_URL\<close> may come from; an empty text counts as none.\<close>

definition web_connect_url :: "string option \<Rightarrow> string option \<Rightarrow> string option" where
  "web_connect_url runtime baked = (let u = (case runtime of Some r \<Rightarrow> if r \<noteq> [] then Some r else baked | None \<Rightarrow> baked)
   in case u of None \<Rightarrow> None | Some u \<Rightarrow> if js_trim u = [] then None else Some (js_trim u))"

datatype web_status = WebInactive | WebDiscovering | WebDone | WebFailed

record web_world =
  bootstrapStarted :: bool
  ww_config :: server_config_state
  ww_status :: web_status
  ww_connects :: nat

definition web_init :: "bool \<Rightarrow> string option \<Rightarrow> bool \<Rightarrow> server_config_state \<Rightarrow> web_world" where
  "web_init hosted url started st = \<lparr>bootstrapStarted = started, ww_config = st,
     ww_status = (if hosted \<and> url \<noteq> None then WebDiscovering else WebInactive), ww_connects = 0\<rparr>"

text \<open>The effect runs; a fetch of \<open>discoverConfig\<close> follows when it returns true.\<close>

definition web_effect :: "bool \<Rightarrow> string option \<Rightarrow> web_world \<Rightarrow> bool \<times> web_world" where
  "web_effect hosted url w = (if \<not> (hosted \<and> url \<noteq> None) \<or> \<not> hasHydrated (ww_config w) \<or> bootstrapStarted w then (False, w)
     else let w = w\<lparr>bootstrapStarted := True\<rparr> in
       if sc_config (ww_config w) \<noteq> None then (False, w\<lparr>ww_status := WebDone\<rparr>) else (True, w))"

definition web_discovered :: "string \<Rightarrow> bool \<Rightarrow> fetch_reply \<Rightarrow> web_world \<Rightarrow> web_world" where
  "web_discovered url cancelled reply w = (case discoverConfig url reply of
     Inl e \<Rightarrow> (let w = w\<lparr>bootstrapStarted := False\<rparr> in if cancelled then w else w\<lparr>ww_status := WebFailed\<rparr>)
   | Inr cfg \<Rightarrow> if cancelled then w else w\<lparr>ww_config := setConfig cfg (ww_config w), ww_connects := Suc (ww_connects w)\<rparr>)"

text \<open>\<open>initializeSpacetime\<close> has settled.\<close>

definition web_connected :: "bool \<Rightarrow> bool \<Rightarrow> web_world \<Rightarrow> web_world" where
  "web_connected ok cancelled w = (let w = (if ok then w else w\<lparr>bootstrapStarted := False\<rparr>) in
     if cancelled then w else w\<lparr>ww_status := (if ok then WebDone else WebFailed)\<rparr>)"

end
