(* ===== verification/DiscoveryFacts.thy ===== *)
theory DiscoveryFacts
  imports Discovery
begin

text \<open>
  What finding a host promises: a secure host never leads to a plaintext address, and a join link never moves the client
  to a host its user has not seen, nor a known host to other addresses.
\<close>

section \<open>Discovery\<close>

lemma socket_of_secure: "starts_with ''https://'' u \<or> starts_with ''wss://'' u \<Longrightarrow> starts_with ''wss://'' (toSocketUrl u)"
  by (auto simp: starts_with_iff toSocketUrl_def js_lower_def js_lower_char_def)

lemma socket_nonempty: "u \<noteq> [] \<Longrightarrow> toSocketUrl u \<noteq> []"
  by (simp add: toSocketUrl_def)

lemma missing_none: "missing_fields json = [] \<longleftrightarrow> \<not> field_missing (wk_spacetimedb json) \<and> \<not> field_missing (wk_auth json) \<and> \<not> field_missing (wk_livekit json)"
  by (simp add: missing_fields_def)

lemma insecure_none: "insecure_endpoints json = [] \<longleftrightarrow> secure_endpoint [''https://''] (wk_auth json)
    \<and> secure_endpoint [''wss://'', ''https://''] (wk_spacetimedb json) \<and> secure_endpoint [''wss://'', ''https://''] (wk_livekit json)"
  by (simp add: insecure_endpoints_def)

lemma discoverConfig_accepts: "discoverConfig url reply = Inr c \<longleftrightarrow> (\<exists>json. reply = WellKnownDocument json \<and> missing_fields json = []
    \<and> (starts_with ''https://'' (normalizeServerUrl url) \<longrightarrow> insecure_endpoints json = []) \<and> c = config_of_document json)"
  by (auto simp: discoverConfig_def fetchWellKnown_def assertSecureEndpoints_def Let_def split: fetch_reply.splits)

text \<open>C39: A secure host leads to secure addresses only: a discovery that succeeds for an address which starts with
  \<open>https://\<close>, or for a bare host that is not a local one, gives the account service by \<open>https://\<close> and the database
  and the calls by \<open>wss://\<close>.\<close>

theorem secure_host_stays_secure:
  assumes "discoverConfig url reply = Inr c"
    and "starts_with ''https://'' (normalizeServerUrl url) \<or> \<not> js_includes ''://'' (trimmed_url url) \<and> \<not> isLocalHost (url_head (trimmed_url url))"
  shows "starts_with ''https://'' (authServiceUrl c) \<and> starts_with ''wss://'' (spacetimedbUri c) \<and> starts_with ''wss://'' (livekitUrl c)"
proof -
  have "starts_with ''https://'' (normalizeServerUrl url)"
    using assms(2) by (auto simp: normalizeServerUrl_def starts_with_def)
  with assms(1) obtain json where c: "c = config_of_document json" and "insecure_endpoints json = []"
    by (auto simp: discoverConfig_accepts)
  then show ?thesis using socket_of_secure
    by (auto simp: insecure_none secure_endpoint_def config_of_document_def split: option.splits)
qed

definition demo_document :: well_known where
  "demo_document = \<lparr>wk_spacetimedb = Some ''https://db.x.org'', wk_auth = Some ''https://x.org'', wk_livekit = Some ''wss://lk.x.org'',
     wk_database = None, wk_uploadPartSizeBytes = None, wk_uploadMaxFileSizeBytes = None, wk_dailyUploadQuotaBytes = None,
     wk_userStorageLimitBytes = None, wk_instanceStorageLimitBytes = None, wk_web = None\<rparr>"

theorem secure_host_stays_secure_witness:
  "let c = config_of_document demo_document in starts_with ''https://'' (authServiceUrl c) \<and> starts_with ''wss://'' (spacetimedbUri c) \<and> starts_with ''wss://'' (livekitUrl c)"
proof -
  have "discoverConfig '' chat.x.org/ '' (WellKnownDocument demo_document) = Inr (config_of_document demo_document)" by code_simp
  moreover have "\<not> js_includes ''://'' (trimmed_url '' chat.x.org/ '')" "\<not> isLocalHost (url_head (trimmed_url '' chat.x.org/ ''))" by code_simp+
  ultimately show ?thesis unfolding Let_def by (intro secure_host_stays_secure) auto
qed

text \<open>The check is skipped when the scheme is typed in upper case, and a public name may look like a private address.\<close>

definition plain_document :: well_known where
  "plain_document = demo_document\<lparr>wk_auth := Some ''http://x.org''\<rparr>"

lemma upper_case_scheme_skips_check: "map_sum (\<lambda>_. ()) authServiceUrl (discoverConfig ''HTTPS://x.org'' (WellKnownDocument plain_document)) = Inr ''http://x.org''"
  "map_sum (\<lambda>_. ()) authServiceUrl (discoverConfig ''https://x.org'' (WellKnownDocument plain_document)) = Inl ()"
  by code_simp+

lemma public_name_taken_as_local: "normalizeServerUrl ''10.example.org'' = ''http://10.example.org''"
  by code_simp

section \<open>Join links\<close>

text \<open>The addresses a host is pinned to.\<close>

definition pin_of :: "server_config list \<Rightarrow> string \<Rightarrow> (string \<times> string \<times> string) option" where
  "pin_of hosts k = map_option (\<lambda>h. (spacetimedbUri h, livekitUrl h, spacetimedbDatabase h)) (find (\<lambda>h. hostKey h = k) hosts)"

lemma unchanged_pin: "diffKnownHost hosts c = Some [] \<longleftrightarrow> pin_of hosts (hostKey c) = Some (spacetimedbUri c, livekitUrl c, spacetimedbDatabase c)"
  by (auto simp: diffKnownHost_same pin_of_def)

lemma setConfig_pin: "diffKnownHost (knownHosts st) c = Some [] \<Longrightarrow> pin_of (knownHosts (setConfig c st)) = pin_of (knownHosts st)"
  by (rule ext) (auto simp: unchanged_pin pin_of_def find_remember)

lemma requestConnect_through: "requestConnect c True st = (True, st') \<Longrightarrow> diffKnownHost (knownHosts st) c = Some [] \<and> st' = st"
  by (auto simp: requestConnect_def split: option.splits if_splits)

lemma requestConnect_parked: "requestConnect c b st = (False, st') \<Longrightarrow> knownHosts st' = knownHosts st \<and> sc_config st' = sc_config st \<and> sessionToken st' = sessionToken st"
  by (auto simp: requestConnect_def split: option.splits if_splits)

text \<open>What a link may do to the configuration.\<close>

definition link_moves :: "server_config_state \<Rightarrow> server_config_state \<Rightarrow> bool" where
  "link_moves st st' \<longleftrightarrow> pin_of (knownHosts st') = pin_of (knownHosts st)
     \<and> (sc_config st' = sc_config st \<or> (\<exists>c. sc_config st' = Some c \<and> diffKnownHost (knownHosts st) c = Some []))"

lemma link_moves_refl: "link_moves st st"
  by (simp add: link_moves_def)

lemma link_moves_trans: "link_moves a b \<Longrightarrow> link_moves b c \<Longrightarrow> link_moves a c"
  unfolding link_moves_def unchanged_pin by metis

lemma applyParsedUrl_moves: "link_moves (dl_config w) (dl_config (applyParsedUrl parse raw w))"
proof (cases "parse raw")
  case (Some cfg)
  obtain ok st where r: "requestConnect cfg True (dl_config w) = (ok, st)" by (cases "requestConnect cfg True (dl_config w)") auto
  show ?thesis
  proof (cases ok)
    case True
    with r have "diffKnownHost (knownHosts (dl_config w)) cfg = Some [] \<and> st = dl_config w" by (simp add: requestConnect_through)
    with Some r True show ?thesis by (simp add: applyParsedUrl_def link_moves_refl) (simp add: link_moves_def setConfig_pin del: setConfig_fields(1))
  next
    case False
    with r have "knownHosts st = knownHosts (dl_config w)" "sc_config st = sc_config (dl_config w)" using requestConnect_parked by metis+
    with Some r False show ?thesis by (simp add: applyParsedUrl_def link_moves_def)
  qed
qed (simp add: applyParsedUrl_def link_moves_refl)

lemma applyUrl_moves: "link_moves (dl_config w) (dl_config (applyUrl parse now raw kind w))"
  using applyParsedUrl_moves[of w parse raw] applyParsedUrl_moves[of "w\<lparr>lastWarmHandled := Some (raw, now)\<rparr>" parse raw]
  by (simp add: applyUrl_def link_moves_refl)

fun from_link :: "link_event \<Rightarrow> bool" where
  "from_link (OtherConfig p) = False"
| "from_link _ = True"

lemma link_step_moves: "from_link e \<Longrightarrow> link_moves (dl_config w) (dl_config (link_step parse now e w))"
proof (cases e)
  case (LaunchLinks gone initial)
  then show ?thesis
    using applyUrl_moves[of "w\<lparr>dl_asked := dl_asked w - 1, dl_cold := Suc (dl_cold w)\<rparr>" parse now "hd initial" ColdLink]
    by (auto simp: launch_links_def Let_def link_moves_refl split: list.split)
qed (auto simp: plugin_loaded_def warm_subscribing_def open_url_failed_def link_moves_refl applyUrl_moves)

lemma link_run_Cons [simp]: "link_run parse (e # es) w = link_run parse es (link_step parse (fst e) (snd e) w)"
  by (simp add: link_run_def split: prod.split)

lemma link_run_Nil [simp]: "link_run parse [] w = w"
  by (simp add: link_run_def)

lemma link_run_moves: "list_all (from_link o snd) es \<Longrightarrow> link_moves (dl_config w) (dl_config (link_run parse es w))"
proof (induction es arbitrary: w)
  case (Cons e es)
  then show ?case using link_step_moves[of "snd e" w parse "fst e"] link_moves_trans by (fastforce simp: comp_def)
qed (simp add: link_moves_refl)

text \<open>C38: No join link moves the client by itself to a host its user has not accepted: whatever links arrive, cold or
  warm, in whatever order, the client stays on its host or goes to one that was known before with the very same
  addresses; what is pinned for each known host stays as it was; and a link to any other host is only parked.\<close>

theorem join_links_ask_first:
  assumes "list_all (from_link o snd) es" and "v = link_run parse es w"
  shows "(case sc_config (dl_config v) of None \<Rightarrow> sc_config (dl_config w) = None
      | Some c \<Rightarrow> sc_config (dl_config w) = Some c \<or> diffKnownHost (knownHosts (dl_config w)) c = Some [])
    \<and> (case map_of (map (\<lambda>h. (hostKey h, h)) (knownHosts (dl_config w))) k of
        None \<Rightarrow> pin_of (knownHosts (dl_config v)) k = None
      | Some h \<Rightarrow> pin_of (knownHosts (dl_config v)) k = Some (spacetimedbUri h, livekitUrl h, spacetimedbDatabase h))"
proof -
  have "map_of (map (\<lambda>h. (hostKey h, h)) hosts) k = find (\<lambda>h. hostKey h = k) hosts" for hosts
    by (induction hosts) auto
  moreover have "link_moves (dl_config w) (dl_config v)" unfolding assms(2) by (rule link_run_moves[OF assms(1)])
  ultimately show ?thesis by (auto simp: link_moves_def pin_of_def split: option.split)
qed

definition demo_link :: "string \<Rightarrow> server_config option" where
  "demo_link u = (if u = ''b'' then Some (sample_host ''b.org'') else if u = ''c'' then Some (sample_host ''c.org'') else None)"

definition demo_hosts :: server_config_state where
  "demo_hosts = setConfig (sample_host ''a.org'') (setConfig (sample_host ''b.org'') (server_config_init None))"

theorem join_links_ask_first_witness:
  "map_option hostKey (sc_config (dl_config (link_run demo_link [(0, PluginLoaded False), (1, LaunchLinks False [''b'']), (2, WarmUrl ''c'')] (link_init demo_hosts))))
     = Some ''https://b.org''
   \<and> pin_of (knownHosts (dl_config (link_run demo_link [(0, PluginLoaded False), (1, LaunchLinks False [''b'']), (2, WarmUrl ''c'')] (link_init demo_hosts)))) ''https://c.org'' = None"
proof -
  define es where "es = [(0 :: int, PluginLoaded False), (1, LaunchLinks False [''b'']), (2, WarmUrl ''c'')]"
  have "list_all (from_link o snd) es" by (simp add: es_def)
  moreover have "map_of (map (\<lambda>h. (hostKey h, h)) (knownHosts (dl_config (link_init demo_hosts)))) ''https://c.org'' = None" by code_simp
  ultimately have "pin_of (knownHosts (dl_config (link_run demo_link es (link_init demo_hosts)))) ''https://c.org'' = None"
    using join_links_ask_first[of es _ demo_link "link_init demo_hosts" "''https://c.org''"] by simp
  moreover have "map_option hostKey (sc_config (dl_config (link_run demo_link es (link_init demo_hosts)))) = Some ''https://b.org''" unfolding es_def by code_simp
  ultimately show ?thesis unfolding es_def by simp
qed

text \<open>The launch links are applied at most once, however often the hook is mounted.\<close>

lemma applyUrl_asked [simp]: "dl_asked (applyUrl parse now raw kind w) = dl_asked w" "dl_cold (applyUrl parse now raw kind w) = dl_cold w"
  "coldStartConsumed (applyUrl parse now raw kind w) = coldStartConsumed w"
  by (auto simp: applyUrl_def applyParsedUrl_def split: option.split prod.split bool.split)

lemma link_step_cold:
  assumes "dl_cold w + dl_asked w \<le> of_bool (coldStartConsumed w)"
  shows "dl_cold (link_step parse now e w) + dl_asked (link_step parse now e w) \<le> of_bool (coldStartConsumed (link_step parse now e w))"
  using assms by (cases e) (auto simp: plugin_loaded_def launch_links_def warm_subscribing_def open_url_failed_def Let_def split: list.split)

lemma launch_link_once: "dl_cold (link_run parse es (link_init st)) \<le> 1"
proof -
  have "dl_cold w + dl_asked w \<le> of_bool (coldStartConsumed w) \<Longrightarrow> dl_cold (link_run parse es w) \<le> 1" for w
  proof (induction es arbitrary: w)
    case (Cons e es)
    then show ?case using link_step_cold[OF Cons.prems] by simp
  qed (auto simp: of_bool_def split: if_splits)
  then show ?thesis by (simp add: link_init_def)
qed

section \<open>The hosted web client\<close>

text \<open>A start-up that is under way is not started again, a host that was kept is left alone, and a failed one may be retried.\<close>

lemma web_effect_once: "web_effect hosted url w = (go, w') \<Longrightarrow> fst (web_effect hosted url w') = False"
  by (auto simp: web_effect_def Let_def split: if_splits)

lemma web_keeps_host: "sc_config (ww_config w) = Some c \<Longrightarrow> web_effect hosted url w = (go, w') \<Longrightarrow> \<not> go \<and> ww_config w' = ww_config w"
  by (auto simp: web_effect_def Let_def split: if_splits)

lemma web_failure_allows_retry: "discoverConfig u reply = Inl e \<Longrightarrow> \<not> bootstrapStarted (web_discovered u cancelled reply w)"
  "\<not> bootstrapStarted (web_connected False cancelled w)"
  by (simp_all add: web_discovered_def web_connected_def Let_def)

text \<open>A start-up whose hook was unmounted leaves the flag set without a host: it is never retried.\<close>

lemma cancelled_start_never_retried:
  assumes "web_effect hosted url w = (True, w1)" and "discoverConfig u reply = Inr c"
  shows "let w2 = web_discovered u True reply w1 in sc_config (ww_config w2) = None \<and> fst (web_effect hosted url w2) = False"
  using assms by (auto simp: web_effect_def web_discovered_def Let_def split: if_splits)

end
