(* ===== verification/JsonPrint.thy ===== *)
theory JsonPrint
  imports Json
begin

text \<open>
  \<open>JSON.stringify\<close> of the JavaScript standard library on parsed values, and that \<open>JSON.parse\<close> reads back what it wrote.
  A number is printed in full decimals, as it is for magnitudes from \<open>10\<^sup>-\<^sup>6\<close> up to \<open>10\<^sup>2\<^sup>1\<close>.
\<close>

definition hex_lower :: "nat \<Rightarrow> char" where
  "hex_lower d = (if d < 10 then char_of (48 + d) else char_of (87 + d))"

definition json_escape :: "char \<Rightarrow> string" where
  "json_escape c = (if c = CHR 0x22 then [CHR 0x5C, CHR 0x22] else if c = CHR 0x5C then [CHR 0x5C, CHR 0x5C]
     else if c = CHR 0x08 then [CHR 0x5C, CHR ''b''] else if c = CHR 0x09 then [CHR 0x5C, CHR ''t'']
     else if c = CHR 0x0A then [CHR 0x5C, CHR ''n''] else if c = CHR 0x0C then [CHR 0x5C, CHR ''f'']
     else if c = CHR 0x0D then [CHR 0x5C, CHR ''r'']
     else let n = of_char c :: nat in if n < 32 then [CHR 0x5C, CHR ''u'', CHR ''0'', CHR ''0'', hex_lower (n div 16), hex_lower (n mod 16)] else [c])"

definition json_quote :: "string \<Rightarrow> string" where
  "json_quote s = CHR 0x22 # concat (map json_escape s) @ [CHR 0x22]"

definition show_decimal :: "int \<Rightarrow> nat \<Rightarrow> string" where
  "show_decimal m k = (let n = nat \<bar>m\<bar>; f = show_nat (n mod 10 ^ k);
     d = rev (dropWhile (\<lambda>c. c = CHR ''0'') (rev (replicate (k - length f) (CHR ''0'') @ f)))
   in (if m < 0 then ''-'' else []) @ show_nat (n div 10 ^ k) @ (if d = [] then [] else CHR ''.'' # d))"

definition show_number :: "int \<Rightarrow> int \<Rightarrow> string" where
  "show_number m e = (if 0 \<le> e then show_int (m * 10 ^ nat e) else show_decimal m (nat (- e)))"

fun json_stringify :: "json \<Rightarrow> string"
  and json_members :: "(string \<times> json) list \<Rightarrow> string"
  and json_elems :: "json list \<Rightarrow> string" where
  "json_stringify JNull = ''null''"
| "json_stringify (JBool b) = (if b then ''true'' else ''false'')"
| "json_stringify (JNum m e) = show_number m e"
| "json_stringify (JStr s) = json_quote s"
| "json_stringify (JArr vs) = ''['' @ json_elems vs @ '']''"
| "json_stringify (JObj ms) = ''{'' @ json_members ms @ ''}''"
| "json_members [] = []"
| "json_members ((k, v) # ms) = json_quote k @ '':'' @ json_stringify v @ (if ms = [] then [] else '','' @ json_members ms)"
| "json_elems [] = []"
| "json_elems (v # vs) = json_stringify v @ (if vs = [] then [] else '','' @ json_elems vs)"

section \<open>Reading back\<close>

lemma hex_val_lower: "d < 16 \<Longrightarrow> hex_val (hex_lower d) = Some d"
  by (auto simp: hex_val_def hex_lower_def of_char_of Let_def)

lemma parse_escape: "parse_string (json_escape c @ s) = prepend_char c (parse_string s)"
proof -
  have "hex_val (CHR ''0'') = Some 0" by code_simp
  moreover have "(of_char c :: nat) div 16 < 16" "(of_char c :: nat) mod 16 < 16" if "(of_char c :: nat) < 32" using that by auto
  moreover have "char_of (16 * ((of_char c :: nat) div 16) + of_char c mod 16) = c" by (simp del: char_of_nat)
  ultimately show ?thesis
    by (auto simp: json_escape_def Let_def simple_escape_def hex_val_lower)
qed

lemma parse_quoted: "parse_string (concat (map json_escape s) @ CHR 0x22 # r) = Some (s, r)"
  by (induction s) (simp_all add: parse_escape prepend_char_def del: parse_string.simps(2), simp)


fun json_plain :: "json \<Rightarrow> bool" and members_plain :: "(string \<times> json) list \<Rightarrow> bool" and elems_plain :: "json list \<Rightarrow> bool" where
  "json_plain (JNum m e) \<longleftrightarrow> 0 \<le> m \<and> e = 0"
| "json_plain (JArr vs) \<longleftrightarrow> elems_plain vs"
| "json_plain (JObj ms) \<longleftrightarrow> members_plain ms"
| "json_plain _ \<longleftrightarrow> True"
| "members_plain [] \<longleftrightarrow> True"
| "members_plain ((k, v) # ms) \<longleftrightarrow> json_plain v \<and> members_plain ms"
| "elems_plain [] \<longleftrightarrow> True"
| "elems_plain (v # vs) \<longleftrightarrow> json_plain v \<and> elems_plain vs"

text \<open>What may follow a value: a separator, or anything after a value that is not a number.\<close>

definition json_stop :: "string \<Rightarrow> bool" where
  "json_stop r \<longleftrightarrow> (\<exists>c r'. r = c # r' \<and> (c = CHR '','' \<or> c = CHR '']'' \<or> c = CHR ''}''))"

lemma json_stopI [simp]: "json_stop (CHR '','' # r)" "json_stop (CHR '']'' # r)" "json_stop (CHR ''}'' # r)"
  by (simp_all add: json_stop_def)

lemma quote_length [simp]: "2 \<le> length (json_quote s)"
  by (simp add: json_quote_def)

lemma stringify_starts: "\<exists>c s. json_stringify v = c # s \<and> \<not> json_ws c \<and> c \<noteq> CHR '']'' \<and> c \<noteq> CHR ''}''" if "json_plain v"
proof (cases v)
  case (JNum m e)
  with that have "json_stringify v = show_nat (nat m)" by (simp add: show_number_def show_int_def)
  then obtain c s where c: "json_stringify v = c # s" "is_digit c" using show_nat_digits[of "nat m"] by (cases "show_nat (nat m)") auto
  then have "c \<noteq> CHR '']''" "c \<noteq> CHR ''}''" by (auto simp: is_digit_def digit_val_def)
  with c digit_not_special(1)[OF c(2)] show ?thesis by auto
qed (auto simp: json_ws_def json_quote_def)

lemma skip_ws_id: "\<not> json_ws c \<Longrightarrow> skip_ws (c # s) = c # s"
  by (simp add: skip_ws_def)

lemma parse_number_value:
  assumes "0 \<le> m" and "json_stop r"
  shows "parse_value (Suc n) (show_number m 0 @ r) = Some (JNum m 0, r)"
proof -
  from assms(2) obtain c r' where r: "r = c # r'" "c = CHR '','' \<or> c = CHR '']'' \<or> c = CHR ''}''" unfolding json_stop_def by blast
  then have "\<not> is_digit c" "c \<noteq> CHR ''.''" "c \<noteq> CHR ''e''" "c \<noteq> CHR ''E''" by (auto simp: is_digit_def digit_val_def)
  from parse_value_show[OF this, of n "nat m" r'] assms(1) show ?thesis by (simp add: r(1) show_number_def show_int_def)
qed

lemma parse_string_value: "parse_value (Suc n) (json_quote s @ r) = Some (JStr s, r)"
  by (simp add: json_quote_def parse_quoted skip_ws_def json_ws_def)

lemma parse_stringify:
  "json_plain v \<Longrightarrow> length (json_stringify v) \<le> n \<Longrightarrow> json_stop r \<or> (\<forall>m e. v \<noteq> JNum m e)
     \<Longrightarrow> parse_value n (json_stringify v @ r) = Some (v, r)"
  "members_plain ms \<Longrightarrow> ms \<noteq> [] \<Longrightarrow> length (json_members ms) < n \<Longrightarrow> parse_members n (json_members ms @ CHR ''}'' # r) = Some (ms, r)"
  "elems_plain vs \<Longrightarrow> vs \<noteq> [] \<Longrightarrow> length (json_elems vs) < n \<Longrightarrow> parse_elems n (json_elems vs @ CHR '']'' # r) = Some (vs, r)"
proof (induction v and ms and vs arbitrary: n r and n r and n r rule: json_stringify_json_members_json_elems.induct)
  case 1
  then obtain k where "n = Suc k" by (cases n) auto
  then show ?case by (simp add: skip_ws_def json_ws_def starts_with_def)
next
  case (2 b)
  then obtain k where "n = Suc k" by (cases n) (auto split: if_splits)
  then show ?case by (simp add: skip_ws_def json_ws_def starts_with_def)
next
  case (3 m e)
  then have "show_number m 0 \<noteq> []" by (simp add: show_number_def show_int_def)
  with 3 obtain k where "n = Suc k" by (cases n) auto
  with 3 parse_number_value[of m r k] show ?case by simp
next
  case (4 s)
  then obtain k where "n = Suc k" by (cases n) (auto simp: json_quote_def)
  then show ?case by (simp add: parse_string_value del: parse_value.simps)
next
  case (5 vs)
  then obtain k where n: "n = Suc k" by (cases n) auto
  show ?case
  proof (cases "vs = []")
    case True
    then show ?thesis by (simp add: n skip_ws_def json_ws_def)
  next
    case False
    then obtain v vs' where vs: "vs = v # vs'" by (cases vs) auto
    with 5 obtain c s where c: "json_stringify v = c # s" "\<not> json_ws c" "c \<noteq> CHR '']''" using stringify_starts[of v] by auto
    have "parse_elems k (json_elems vs @ CHR '']'' # r) = Some (vs, r)" using 5 False n by (intro "5.IH") auto
    then show ?thesis using c by (simp add: n vs skip_ws_def) (simp add: json_ws_def)
  qed
next
  case (6 ms)
  then obtain k where n: "n = Suc k" by (cases n) auto
  show ?case
  proof (cases "ms = []")
    case True
    then show ?thesis by (simp add: n skip_ws_def json_ws_def)
  next
    case False
    then obtain x v ms' where ms: "ms = (x, v) # ms'" by (cases ms) auto
    have "parse_members k (json_members ms @ CHR ''}'' # r) = Some (ms, r)" using 6 False n by (intro "6.IH") auto
    then show ?thesis by (simp add: n ms skip_ws_def json_quote_def) (simp add: json_ws_def)
  qed
next
  case 7
  then show ?case by simp
next
  case (8 x v ms)
  then obtain k where n: "n = Suc k" by (cases n) auto
  have q: "parse_string (concat (map json_escape x) @ CHR 0x22 # t) = Some (x, t)" for t by (rule parse_quoted)
  show ?case
  proof (cases "ms = []")
    case True
    have "parse_value k (json_stringify v @ CHR ''}'' # r) = Some (v, CHR ''}'' # r)" using 8 True n by (intro "8.IH"(1)) auto
    then show ?thesis using True by (simp add: n json_quote_def skip_ws_def json_ws_def q)
  next
    case False
    have "parse_value k (json_stringify v @ CHR '','' # json_members ms @ CHR ''}'' # r) = Some (v, CHR '','' # json_members ms @ CHR ''}'' # r)"
      using 8 False n by (intro "8.IH"(1)) auto
    moreover have "parse_members k (json_members ms @ CHR ''}'' # r) = Some (ms, r)" using 8 False n by (intro "8.IH"(2)) auto
    ultimately show ?thesis using False by (simp add: n json_quote_def skip_ws_def json_ws_def q)
  qed
next
  case 9
  then show ?case by simp
next
  case (10 v vs)
  then obtain k where n: "n = Suc k" by (cases n) auto
  show ?case
  proof (cases "vs = []")
    case True
    have "parse_value k (json_stringify v @ CHR '']'' # r) = Some (v, CHR '']'' # r)" using 10 True n by (intro "10.IH"(1)) auto
    then show ?thesis using True by (simp add: n skip_ws_def json_ws_def)
  next
    case False
    have "parse_value k (json_stringify v @ CHR '','' # json_elems vs @ CHR '']'' # r) = Some (v, CHR '','' # json_elems vs @ CHR '']'' # r)"
      using 10 False n by (intro "10.IH"(1)) auto
    moreover have "parse_elems k (json_elems vs @ CHR '']'' # r) = Some (vs, r)" using 10 False n by (intro "10.IH"(2)) auto
    ultimately show ?thesis using False by (simp add: n skip_ws_def json_ws_def)
  qed
qed

lemma json_parse_stringify: "json_plain (JObj ms) \<Longrightarrow> json_parse (json_stringify (JObj ms)) = Some (JObj ms)"
  using parse_stringify(1)[of "JObj ms" "2 * length (json_stringify (JObj ms)) + 2" "[]"]
  by (simp add: json_parse_def skip_ws_def del: json_stringify.simps parse_value.simps)

end
