(* ===== verification/AttachmentText.thy ===== *)
theory AttachmentText
  imports JsonPrint Composer ServerConfig
begin

text \<open>
  \<open>src/features/chat/attachmentPayload.ts\<close>: the attachments of a message travel in its text, as a marker with a
  base64 payload.  The platform's UTF-8 decoder is the parameter \<open>utf8\<close>, its encoder is \<open>utf8_bytes\<close>.
\<close>

definition ATTACHMENT_MARKER_PREFIX :: string where "ATTACHMENT_MARKER_PREFIX = ''[[LC_ATTACHMENTS_V1:''"
definition ATTACHMENT_MARKER_SUFFIX :: string where "ATTACHMENT_MARKER_SUFFIX = '']]''"
definition MESSAGE_MAX_LENGTH :: nat where "MESSAGE_MAX_LENGTH = 4000"

section \<open>Base64\<close>

definition b64_char :: "nat \<Rightarrow> char" where
  "b64_char n = (if n < 26 then char_of (65 + n) else if n < 52 then char_of (71 + n) else if n < 62 then char_of (n - 4)
     else if n = 62 then CHR ''+'' else CHR ''/'')"

definition b64_value :: "char \<Rightarrow> nat option" where
  "b64_value c = (let n = of_char c :: nat in if 65 \<le> n \<and> n \<le> 90 then Some (n - 65) else if 97 \<le> n \<and> n \<le> 122 then Some (n - 71)
     else if 48 \<le> n \<and> n \<le> 57 then Some (n + 4) else if n = 43 then Some 62 else if n = 47 then Some 63 else None)"

text \<open>\<open>btoa\<close> and \<open>atob\<close>, between bytes and text; the payload has no white space to skip.\<close>

fun btoa :: "nat list \<Rightarrow> string" where
  "btoa [] = []"
| "btoa [a] = [b64_char (a div 4), b64_char (a mod 4 * 16), CHR ''='', CHR ''='']"
| "btoa [a, b] = [b64_char (a div 4), b64_char (a mod 4 * 16 + b div 16), b64_char (b mod 16 * 4), CHR ''='']"
| "btoa (a # b # c # r) = b64_char (a div 4) # b64_char (a mod 4 * 16 + b div 16) # b64_char (b mod 16 * 4 + c div 64) # b64_char (c mod 64) # btoa r"

fun b64_bytes :: "nat list \<Rightarrow> nat list" where
  "b64_bytes (a # b # c # d # r) = (a * 4 + b div 16) # (b mod 16 * 16 + c div 4) # (c mod 4 * 64 + d) # b64_bytes r"
| "b64_bytes [a, b, c] = [a * 4 + b div 16, b mod 16 * 16 + c div 4]"
| "b64_bytes [a, b] = [a * 4 + b div 16]"
| "b64_bytes _ = []"

definition drop_padding :: "string \<Rightarrow> string" where
  "drop_padding s = (if length s mod 4 \<noteq> 0 \<or> s = [] \<or> last s \<noteq> CHR ''='' then s
     else let t = butlast s in if t \<noteq> [] \<and> last t = CHR ''='' then butlast t else t)"

definition atob :: "string \<Rightarrow> nat list option" where
  "atob s = (let s = drop_padding s in if length s mod 4 = 1 \<or> list_ex (\<lambda>c. b64_value c = None) s then None
     else Some (b64_bytes (map (\<lambda>c. the (b64_value c)) s)))"

definition url_char :: "char \<Rightarrow> char" where
  "url_char c = (if c = CHR ''+'' then CHR ''-'' else if c = CHR ''/'' then CHR ''_'' else c)"

definition std_char :: "char \<Rightarrow> char" where
  "std_char c = (if c = CHR ''-'' then CHR ''+'' else if c = CHR ''_'' then CHR ''/'' else c)"

definition encodeBase64Url :: "string \<Rightarrow> string" where
  "encodeBase64Url value = rev (dropWhile (\<lambda>c. c = CHR ''='') (rev (map url_char (btoa (concat (map utf8_bytes value))))))"

definition decodeBase64Url :: "(nat list \<Rightarrow> string) \<Rightarrow> string \<Rightarrow> string option" where
  "decodeBase64Url utf8 value = map_option utf8 (atob (map std_char value @ replicate (((length value + 3) div 4) * 4 - length value) (CHR ''='')))"

section \<open>Attachments\<close>

text \<open>A number is its decimal mantissa and exponent, as the JSON texts have it.\<close>

record text_attachment =
  ta_storageKey :: string
  ta_fileName :: string
  ta_fileSize :: "int \<times> int"
  ta_mimeType :: string

text \<open>\<open>Number\<close> of a text: nothing is 0, a radix prefix, or a decimal literal; \<open>None\<close> is \<open>NaN\<close> or not finite.\<close>

definition radix_digit :: "nat \<Rightarrow> char \<Rightarrow> nat option" where
  "radix_digit b c = (case hex_val c of Some d \<Rightarrow> if d < b then Some d else None | None \<Rightarrow> None)"

definition radix_number :: "nat \<Rightarrow> string \<Rightarrow> int option" where
  "radix_number b s = (if s = [] \<or> list_ex (\<lambda>c. radix_digit b c = None) s then None
     else Some (foldl (\<lambda>n c. n * int b + int (the (radix_digit b c))) 0 s))"

definition decimal_number :: "string \<Rightarrow> (int \<times> int) option" where
  "decimal_number s = (let d = takeWhile is_digit s; rest = drop (length d) s;
     (f, rest) = (case rest of c # cs \<Rightarrow> if c = CHR ''.'' then (takeWhile is_digit cs, dropWhile is_digit cs) else ([], rest) | [] \<Rightarrow> ([], []))
   in if d = [] \<and> f = [] then None else case parse_exponent rest of
       Some (e, []) \<Rightarrow> Some (digits_val (d @ f), e - int (length f)) | _ \<Rightarrow> None)"

definition signed_number :: "string \<Rightarrow> (int \<times> int) option" where
  "signed_number s = (case s of c # cs \<Rightarrow> if c = CHR ''-'' then map_option (\<lambda>(m, e). (- m, e)) (decimal_number cs)
       else if c = CHR ''+'' then decimal_number cs else decimal_number s | [] \<Rightarrow> Some (0, 0))"

definition number_of_text :: "string \<Rightarrow> (int \<times> int) option" where
  "number_of_text s = (let t = js_trim s; p = take 2 t; r = drop 2 t in
     if p = ''0x'' \<or> p = ''0X'' then map_option (\<lambda>n. (n, 0)) (radix_number 16 r)
     else if p = ''0o'' \<or> p = ''0O'' then map_option (\<lambda>n. (n, 0)) (radix_number 8 r)
     else if p = ''0b'' \<or> p = ''0B'' then map_option (\<lambda>n. (n, 0)) (radix_number 2 r)
     else signed_number t)"

text \<open>\<open>Number\<close> of a JSON value; an array is converted through its text, so only one with at most one element is a number.\<close>

fun number_of_element :: "json \<Rightarrow> (int \<times> int) option" where
  "number_of_element JNull = Some (0, 0)"
| "number_of_element (JNum m e) = Some (m, e)"
| "number_of_element (JStr s) = number_of_text s"
| "number_of_element (JArr []) = Some (0, 0)"
| "number_of_element (JArr [v]) = number_of_element v"
| "number_of_element _ = None"

definition number_of_json :: "json option \<Rightarrow> (int \<times> int) option" where
  "number_of_json v = (case v of None \<Rightarrow> Some (0, 0) | Some (JBool b) \<Rightarrow> Some (if b then 1 else 0, 0) | Some v \<Rightarrow> number_of_element v)"

text \<open>\<open>(field ?? '').trim()\<close>: \<open>None\<close> where it throws.\<close>

definition trimmed_field :: "json option \<Rightarrow> string option" where
  "trimmed_field v = (case v of None \<Rightarrow> Some [] | Some JNull \<Rightarrow> Some [] | Some (JStr s) \<Rightarrow> Some (js_trim s) | _ \<Rightarrow> None)"

text \<open>The outer \<open>None\<close> is a thrown error, the inner one the \<open>null\<close> of an entry that is left out.\<close>

definition normalizeAttachment :: "json \<Rightarrow> text_attachment option option" where
  "normalizeAttachment entry = (if entry = JNull then None else
     case (trimmed_field (json_field ''storageKey'' entry), trimmed_field (json_field ''fileName'' entry), trimmed_field (json_field ''mimeType'' entry)) of
       (Some key, Some name, Some mime) \<Rightarrow> Some (case number_of_json (json_field ''fileSize'' entry) of None \<Rightarrow> None
         | Some (m, e) \<Rightarrow> if \<not> starts_with ''uploads/'' key \<or> name = [] \<or> \<not> json_finite m e \<or> m \<le> 0 \<or> mime = [] then None
             else Some \<lparr>ta_storageKey = key, ta_fileName = name, ta_fileSize = (m, e), ta_mimeType = js_lower mime\<rparr>)
     | _ \<Rightarrow> None)"

fun normalize_all :: "json list \<Rightarrow> text_attachment list option" where
  "normalize_all [] = Some []"
| "normalize_all (v # vs) = (case normalizeAttachment v of None \<Rightarrow> None
     | Some a \<Rightarrow> map_option (\<lambda>as. case a of None \<Rightarrow> as | Some a \<Rightarrow> a # as) (normalize_all vs))"

definition attachment_json :: "text_attachment \<Rightarrow> json" where
  "attachment_json a = JObj [(''storageKey'', JStr (ta_storageKey a)), (''fileName'', JStr (ta_fileName a)),
     (''fileSize'', JNum (fst (ta_fileSize a)) (snd (ta_fileSize a))), (''mimeType'', JStr (ta_mimeType a))]"

definition payload_json :: "text_attachment list \<Rightarrow> json" where
  "payload_json as = JObj [(''v'', JNum 1 0), (''attachments'', JArr (map attachment_json as))]"

text \<open>The entries have been normalised before; doing it again changes nothing and throws nothing.\<close>

definition encodeAttachmentPayload :: "text_attachment list \<Rightarrow> string" where
  "encodeAttachmentPayload attachments = (let normalized = (case normalize_all (map attachment_json attachments) of Some as \<Rightarrow> as | None \<Rightarrow> []) in
     ATTACHMENT_MARKER_PREFIX @ encodeBase64Url (json_stringify (payload_json normalized)) @ ATTACHMENT_MARKER_SUFFIX)"

section \<open>Reading\<close>

definition payload_char :: "char \<Rightarrow> bool" where
  "payload_char c \<longleftrightarrow> (let n = of_char c :: nat in (65 \<le> n \<and> n \<le> 90) \<or> (97 \<le> n \<and> n \<le> 122) \<or> (48 \<le> n \<and> n \<le> 57) \<or> n = 95 \<or> n = 45)"

text \<open>\<open>ATTACHMENT_MARKER_REGEX\<close>: matched at one position, and at the leftmost position it matches at.\<close>

definition marker_at :: "string \<Rightarrow> string option" where
  "marker_at s = (if \<not> starts_with ATTACHMENT_MARKER_PREFIX s then None
     else let r = drop (length ATTACHMENT_MARKER_PREFIX) s; p = takeWhile payload_char r; t = dropWhile payload_char r
       in if p \<noteq> [] \<and> starts_with ATTACHMENT_MARKER_SUFFIX t \<and> list_all js_space (drop 2 t) then Some p else None)"

fun marker_payload :: "string \<Rightarrow> string option" where
  "marker_payload [] = None"
| "marker_payload (c # s) = (case marker_at (c # s) of Some p \<Rightarrow> Some p | None \<Rightarrow> marker_payload s)"

fun last_index_of :: "string \<Rightarrow> string \<Rightarrow> nat option" where
  "last_index_of p [] = (if p = [] then Some 0 else None)"
| "last_index_of p (c # s) = (case last_index_of p s of Some i \<Rightarrow> Some (Suc i) | None \<Rightarrow> if starts_with p (c # s) then Some 0 else None)"

definition trim_end :: "string \<Rightarrow> string" where
  "trim_end s = rev (dropWhile js_space (rev s))"

definition json_is_one :: "json option \<Rightarrow> bool" where
  "json_is_one v = (case v of Some (JNum m e) \<Rightarrow> if 0 \<le> e then m * 10 ^ nat e = 1 else m = 10 ^ nat (- e) | _ \<Rightarrow> False)"

definition payload_attachments :: "string \<Rightarrow> text_attachment list option" where
  "payload_attachments payload = (case json_parse payload of None \<Rightarrow> None
     | Some parsed \<Rightarrow> if \<not> json_is_one (json_field ''v'' parsed) then None
       else case json_field ''attachments'' parsed of Some (JArr vs) \<Rightarrow> normalize_all vs | _ \<Rightarrow> None)"

definition parseMessageAttachments :: "(nat list \<Rightarrow> string) \<Rightarrow> string \<Rightarrow> string \<times> text_attachment list" where
  "parseMessageAttachments utf8 content = (case marker_payload content of None \<Rightarrow> (content, [])
     | Some encoded \<Rightarrow> (case decodeBase64Url utf8 encoded of None \<Rightarrow> (content, [])
       | Some payload \<Rightarrow> (case payload_attachments payload of None \<Rightarrow> (content, [])
         | Some as \<Rightarrow> (case last_index_of ATTACHMENT_MARKER_PREFIX content of None \<Rightarrow> content | Some i \<Rightarrow> trim_end (take i content), as))))"

section \<open>Writing\<close>

text \<open>The attachment of the composer as the object it is.\<close>

definition composer_json :: "chat_attachment \<Rightarrow> json" where
  "composer_json a = JObj [(''storageKey'', JStr (ca_storageKey a)), (''fileName'', JStr (ca_fileName a)),
     (''fileSize'', JNum (ca_fileSize a) 0), (''mimeType'', JStr (ca_mimeType a))]"

text \<open>An entry that throws does so out of the function: its error is not named by the source.\<close>

definition composeMessageWithAttachments :: "string \<Rightarrow> json list \<Rightarrow> string + string" where
  "composeMessageWithAttachments text entries = (let normalizedText = js_trim text in case normalize_all entries of None \<Rightarrow> Inl ''TypeError''
     | Some [] \<Rightarrow> if normalizedText = [] then Inl ''Message cannot be empty.''
         else if MESSAGE_MAX_LENGTH < length normalizedText then Inl (''Message exceeds '' @ show_nat MESSAGE_MAX_LENGTH @ '' characters.'')
         else Inr normalizedText
     | Some as \<Rightarrow> let marker = encodeAttachmentPayload as;
           content = (if normalizedText = [] then marker else normalizedText @ [CHR 0x0A, CHR 0x0A] @ marker) in
         if MESSAGE_MAX_LENGTH < length content
         then Inl ''Message is too long after adding attachment metadata. Try fewer files or shorter file names.'' else Inr content)"

end
