(* ===== verification/AttachmentFacts.thy ===== *)
theory AttachmentFacts
  imports AttachmentText
begin

text \<open>
  What the text of a message promises of its attachments: what was composed is read back, entry by entry.
\<close>

section \<open>Base64\<close>

fun sextets :: "nat list \<Rightarrow> nat list" where
  "sextets [] = []"
| "sextets [a] = [a div 4, a mod 4 * 16]"
| "sextets [a, b] = [a div 4, a mod 4 * 16 + b div 16, b mod 16 * 4]"
| "sextets (a # b # c # r) = a div 4 # (a mod 4 * 16 + b div 16) # (b mod 16 * 4 + c div 64) # (c mod 64) # sextets r"

lemma replicate_pad: "replicate 2 c = [c, c]" "replicate (Suc 0) c = [c]"
  by (simp_all add: numeral_2_eq_2)

lemma btoa_sextets: "btoa bs = map b64_char (sextets bs) @ replicate ((4 - length (sextets bs) mod 4) mod 4) (CHR ''='')"
proof (induction bs rule: btoa.induct)
  case (4 a b c r)
  have "Suc (Suc (Suc (Suc n))) mod 4 = n mod 4" for n by presburger
  with 4 show ?case by simp
qed (simp_all add: replicate_pad)

lemma sextets_bound: "list_all (\<lambda>b. b < 256) bs \<Longrightarrow> list_all (\<lambda>s. s < 64) (sextets bs)"
  by (induction bs rule: sextets.induct) (simp_all, linarith+)

lemma sextets_length: "length (sextets bs) mod 4 \<noteq> 1"
  by (induction bs rule: sextets.induct) simp_all

lemma packed: "y < 16 \<Longrightarrow> (x * 16 + y) div 16 = x" "y < 16 \<Longrightarrow> (x * 16 + y) mod 16 = y" "y < 4 \<Longrightarrow> (x * 4 + y) div 4 = x" "y < 4 \<Longrightarrow> (x * 4 + y) mod 4 = y"
  for x y :: nat
  by simp_all

lemma b64_sextets: "list_all (\<lambda>b. b < 256) bs \<Longrightarrow> b64_bytes (sextets bs) = bs"
proof (induction bs rule: sextets.induct)
  case (4 a b c r)
  then have "b div 16 < 16" "c div 64 < 4" by auto
  with 4 show ?case by (simp add: packed)
next
  case (3 a b)
  then have "b div 16 < 16" by auto
  then show ?case by (simp add: packed)
qed simp_all

lemma char_codes: "c = CHR ''+'' \<longleftrightarrow> (of_char c :: nat) = 43" "c = CHR ''/'' \<longleftrightarrow> (of_char c :: nat) = 47" "c = CHR ''-'' \<longleftrightarrow> (of_char c :: nat) = 45"
  "c = CHR ''_'' \<longleftrightarrow> (of_char c :: nat) = 95" "c = CHR ''='' \<longleftrightarrow> (of_char c :: nat) = 61"
proof -
  have e: "c = d \<longleftrightarrow> (of_char c :: nat) = of_char d" for d by (metis char_of_char)
  show "c = CHR ''+'' \<longleftrightarrow> (of_char c :: nat) = 43" "c = CHR ''/'' \<longleftrightarrow> (of_char c :: nat) = 47" "c = CHR ''-'' \<longleftrightarrow> (of_char c :: nat) = 45"
    "c = CHR ''_'' \<longleftrightarrow> (of_char c :: nat) = 95" "c = CHR ''='' \<longleftrightarrow> (of_char c :: nat) = 61"
    by (simp_all add: e[of "CHR ''+''"] e[of "CHR ''/''"] e[of "CHR ''-''"] e[of "CHR ''_''"] e[of "CHR ''=''"])
qed

lemma b64_code: "n < 64 \<Longrightarrow> (of_char (b64_char n) :: nat) = (if n < 26 then 65 + n else if n < 52 then 71 + n else if n < 62 then n - 4 else if n = 62 then 43 else 47)"
  by (simp add: b64_char_def of_char_of)

lemma url_code: "(of_char (url_char c) :: nat) = (if (of_char c :: nat) = 43 then 45 else if (of_char c :: nat) = 47 then 95 else of_char c)"
  by (simp add: url_char_def char_codes)

lemma b64_facts: "n < 64 \<Longrightarrow> b64_value (b64_char n) = Some n \<and> std_char (url_char (b64_char n)) = b64_char n
    \<and> payload_char (url_char (b64_char n)) \<and> url_char (b64_char n) \<noteq> CHR ''='' \<and> b64_char n \<noteq> CHR ''=''"
proof (intro conjI)
  assume n: "n < 64"
  show "b64_value (b64_char n) = Some n" using n by (auto simp: b64_value_def b64_code Let_def)
  have "(of_char (std_char (url_char (b64_char n))) :: nat) = of_char (b64_char n)"
    using n by (auto simp: std_char_def char_codes url_code b64_code)
  then show "std_char (url_char (b64_char n)) = b64_char n" by (metis char_of_char)
  show "payload_char (url_char (b64_char n))" using n by (auto simp: payload_char_def url_code b64_code Let_def)
  show "url_char (b64_char n) \<noteq> CHR ''=''" "b64_char n \<noteq> CHR ''=''" using n by (auto simp: char_codes url_code b64_code)
qed

definition payload_text :: "nat list \<Rightarrow> string" where
  "payload_text bs = map (\<lambda>n. url_char (b64_char n)) (sextets bs)"

lemma drop_padding_core:
  assumes "list_all (\<lambda>c. c \<noteq> CHR ''='') s" and "length s mod 4 \<noteq> 1"
  shows "drop_padding (s @ replicate ((4 - length s mod 4) mod 4) (CHR ''='')) = s"
proof -
  have l: "last s \<noteq> CHR ''=''" if "s \<noteq> []" using assms(1) that by (simp add: list_all_iff)
  have "length s mod 4 < 4" by simp
  with assms(2) consider "length s mod 4 = 0" | "length s mod 4 = 2" | "length s mod 4 = 3" by linarith
  then show ?thesis
  proof cases
    case 1
    with l show ?thesis by (cases "s = []") (simp_all add: drop_padding_def)
  next
    case 2
    then have "(length s + 2) mod 4 = 0" by presburger
    moreover have "replicate 2 (CHR ''='') = [CHR ''='', CHR ''='']" by (simp add: numeral_2_eq_2)
    ultimately show ?thesis using 2 by (simp add: drop_padding_def butlast_append)
  next
    case 3
    then have "(length s + 1) mod 4 = 0" "s \<noteq> []" by (presburger, auto)
    with 3 l show ?thesis by (simp add: drop_padding_def Let_def)
  qed
qed

lemma payload_encode: "encodeBase64Url s = payload_text (concat (map utf8_bytes s))" if "list_all (\<lambda>b. b < 256) (concat (map utf8_bytes s))"
proof -
  define bs where "bs = concat (map utf8_bytes s)"
  have eq: "url_char (CHR ''='') = CHR ''=''" by (simp add: url_char_def)
  have "c \<noteq> CHR ''=''" if "c \<in> set (payload_text bs)" for c
    using that b64_facts sextets_bound[OF \<open>list_all _ (concat (map utf8_bytes s))\<close>] by (auto simp: payload_text_def list_all_iff bs_def)
  then have "dropWhile (\<lambda>c. c = CHR ''='') (rev (payload_text bs)) = rev (payload_text bs)"
    by (cases "rev (payload_text bs)") (auto simp: dropWhile_eq_self_iff dest: arg_cong[of _ _ set])
  moreover have "map url_char (btoa bs) = payload_text bs @ replicate ((4 - length (sextets bs) mod 4) mod 4) (CHR ''='')"
    by (simp add: btoa_sextets payload_text_def eq)
  ultimately show ?thesis by (simp add: encodeBase64Url_def dropWhile_append flip: bs_def)
qed


lemma pad_length_4: "(n + 3) div 4 * 4 - n = (4 - n mod 4) mod 4" for n :: nat
proof -
  have "n mod 4 < 4" by simp
  then consider "n mod 4 = 0" | "n mod 4 = 1" | "n mod 4 = 2" | "n mod 4 = 3" by linarith
  then show ?thesis by cases (simp, presburger)+
qed

lemma payload_decode:
  assumes "list_all (\<lambda>b. b < 256) bs"
  shows "decodeBase64Url utf8 (payload_text bs) = Some (utf8 bs)"
proof -
  define t where "t = map b64_char (sextets bs)"
  have s: "s < 64" if "s \<in> set (sextets bs)" for s using that sextets_bound[OF assms] by (simp add: list_all_iff)
  have std: "map std_char (payload_text bs) = t" using b64_facts[OF s] by (simp add: payload_text_def t_def)
  have len: "length (payload_text bs) = length t" "length t = length (sextets bs)" by (simp_all add: payload_text_def t_def)
  have pad: "map std_char (payload_text bs) @ replicate ((length (payload_text bs) + 3) div 4 * 4 - length (payload_text bs)) (CHR ''='')
      = t @ replicate ((4 - length t mod 4) mod 4) (CHR ''='')" by (simp only: std len(1) pad_length_4)
  have dp: "drop_padding (t @ replicate ((4 - length t mod 4) mod 4) (CHR ''='')) = t"
    using b64_facts[OF s] sextets_length[of bs] by (intro drop_padding_core) (auto simp: t_def list_all_iff)
  have "decodeBase64Url utf8 (payload_text bs) = map_option utf8 (if length t mod 4 = 1 \<or> list_ex (\<lambda>c. b64_value c = None) t then None
      else Some (b64_bytes (map (\<lambda>c. the (b64_value c)) t)))"
    by (simp only: decodeBase64Url_def pad atob_def dp Let_def)
  moreover have "\<not> list_ex (\<lambda>c. b64_value c = None) t" using b64_facts[OF s] by (auto simp: t_def list_ex_iff)
  moreover have "map (\<lambda>c. the (b64_value c)) t = sextets bs" using b64_facts[OF s] by (simp add: t_def comp_def map_idI)
  ultimately show ?thesis using sextets_length[of bs] b64_sextets[OF assms] by (simp add: len(2))
qed

lemma utf8_text_bound: "list_all (\<lambda>b. b < 256) (concat (map utf8_bytes s))"
proof -
  have "b < 256" if "b \<in> set (utf8_bytes c)" for b c proof -
    have "(of_char c :: nat) div 64 < 4" by (rule less_mult_imp_div_less) (use of_char_256[of c] in simp)
    with that show ?thesis by (auto simp: utf8_bytes_def Let_def split: if_splits)
  qed
  then show ?thesis by (auto simp: list_all_iff)
qed

lemma base64_roundtrip:
  assumes "\<And>s. utf8 (concat (map utf8_bytes s)) = s"
  shows "decodeBase64Url utf8 (encodeBase64Url s) = Some s"
  using payload_decode[OF utf8_text_bound] payload_encode[OF utf8_text_bound] assms by simp

lemma encoded_payload_chars: "list_all payload_char (encodeBase64Url s)" "s \<noteq> [] \<Longrightarrow> encodeBase64Url s \<noteq> []"
proof -
  have "n < 64" if "n \<in> set (sextets (concat (map utf8_bytes s)))" for n
    using that sextets_bound[OF utf8_text_bound] by (simp add: list_all_iff)
  then show "list_all payload_char (encodeBase64Url s)"
    unfolding payload_encode[OF utf8_text_bound] by (auto simp: payload_text_def list_all_iff b64_facts)
  have "sextets (b # bs) \<noteq> []" for b bs by (cases bs; cases "tl bs") auto
  moreover assume "s \<noteq> []"
  moreover have "utf8_bytes c \<noteq> []" for c by (simp add: utf8_bytes_def Let_def)
  ultimately show "encodeBase64Url s \<noteq> []"
    unfolding payload_encode[OF utf8_text_bound] payload_text_def by (cases s; cases "utf8_bytes (hd s)") auto
qed

section \<open>The marker\<close>

abbreviation open_brackets :: "string \<Rightarrow> nat" where
  "open_brackets s \<equiv> length (filter (\<lambda>c. c = CHR ''['') s)"

lemma payload_no_bracket: "list_all payload_char p \<Longrightarrow> open_brackets p = 0"
  by (auto simp: list_all_iff filter_empty_conv payload_char_def)

lemma space_no_bracket: "list_all js_space t \<Longrightarrow> open_brackets t = 0"
  by (auto simp: list_all_iff filter_empty_conv js_space_def)

lemma prefix_brackets [simp]: "open_brackets ATTACHMENT_MARKER_PREFIX = 2" "open_brackets ATTACHMENT_MARKER_SUFFIX = 0"
  by (simp_all add: ATTACHMENT_MARKER_PREFIX_def ATTACHMENT_MARKER_SUFFIX_def)

lemma marker_at_brackets: "marker_at s = Some p \<Longrightarrow> open_brackets s = 2 \<and> (\<exists>t. s = CHR ''['' # t)"
proof -
  assume m: "marker_at s = Some p"
  then obtain r where r: "s = ATTACHMENT_MARKER_PREFIX @ r" by (auto simp: marker_at_def starts_with_iff split: if_splits)
  from m have "starts_with ATTACHMENT_MARKER_SUFFIX (dropWhile payload_char r)" "list_all js_space (drop 2 (dropWhile payload_char r))"
    by (auto simp: marker_at_def r Let_def split: if_splits)
  then obtain t where t: "dropWhile payload_char r = ATTACHMENT_MARKER_SUFFIX @ t" "list_all js_space t"
    by (auto simp: starts_with_iff ATTACHMENT_MARKER_SUFFIX_def)
  have "r = takeWhile payload_char r @ ATTACHMENT_MARKER_SUFFIX @ t" by (metis t(1) takeWhile_dropWhile_id)
  moreover have "list_all payload_char (takeWhile payload_char r)" by (auto simp: list_all_iff dest: set_takeWhileD)
  ultimately have "open_brackets r = 0" using space_no_bracket[OF t(2)] payload_no_bracket by (metis add_0 filter_append length_append prefix_brackets(2))
  then show ?thesis by (simp add: r) (simp add: ATTACHMENT_MARKER_PREFIX_def)
qed

definition marker_text :: "string \<Rightarrow> string" where
  "marker_text p = ATTACHMENT_MARKER_PREFIX @ p @ ATTACHMENT_MARKER_SUFFIX"

lemma marker_text_brackets: "list_all payload_char p \<Longrightarrow> open_brackets (marker_text p) = 2"
  by (simp add: marker_text_def payload_no_bracket)

lemma marker_payload_found:
  assumes "list_all payload_char p" and "p \<noteq> []"
  shows "marker_payload (A @ marker_text p) = Some p"
proof (induction A)
  case Nil
  have suf: "ATTACHMENT_MARKER_SUFFIX = CHR '']'' # '']''" "\<not> payload_char (CHR '']'')" by (simp_all add: ATTACHMENT_MARKER_SUFFIX_def payload_char_def)
  have "takeWhile payload_char (p @ ATTACHMENT_MARKER_SUFFIX) = p" "dropWhile payload_char (p @ ATTACHMENT_MARKER_SUFFIX) = ATTACHMENT_MARKER_SUFFIX"
    using assms(1) by (simp_all add: takeWhile_append2 dropWhile_append2 list_all_iff suf)
  then have "marker_at (marker_text p) = Some p" using assms(2) by (simp add: marker_at_def marker_text_def starts_with_def Let_def suf)
  moreover obtain c s where "marker_text p = c # s" by (simp add: marker_text_def ATTACHMENT_MARKER_PREFIX_def)
  ultimately show ?case by simp
next
  case (Cons c A)
  have "marker_at (c # A @ marker_text p) = None"
  proof (cases "marker_at (c # A @ marker_text p)")
    case (Some q)
    from marker_at_brackets[OF this] show ?thesis using marker_text_brackets[OF assms(1)] by auto
  qed
  with Cons show ?case by simp
qed

lemma last_index_none: "open_brackets s < 2 \<Longrightarrow> last_index_of ATTACHMENT_MARKER_PREFIX s = None"
proof (induction s)
  case (Cons c s)
  have "\<not> starts_with ATTACHMENT_MARKER_PREFIX (c # s)"
  proof
    assume "starts_with ATTACHMENT_MARKER_PREFIX (c # s)"
    then obtain r where r: "c # s = ATTACHMENT_MARKER_PREFIX @ r" by (auto simp: starts_with_iff)
    have "2 \<le> open_brackets (c # s)" unfolding r by simp
    with Cons.prems show False by simp
  qed
  moreover have "open_brackets s < 2" using Cons.prems by (simp split: if_splits)
  ultimately show ?case using Cons.IH by simp
qed (simp add: ATTACHMENT_MARKER_PREFIX_def)

lemma last_index_marker: "list_all payload_char p \<Longrightarrow> last_index_of ATTACHMENT_MARKER_PREFIX (A @ marker_text p) = Some (length A)"
proof (induction A)
  case Nil
  obtain s where s: "marker_text p = CHR ''['' # s" by (simp add: marker_text_def ATTACHMENT_MARKER_PREFIX_def)
  have "open_brackets s < 2" using marker_text_brackets[OF Nil] by (simp add: s)
  moreover have "starts_with ATTACHMENT_MARKER_PREFIX (CHR ''['' # s)" unfolding s[symmetric] by (auto simp: marker_text_def starts_with_iff)
  ultimately show ?case using last_index_none[of s] by (simp add: s)
qed simp


section \<open>The entries\<close>

text \<open>Which files of the composer survive, and as what.\<close>

definition file_kept :: "chat_attachment \<Rightarrow> bool" where
  "file_kept f \<longleftrightarrow> starts_with ''uploads/'' (js_trim (ca_storageKey f)) \<and> js_trim (ca_fileName f) \<noteq> []
     \<and> 0 < ca_fileSize f \<and> json_finite (ca_fileSize f) 0 \<and> js_trim (ca_mimeType f) \<noteq> []"

definition kept_as :: "chat_attachment \<Rightarrow> text_attachment" where
  "kept_as f = \<lparr>ta_storageKey = js_trim (ca_storageKey f), ta_fileName = js_trim (ca_fileName f), ta_fileSize = (ca_fileSize f, 0),
     ta_mimeType = js_lower (js_trim (ca_mimeType f))\<rparr>"

lemma normalize_composer: "normalizeAttachment (composer_json f) = Some (if file_kept f then Some (kept_as f) else None)"
  by (auto simp: normalizeAttachment_def composer_json_def json_field_def trimmed_field_def number_of_json_def file_kept_def kept_as_def)

lemma normalize_kept: "file_kept f \<Longrightarrow> normalizeAttachment (attachment_json (kept_as f)) = Some (Some (kept_as f))"
  by (auto simp: normalizeAttachment_def attachment_json_def json_field_def trimmed_field_def number_of_json_def file_kept_def kept_as_def js_trim_lower)
    (simp add: js_lower_def)

lemma normalize_all_composer: "normalize_all (map composer_json files) = Some (map kept_as (filter file_kept files))"
  by (induction files) (simp_all add: normalize_composer)

lemma normalize_all_kept: "list_all file_kept files \<Longrightarrow> normalize_all (map (attachment_json \<circ> kept_as) files) = Some (map kept_as files)"
  by (induction files) (simp_all add: normalize_kept)

lemma elems_plain_map: "elems_plain (map f xs) \<longleftrightarrow> (\<forall>x \<in> set xs. json_plain (f x))"
  by (induction xs) simp_all

lemma payload_read:
  assumes "list_all file_kept files"
  shows "payload_attachments (json_stringify (payload_json (map kept_as files))) = Some (map kept_as files)"
proof -
  have "json_plain (payload_json (map kept_as files))"
    using assms by (auto simp: payload_json_def elems_plain_map attachment_json_def list_all_iff file_kept_def kept_as_def)
  then have "json_parse (json_stringify (payload_json (map kept_as files))) = Some (payload_json (map kept_as files))"
    unfolding payload_json_def by (rule json_parse_stringify)
  then show ?thesis using normalize_all_kept[OF assms]
    by (simp add: payload_attachments_def) (simp add: payload_json_def json_field_def json_is_one_def)
qed

lemma trim_end_trim [simp]: "trim_end (js_trim s) = js_trim s"
  by (simp add: trim_end_def js_trim_def)

lemma trim_end_lines: "trim_end (js_trim s @ [CHR 0x0A, CHR 0x0A]) = js_trim s"
proof -
  have "js_space (CHR 0x0A)" by (simp add: js_space_def)
  then have "trim_end (js_trim s @ [CHR 0x0A, CHR 0x0A]) = trim_end (js_trim s)" by (simp add: trim_end_def)
  then show ?thesis by simp
qed

lemma read_marker:
  assumes utf8: "\<And>s. utf8 (concat (map utf8_bytes s)) = s" and kept: "list_all file_kept files"
  shows "parseMessageAttachments utf8 (A @ encodeAttachmentPayload (map kept_as files)) = (trim_end A, map kept_as files)"
proof -
  define payload where "payload = json_stringify (payload_json (map kept_as files))"
  have enc: "encodeAttachmentPayload (map kept_as files) = marker_text (encodeBase64Url payload)"
    using normalize_all_kept[OF kept] by (simp add: encodeAttachmentPayload_def marker_text_def payload_def)
  have "payload \<noteq> []" by (simp add: payload_def payload_json_def)
  note chars = encoded_payload_chars(1)[of payload] encoded_payload_chars(2)[OF this]
  have "payload_attachments payload = Some (map kept_as files)" unfolding payload_def by (rule payload_read[OF kept])
  then show ?thesis
    unfolding enc by (simp add: parseMessageAttachments_def marker_payload_found[OF chars] last_index_marker[OF chars(1)] base64_roundtrip[OF utf8])
qed

text \<open>C40: The attachments of a message are read back as they were written: when the text and the files of the composer make a
  message, reading it gives the trimmed text and, in order, exactly the files that have an upload key, a name, a type and
  a size, with their keys and names trimmed and their types in lower case; a message without such a file is read as its
  text, unless its text was typed so as to end in a marker.\<close>

theorem attachments_roundtrip:
  assumes "\<And>s. utf8 (concat (map utf8_bytes s)) = s" and "composeMessageWithAttachments text (map composer_json files) = Inr content"
    and "filter file_kept files \<noteq> [] \<or> marker_payload (js_trim text) = None"
  shows "parseMessageAttachments utf8 content = (js_trim text, map kept_as (filter file_kept files))"
proof -
  note n = normalize_all_composer[of files]
  have kept: "list_all file_kept (filter file_kept files)" by (simp add: list_all_iff)
  show ?thesis
  proof (cases "filter file_kept files")
    case Nil
    with assms n show ?thesis by (simp add: composeMessageWithAttachments_def parseMessageAttachments_def Let_def split: if_splits)
  next
    case (Cons f fs)
    define A where "A = (if js_trim text = [] then [] else js_trim text @ [CHR 0x0A, CHR 0x0A])"
    have "content = A @ encodeAttachmentPayload (map kept_as (filter file_kept files))"
      using assms(2) n Cons by (simp add: composeMessageWithAttachments_def A_def Let_def split: if_splits)
    moreover have "trim_end A = js_trim text" by (simp add: A_def trim_end_lines) (simp add: trim_end_def)
    ultimately show ?thesis using read_marker[OF assms(1) kept] by simp
  qed
qed

definition demo_file :: "string \<Rightarrow> chat_attachment" where
  "demo_file k = \<lparr>ca_storageKey = k, ca_fileName = '' a.png '', ca_fileSize = 7, ca_mimeType = ''Image/PNG''\<rparr>"

lemma demo_composed: "case composeMessageWithAttachments '' hi '' (map composer_json [demo_file ''uploads/1'', demo_file ''x'']) of Inl e \<Rightarrow> False | Inr c \<Rightarrow> True"
  by code_simp

theorem attachments_roundtrip_witness:
  "case composeMessageWithAttachments '' hi '' (map composer_json [demo_file ''uploads/1'', demo_file ''x'']) of Inl e \<Rightarrow> False
    | Inr content \<Rightarrow> parseMessageAttachments latin1_utf8 content = (''hi'', [kept_as (demo_file ''uploads/1'')])"
proof (cases "composeMessageWithAttachments '' hi '' (map composer_json [demo_file ''uploads/1'', demo_file ''x''])")
  case (Inr content)
  have "filter file_kept [demo_file ''uploads/1'', demo_file ''x''] = [demo_file ''uploads/1'']" "js_trim '' hi '' = ''hi''" by code_simp+
  with attachments_roundtrip[OF latin1_utf8_bytes Inr] Inr show ?thesis by simp
qed (use demo_composed in simp)

text \<open>A marker that was typed, not composed, is sent unchanged and read as an attachment.\<close>

lemma typed_marker_is_read:
  assumes "\<And>s. utf8 (concat (map utf8_bytes s)) = s" and "file_kept f" and "content = encodeAttachmentPayload [kept_as f]" and "length content \<le> MESSAGE_MAX_LENGTH"
    and "js_trim content = content"
  shows "composeMessageWithAttachments content [] = Inr content \<and> parseMessageAttachments utf8 content = ([], [kept_as f])"
proof -
  have "content \<noteq> []" unfolding assms(3) by (simp add: encodeAttachmentPayload_def ATTACHMENT_MARKER_PREFIX_def)
  then have "composeMessageWithAttachments content [] = Inr content" using assms(4,5) by (simp add: composeMessageWithAttachments_def)
  moreover have "parseMessageAttachments utf8 content = (trim_end [], [kept_as f])"
    using read_marker[OF assms(1), of "[f]" "[]"] assms(2,3) by simp
  ultimately show ?thesis by (simp add: trim_end_def)
qed

end
