(* ===== verification/Spec2Isabelle.thy ===== *)
theory Spec2Isabelle
  imports KeyedStores ActivityStores SmallStores UiStore ServerRail ServerConfig EventFacts ConnectionFacts CallProperties UploadFacts AuthFacts DownloadFacts LoginFacts HistoryFacts DiscoveryFacts AttachmentFacts
begin

text \<open>
  A model of the client of LetsChat (\<open>src/src\<close>): header to be completed.
\<close>

end
